(* ===== verification/Base.thy ===== *)
theory Base
  imports Main "HOL-Library.Char_ord" "HOL-Library.List_Lexorder"
begin

text \<open>
  Prelude of the development: the byte strings of Go, the cutting of a byte stream at newlines
  that both the spool reader and its specification use, and generic facts on sorted lists.
  A Go \<open>string\<close> or \<open>[]byte\<close> is a list of bytes, so the model uses \<open>string\<close> (a
  list of 8-bit characters) for both; \<open>length\<close> is Go's \<open>len\<close> and the order on strings is
  the bytewise order of Go's \<open><\<close>.
\<close>

named_theorems line_simps "cutting a byte stream into newline-terminated lines"

type_synonym bytes = string

abbreviation nl :: char where "nl \<equiv> CHR 0x0A"

abbreviation cr :: char where "cr \<equiv> CHR 0x0D"

section \<open>Newline-terminated lines\<close>

text \<open>
  \<open>cut_line\<close> is one call of \<open>ReadBytes\<close> with a newline delimiter: the line with its
  newline and the rest, or \<open>None\<close> where the call returns \<open>io.EOF\<close> (no newline left).
\<close>

fun cut_line :: "bytes \<Rightarrow> (bytes \<times> bytes) option" where
  "cut_line [] = None"
| "cut_line (c # cs) =
     (if c = nl then Some ([c], cs)
      else map_option (\<lambda>(l, r). (c # l, r)) (cut_line cs))"

lemma cut_line_None_iff [line_simps]: "cut_line s = None \<longleftrightarrow> nl \<notin> set s"
  by (induction s) auto

lemma cut_line_split:
  "cut_line s = Some (l, r) \<Longrightarrow> s = l @ r \<and> (\<exists>b. l = b @ [nl] \<and> nl \<notin> set b)"
proof (induction s arbitrary: l)
  case Nil
  then show ?case by simp
next
  case (Cons c cs)
  show ?case
  proof (cases "c = nl")
    case True
    with Cons.prems show ?thesis by auto
  next
    case False
    with Cons.prems obtain l' where l': "cut_line cs = Some (l', r)" "l = c # l'" by auto
    from Cons.IH [OF l'(1)] obtain b where "cs = l' @ r" "l' = b @ [nl]" "nl \<notin> set b" by blast
    with l'(2) False show ?thesis by (auto intro!: exI [of _ "c # b"])
  qed
qed

lemma cut_line_length: "cut_line s = Some (l, r) \<Longrightarrow> length s = length l + length r \<and> 0 < length l"
  using cut_line_split by fastforce

lemma cut_line_append: "cut_line s = Some (l, r) \<Longrightarrow> cut_line (s @ t) = Some (l, r @ t)"
  by (induction s arbitrary: l) (auto split: if_splits)

lemma cut_line_first [simp]: "nl \<notin> set b \<Longrightarrow> cut_line (b @ nl # r) = Some (b @ [nl], r)"
  by (induction b) auto

text \<open>All complete lines of a stream; what follows the last newline is not a line.\<close>

function lines_of :: "bytes \<Rightarrow> bytes list" where
  "lines_of s = (case cut_line s of None \<Rightarrow> [] | Some (l, r) \<Rightarrow> l # lines_of r)"
  by pat_completeness auto
termination
  by (relation "measure length") (auto dest: cut_line_length)

declare lines_of.simps [simp del]

lemma lines_of_Nil [simp]: "lines_of [] = []"
  by (simp add: lines_of.simps)

lemma lines_of_Some [line_simps]: "cut_line s = Some (l, r) \<Longrightarrow> lines_of s = l # lines_of r"
  by (simp add: lines_of.simps [of s])

lemma lines_of_None [line_simps]: "cut_line s = None \<Longrightarrow> lines_of s = []"
  by (simp add: lines_of.simps [of s])

text \<open>A stream is complete when it is empty or ends with a newline.\<close>

definition complete :: "bytes \<Rightarrow> bool" where
  "complete s \<longleftrightarrow> s = [] \<or> last s = nl"

lemma complete_Nil [simp]: "complete []"
  by (simp add: complete_def)

lemma complete_append: "complete s \<Longrightarrow> complete t \<Longrightarrow> complete (s @ t)"
  by (cases "t = []") (auto simp: complete_def)

lemma complete_line [simp]: "complete (b @ [nl])"
  by (simp add: complete_def)

lemma complete_cut:
  assumes "complete s" and "s \<noteq> []"
  obtains l r where "cut_line s = Some (l, r)" and "complete r"
proof -
  from assms have "nl \<in> set s" using last_in_set [of s] by (auto simp: complete_def)
  then obtain l r where c: "cut_line s = Some (l, r)"
    using cut_line_None_iff [of s] by (cases "cut_line s") auto
  with cut_line_split [OF c] assms have "complete r"
    by (cases "r = []") (auto simp: complete_def)
  with c show ?thesis by (rule that)
qed

lemma lines_of_append [line_simps]: "complete s \<Longrightarrow> lines_of (s @ t) = lines_of s @ lines_of t"
proof (induction s rule: lines_of.induct)
  case (1 s)
  show ?case
  proof (cases "s = []")
    case False
    with "1.prems" obtain l r where c: "cut_line s = Some (l, r)" and r: "complete r"
      by (rule complete_cut)
    from "1.IH" [OF c refl r] have "lines_of (r @ t) = lines_of r @ lines_of t" .
    with c cut_line_append [OF c, of t] show ?thesis by (simp add: lines_of_Some)
  qed simp
qed

lemma concat_lines_of: "complete s \<Longrightarrow> concat (lines_of s) = s"
proof (induction s rule: lines_of.induct)
  case (1 s)
  show ?case
  proof (cases "s = []")
    case False
    with "1.prems" obtain l r where c: "cut_line s = Some (l, r)" and r: "complete r"
      by (rule complete_cut)
    from "1.IH" [OF c refl r] c cut_line_split [OF c] show ?thesis
      by (simp add: lines_of_Some)
  qed simp
qed

lemma lines_of_single [simp]: "nl \<notin> set b \<Longrightarrow> lines_of (b @ [nl]) = [b @ [nl]]"
  using cut_line_first [of b "[]"] by (simp add: lines_of_Some)

text \<open>The number of newlines is the number of complete lines.\<close>

lemma count_nl_lines: "length (filter (\<lambda>c. c = nl) s) = length (lines_of s)"
proof (induction s rule: lines_of.induct)
  case (1 s)
  show ?case
  proof (cases "cut_line s")
    case None
    then have "nl \<notin> set s" by (simp add: cut_line_None_iff)
    then have "filter (\<lambda>c. c = nl) s = []" by (auto simp: filter_empty_conv)
    with None show ?thesis by (simp add: lines_of_None)
  next
    case (Some p)
    obtain l r where p: "p = (l, r)" by (cases p)
    with Some have c: "cut_line s = Some (l, r)" by simp
    from cut_line_split [OF c] obtain b where b: "s = b @ nl # r" "nl \<notin> set b" by auto
    then have "filter (\<lambda>c. c = nl) b = []" by (auto simp: filter_empty_conv)
    with b "1.IH" [OF c refl] c show ?thesis by (simp add: lines_of_Some)
  qed
qed

section \<open>Slices by integers\<close>

text \<open>The first \<open>k\<close> bytes and the rest, for the integers of offsets and buffer sizes.\<close>

fun take_int :: "int \<Rightarrow> 'a list \<Rightarrow> 'a list" where
  "take_int k [] = []"
| "take_int k (x # xs) = (if k \<le> 0 then [] else x # take_int (k - 1) xs)"

fun drop_int :: "int \<Rightarrow> 'a list \<Rightarrow> 'a list" where
  "drop_int k [] = []"
| "drop_int k (x # xs) = (if k \<le> 0 then x # xs else drop_int (k - 1) xs)"

lemma take_int_eq [simp]: "take_int k xs = take (nat k) xs"
proof (induction k xs rule: take_int.induct)
  case (2 k x xs)
  then show ?case by (cases "nat k") (auto simp: nat_diff_distrib)
qed simp

lemma drop_int_eq [simp]: "drop_int k xs = drop (nat k) xs"
proof (induction k xs rule: drop_int.induct)
  case (2 k x xs)
  then show ?case by (cases "nat k") (auto simp: nat_diff_distrib)
qed simp

section \<open>Sorted lists\<close>

lemma sorted_append_less:
  "sorted_wrt (<) (xs @ (ys :: 'a :: linorder list)) \<Longrightarrow> x \<in> set xs \<Longrightarrow> y \<in> set ys \<Longrightarrow> x < y"
  by (auto simp: sorted_wrt_append)

lemma strict_sorted_insert_last:
  "sorted_wrt (<) (xs :: 'a :: linorder list) \<Longrightarrow> (\<forall>x\<in>set xs. x < y) \<Longrightarrow> sorted_wrt (<) (xs @ [y])"
  by (simp add: sorted_wrt_append)

end
