(* ===== verification/Go_Strings.thy ===== *)
theory Go_Strings
  imports Base
begin

text \<open>
  The operations of Go's \<open>strings\<close> and \<open>strconv\<close> packages that the program calls. They
  are the language's standard library, so they have no lines under \<open>src/\<close>; they follow its
  documentation, errors and machine range included (\<open>int\<close> is 64 bits wide).
\<close>

section \<open>strings\<close>

definition has_prefix :: "string \<Rightarrow> string \<Rightarrow> bool" where
  "has_prefix s p \<longleftrightarrow> take (length p) s = p"

definition has_suffix :: "string \<Rightarrow> string \<Rightarrow> bool" where
  "has_suffix s p \<longleftrightarrow> length p \<le> length s \<and> drop (length s - length p) s = p"

definition trim_prefix :: "string \<Rightarrow> string \<Rightarrow> string" where
  "trim_prefix s p = (if has_prefix s p then drop (length p) s else s)"

definition trim_suffix :: "string \<Rightarrow> string \<Rightarrow> string" where
  "trim_suffix s p = (if has_suffix s p then take (length s - length p) s else s)"

text \<open>\<open>IndexByte\<close> is -1 when the byte does not occur.\<close>

definition index_byte :: "string \<Rightarrow> char \<Rightarrow> int" where
  "index_byte s c =
     (let k = length (takeWhile (\<lambda>x. x \<noteq> c) s) in if k < length s then int k else -1)"

definition contains_any :: "string \<Rightarrow> string \<Rightarrow> bool" where
  "contains_any s cs \<longleftrightarrow> list_ex (\<lambda>c. c \<in> set cs) s"

text \<open>\<open>TrimRight\<close> with an ASCII cutset.\<close>

definition trim_right :: "string \<Rightarrow> string \<Rightarrow> string" where
  "trim_right s cs = rev (dropWhile (\<lambda>c. c \<in> set cs) (rev s))"

text \<open>
  \<open>TrimSpace\<close> removes Unicode white space. A rune is white space exactly when its UTF-8
  encoding is one of these byte sequences (\<open>unicode.IsSpace\<close>); an invalid byte is no space.
\<close>

definition space_seqs :: "string list" where
  "space_seqs =
     [[CHR 0x09], [CHR 0x0A], [CHR 0x0B], [CHR 0x0C], [CHR 0x0D], [CHR 0x20],
      [CHR 0xC2, CHR 0x85], [CHR 0xC2, CHR 0xA0], [CHR 0xE1, CHR 0x9A, CHR 0x80],
      [CHR 0xE2, CHR 0x80, CHR 0x80], [CHR 0xE2, CHR 0x80, CHR 0x81],
      [CHR 0xE2, CHR 0x80, CHR 0x82], [CHR 0xE2, CHR 0x80, CHR 0x83],
      [CHR 0xE2, CHR 0x80, CHR 0x84], [CHR 0xE2, CHR 0x80, CHR 0x85],
      [CHR 0xE2, CHR 0x80, CHR 0x86], [CHR 0xE2, CHR 0x80, CHR 0x87],
      [CHR 0xE2, CHR 0x80, CHR 0x88], [CHR 0xE2, CHR 0x80, CHR 0x89],
      [CHR 0xE2, CHR 0x80, CHR 0x8A], [CHR 0xE2, CHR 0x80, CHR 0xA8],
      [CHR 0xE2, CHR 0x80, CHR 0xA9], [CHR 0xE2, CHR 0x80, CHR 0xAF],
      [CHR 0xE2, CHR 0x81, CHR 0x9F], [CHR 0xE3, CHR 0x80, CHR 0x80]]"

lemma find_Some_in: "find P xs = Some x \<Longrightarrow> x \<in> set xs \<and> P x"
  by (auto simp: find_Some_iff)

lemma space_seqs_nonempty: "w \<in> set space_seqs \<Longrightarrow> w \<noteq> []"
  by (auto simp: space_seqs_def)

function trim_left_space :: "string \<Rightarrow> string" where
  "trim_left_space s =
     (if s = [] then []
      else case find (has_prefix s) space_seqs of
        None \<Rightarrow> s
      | Some w \<Rightarrow> trim_left_space (drop (length w) s))"
  by pat_completeness auto
termination
  by (relation "measure length") (auto dest!: find_Some_in space_seqs_nonempty)

function trim_right_space :: "string \<Rightarrow> string" where
  "trim_right_space s =
     (if s = [] then []
      else case find (has_suffix s) space_seqs of
        None \<Rightarrow> s
      | Some w \<Rightarrow> trim_right_space (take (length s - length w) s))"
  by pat_completeness auto
termination
  by (relation "measure length") (auto dest!: find_Some_in space_seqs_nonempty)

declare trim_left_space.simps [simp del] trim_right_space.simps [simp del]

definition trim_space :: "string \<Rightarrow> string" where
  "trim_space s = trim_right_space (trim_left_space s)"

text \<open>\<open>Split\<close> and \<open>SplitN\<close> with a one-byte separator; the result is never empty.\<close>

fun split_byte :: "char \<Rightarrow> string \<Rightarrow> string list" where
  "split_byte c [] = [[]]"
| "split_byte c (x # xs) =
     (let r = split_byte c xs in if x = c then [] # r else (x # hd r) # tl r)"

fun split_byte_n :: "nat \<Rightarrow> char \<Rightarrow> string \<Rightarrow> string list" where
  "split_byte_n 0 c s = []"
| "split_byte_n (Suc 0) c s = [s]"
| "split_byte_n (Suc (Suc n)) c s =
     (if c \<in> set s
      then takeWhile (\<lambda>x. x \<noteq> c) s
             # split_byte_n (Suc n) c (tl (dropWhile (\<lambda>x. x \<noteq> c) s))
      else [s])"

fun join :: "string list \<Rightarrow> string \<Rightarrow> string" where
  "join [] sep = []"
| "join [s] sep = s"
| "join (s # t # ss) sep = s @ sep @ join (t # ss) sep"

lemma has_prefix_append [simp]: "has_prefix (p @ s) p"
  by (simp add: has_prefix_def)

lemma has_prefixE: "has_prefix s p \<Longrightarrow> s = p @ drop (length p) s"
  by (metis append_take_drop_id has_prefix_def)

lemma has_suffix_append [simp]: "has_suffix (s @ p) p"
  by (simp add: has_suffix_def)

lemma has_suffixE: "has_suffix s p \<Longrightarrow> s = take (length s - length p) s @ p"
  by (metis append_take_drop_id has_suffix_def)

lemma has_suffix_iff: "has_suffix s p \<longleftrightarrow> (\<exists>x. s = x @ p)"
  using has_suffixE [of s p] by auto

lemma has_prefix_iff: "has_prefix s p \<longleftrightarrow> (\<exists>x. s = p @ x)"
  using has_prefixE [of s p] by auto

lemma trim_prefix_append [simp]: "trim_prefix (p @ s) p = s"
  by (simp add: trim_prefix_def)

lemma trim_suffix_append [simp]: "trim_suffix (s @ p) p = s"
  by (simp add: trim_suffix_def)

lemma has_prefix_Nil [simp]: "has_prefix s []"
  by (simp add: has_prefix_def)

lemma has_prefix_Cons: "has_prefix s (c # p) \<longleftrightarrow> (\<exists>s'. s = c # s' \<and> has_prefix s' p)"
  by (cases s) (auto simp: has_prefix_def)

lemma split_byte_nonempty [simp]: "split_byte c s \<noteq> []"
  by (cases s) (auto simp: Let_def)

lemma trim_right_suffix: "\<exists>t. s = trim_right s cs @ t \<and> set t \<subseteq> set cs"
proof -
  have "s = trim_right s cs @ rev (takeWhile (\<lambda>c. c \<in> set cs) (rev s))"
    by (metis rev_append rev_rev_ident takeWhile_dropWhile_id trim_right_def)
  moreover have "set (rev (takeWhile (\<lambda>c. c \<in> set cs) (rev s))) \<subseteq> set cs"
    by (auto dest: set_takeWhileD)
  ultimately show ?thesis by blast
qed

section \<open>strconv\<close>

definition is_digit :: "char \<Rightarrow> bool" where
  "is_digit c \<longleftrightarrow> CHR ''0'' \<le> c \<and> c \<le> CHR ''9''"

definition digit_val :: "char \<Rightarrow> nat" where
  "digit_val c = of_char c - 48"

datatype num_err = ErrSyntax | ErrRange

definition max_uint64 :: nat where "max_uint64 = 2 ^ 64 - 1"

text \<open>\<open>ParseUint\<close> in base 10: a syntax error at the first byte that is no digit, a range error
  as soon as the value leaves 64 bits.\<close>

fun parse_uint_loop :: "nat \<Rightarrow> string \<Rightarrow> num_err + nat" where
  "parse_uint_loop n [] = Inr n"
| "parse_uint_loop n (c # cs) =
     (if \<not> is_digit c then Inl ErrSyntax
      else if max_uint64 < n * 10 + digit_val c then Inl ErrRange
      else parse_uint_loop (n * 10 + digit_val c) cs)"

definition parse_uint :: "string \<Rightarrow> num_err + nat" where
  "parse_uint s = (if s = [] then Inl ErrSyntax else parse_uint_loop 0 s)"

text \<open>
  \<open>ParseInt\<close> in base 10 and \<open>Atoi\<close>: the value and the error. With a range error the value is
  the nearest 64-bit integer, with a syntax error it is 0.
\<close>

definition parse_int :: "string \<Rightarrow> int \<times> num_err option" where
  "parse_int s =
     (if s = [] then (0, Some ErrSyntax)
      else
        let neg = (hd s = CHR ''-'');
            body = (if hd s = CHR ''+'' \<or> hd s = CHR ''-'' then tl s else s)
        in case (case parse_uint body of Inl ErrRange \<Rightarrow> Inr max_uint64 | r \<Rightarrow> r) of
             Inl e \<Rightarrow> (0, Some e)
           | Inr un \<Rightarrow>
               if \<not> neg \<and> 2 ^ 63 \<le> un then (2 ^ 63 - 1, Some ErrRange)
               else if neg \<and> 2 ^ 63 < un then (- (2 ^ 63), Some ErrRange)
               else (if neg then - int un else int un, None))"

definition atoi :: "string \<Rightarrow> int \<times> num_err option" where
  "atoi s = parse_int s"

text \<open>Decimal printing of integers (\<open>%d\<close>, \<open>strconv.Itoa\<close>).\<close>

definition digit_char :: "nat \<Rightarrow> char" where
  "digit_char d = char_of (48 + d)"

fun nat_dec :: "nat \<Rightarrow> string" where
  "nat_dec n = (if n < 10 then [digit_char n] else nat_dec (n div 10) @ [digit_char (n mod 10)])"

declare nat_dec.simps [simp del]

definition int_dec :: "int \<Rightarrow> string" where
  "int_dec i = (if i < 0 then CHR ''-'' # nat_dec (nat (- i)) else nat_dec (nat i))"

text \<open>Zero-padded to at least \<open>w\<close> digits, as \<open>time.Format\<close> prints its fields.\<close>

definition pad_nat :: "nat \<Rightarrow> nat \<Rightarrow> string" where
  "pad_nat w n = (let s = nat_dec n in replicate (w - length s) CHR ''0'' @ s)"

lemma digit_val_char [simp]: "d < 10 \<Longrightarrow> digit_val (digit_char d) = d"
  by (simp add: digit_val_def digit_char_def)

lemma of_char_digit: "d < 10 \<Longrightarrow> (of_char (digit_char d) :: nat) = 48 + d"
  by (simp add: digit_char_def)

lemma is_digit_char [simp]: "d < 10 \<Longrightarrow> is_digit (digit_char d)"
  by (simp add: is_digit_def less_eq_char_def of_char_digit)

lemma is_digit_of_char: "is_digit c \<longleftrightarrow> 48 \<le> (of_char c :: nat) \<and> (of_char c :: nat) \<le> 57"
  by (simp add: is_digit_def less_eq_char_def)

lemma digit_char_less_iff: "d < 10 \<Longrightarrow> e < 10 \<Longrightarrow> digit_char d < digit_char e \<longleftrightarrow> d < e"
  by (simp add: less_char_def of_char_digit)

lemma digit_char_eq_iff: "d < 10 \<Longrightarrow> e < 10 \<Longrightarrow> digit_char d = digit_char e \<longleftrightarrow> d = e"
  by (metis digit_val_char)

lemma nat_dec_digits: "c \<in> set (nat_dec n) \<Longrightarrow> is_digit c"
proof (induction n rule: nat_dec.induct)
  case (1 n)
  show ?case
  proof (cases "n < 10")
    case True
    with "1.prems" show ?thesis by (simp add: nat_dec.simps [of n])
  next
    case False
    with "1.prems" have "c \<in> set (nat_dec (n div 10)) \<or> c = digit_char (n mod 10)"
      by (auto simp: nat_dec.simps [of n])
    with "1.IH" [OF False] show ?thesis by auto
  qed
qed

lemma nat_dec_nonempty [simp]: "nat_dec n \<noteq> []"
  by (subst nat_dec.simps) simp

lemma digit_val_le: "is_digit c \<Longrightarrow> digit_val c \<le> 9"
  by (auto simp: is_digit_of_char digit_val_def)

text \<open>Parsing what was printed: the value comes back when it fits in 64 bits.\<close>

definition horner :: "nat \<Rightarrow> string \<Rightarrow> nat" where
  "horner n s = foldl (\<lambda>a c. a * 10 + digit_val c) n s"

lemma horner_simps [simp]:
  "horner n [] = n"
  "horner n (c # cs) = horner (n * 10 + digit_val c) cs"
  "horner n (s @ [c]) = horner n s * 10 + digit_val c"
  by (simp_all add: horner_def)

lemma horner_ge: "n \<le> horner n s"
  by (induction s arbitrary: n) (simp, fastforce intro: order_trans [rotated])

lemma parse_uint_loop_horner:
  "\<forall>c\<in>set s. is_digit c \<Longrightarrow> horner n s \<le> max_uint64 \<Longrightarrow> parse_uint_loop n s = Inr (horner n s)"
proof (induction s arbitrary: n)
  case (Cons c cs)
  from Cons.prems(2) horner_ge [of "n * 10 + digit_val c" cs] have "n * 10 + digit_val c \<le> max_uint64"
    by simp
  with Cons show ?case by simp
qed simp

lemma horner_nat_dec: "horner 0 (nat_dec n) = n"
proof (induction n rule: nat_dec.induct)
  case (1 n)
  show ?case
  proof (cases "n < 10")
    case False
    with "1.IH" show ?thesis by (simp add: nat_dec.simps [of n])
  qed (simp add: nat_dec.simps [of n])
qed

lemma parse_uint_nat_dec: "n \<le> max_uint64 \<Longrightarrow> parse_uint (nat_dec n) = Inr n"
  by (simp add: parse_uint_def parse_uint_loop_horner nat_dec_digits horner_nat_dec)

lemma hd_nat_dec: "hd (nat_dec n) \<noteq> CHR ''-'' \<and> hd (nat_dec n) \<noteq> CHR ''+''"
proof -
  have "is_digit (hd (nat_dec n))" by (rule nat_dec_digits [of _ n]) simp
  then show ?thesis by (auto simp: is_digit_of_char)
qed

lemma atoi_int_dec: "- (2 ^ 63) \<le> i \<Longrightarrow> i < 2 ^ 63 \<Longrightarrow> atoi (int_dec i) = (i, None)"
proof (cases "i < 0")
  case True
  moreover assume "- (2 ^ 63) \<le> i"
  ultimately have "nat (- i) \<le> max_uint64" "\<not> 2 ^ 63 < nat (- i)"
    by (simp_all add: max_uint64_def nat_le_iff)
  with True show ?thesis
    by (simp add: atoi_def parse_int_def int_dec_def parse_uint_nat_dec)
next
  case False
  moreover assume "i < 2 ^ 63"
  ultimately have "nat i \<le> max_uint64" "\<not> 2 ^ 63 \<le> nat i"
    by (simp_all add: max_uint64_def nat_le_iff)
  with False show ?thesis
    using hd_nat_dec [of "nat i"] by (simp add: atoi_def parse_int_def int_dec_def parse_uint_nat_dec)
qed

section \<open>Code equations that keep 64-bit bounds as binary integers\<close>

lemma parse_uint_loop_code [code]:
  "parse_uint_loop n [] = Inr n"
  "parse_uint_loop n (c # cs) =
     (if \<not> is_digit c then Inl ErrSyntax
      else if 18446744073709551615 < int (n * 10 + digit_val c) then Inl ErrRange
      else parse_uint_loop (n * 10 + digit_val c) cs)"
  by (simp_all add: max_uint64_def del: of_nat_add of_nat_mult)

lemma nat_pow63:
  "2 ^ 63 \<le> (n :: nat) \<longleftrightarrow> 2 ^ 63 \<le> int n" "2 ^ 63 < (n :: nat) \<longleftrightarrow> 2 ^ 63 < int n"
  "int max_uint64 = 18446744073709551615"
  by (simp_all add: max_uint64_def)

lemma parse_int_code [code]:
  "parse_int s =
     (if s = [] then (0, Some ErrSyntax)
      else
        let neg = (hd s = CHR ''-'');
            body = (if hd s = CHR ''+'' \<or> hd s = CHR ''-'' then tl s else s)
        in case (case parse_uint body of Inl ErrRange \<Rightarrow> Inr 18446744073709551615 | Inl ErrSyntax \<Rightarrow> Inl ErrSyntax | Inr n \<Rightarrow> Inr (int n)) of
             Inl e \<Rightarrow> (0, Some e)
           | Inr un \<Rightarrow>
               if \<not> neg \<and> 2 ^ 63 \<le> un then (2 ^ 63 - 1, Some ErrRange)
               else if neg \<and> 2 ^ 63 < un then (- (2 ^ 63), Some ErrRange)
               else (if neg then - un else un, None))"
proof (cases "parse_uint (if hd s = CHR ''+'' \<or> hd s = CHR ''-'' then tl s else s)")
  case (Inl e)
  then show ?thesis
    by (cases e) (simp_all only: parse_int_def Let_def nat_pow63 sum.case num_err.case)
next
  case (Inr n)
  then show ?thesis by (simp only: parse_int_def Let_def nat_pow63 sum.case)
qed

end
