(* ===== verification/Go_Time.thy ===== *)
theory Go_Time
  imports Go_Strings
begin

text \<open>
  The part of Go's \<open>time\<close> package the program uses: instants, the proleptic Gregorian calendar
  in UTC, \<open>Format\<close> with the layouts of the code, and \<open>Parse\<close> with a layout given as a list of
  chunks, as \<open>time.Parse\<close> cuts it. An instant is a number of nanoseconds since 1970 (UTC);
  durations are nanoseconds too.
\<close>

type_synonym gtime = int
type_synonym duration = int

definition second :: duration where "second = 1000000000"

definition day_ns :: duration where "day_ns = 86400 * second"

section \<open>The calendar\<close>

definition is_leap :: "int \<Rightarrow> bool" where
  "is_leap y \<longleftrightarrow> y mod 4 = 0 \<and> (y mod 100 \<noteq> 0 \<or> y mod 400 = 0)"

text \<open>Days from 0001-01-01 to the first day of a year.\<close>

definition days_before_year :: "int \<Rightarrow> int" where
  "days_before_year y = (let z = y - 1 in 365 * z + z div 4 - z div 100 + z div 400)"

definition days_before_month :: "bool \<Rightarrow> int \<Rightarrow> int" where
  "days_before_month leap m =
     [0, 31, 59, 90, 120, 151, 181, 212, 243, 273, 304, 334] ! nat (m - 1)
     + (if leap \<and> 2 < m then 1 else 0)"

definition days_in :: "int \<Rightarrow> int \<Rightarrow> int" where
  "days_in m y =
     (if m = 2 then (if is_leap y then 29 else 28)
      else if m = 4 \<or> m = 6 \<or> m = 9 \<or> m = 11 then 30 else 31)"

definition year_of :: "int \<Rightarrow> int" where
  "year_of n =
     (let y = 400 * n div 146097 + 1
      in if n < days_before_year y then y - 1
         else if days_before_year (y + 1) \<le> n then y + 1 else y)"

definition month_of :: "bool \<Rightarrow> int \<Rightarrow> int" where
  "month_of leap d =
     (let l = (if leap then 1 else 0)
      in if d < 31 then 1 else if d < 59 + l then 2 else if d < 90 + l then 3
         else if d < 120 + l then 4 else if d < 151 + l then 5 else if d < 181 + l then 6
         else if d < 212 + l then 7 else if d < 243 + l then 8 else if d < 273 + l then 9
         else if d < 304 + l then 10 else if d < 334 + l then 11 else 12)"

type_synonym civil = "int \<times> int \<times> int"

definition civil_of :: "int \<Rightarrow> civil" where
  "civil_of n =
     (let y = year_of n; d = n - days_before_year y; m = month_of (is_leap y) d
      in (y, m, d - days_before_month (is_leap y) m + 1))"

fun days_of :: "civil \<Rightarrow> int" where
  "days_of (y, m, d) = days_before_year y + days_before_month (is_leap y) m + d - 1"

fun valid_civil :: "civil \<Rightarrow> bool" where
  "valid_civil (y, m, d) \<longleftrightarrow> 1 \<le> m \<and> m \<le> 12 \<and> 1 \<le> d \<and> d \<le> days_in m y"

fun civil_less :: "civil \<Rightarrow> civil \<Rightarrow> bool" where
  "civil_less (y, m, d) (y', m', d') \<longleftrightarrow> y < y' \<or> y = y' \<and> (m < m' \<or> m = m' \<and> d < d')"

lemma div_bounds: "0 < k \<Longrightarrow> k * (z div k) \<le> z" "0 < k \<Longrightarrow> z < k * (z div k) + (k :: int)"
  using mult_div_mod_eq [of k z] pos_mod_sign [of k z] pos_mod_bound [of k z] by linarith+

lemma div_step:
  assumes "0 < (k :: int)"
  shows "(z + 1) div k = z div k + (if (z + 1) mod k = 0 then 1 else 0)"
proof (cases "z mod k = k - 1")
  case True
  then have e: "z + 1 = k * (z div k + 1) + 0"
    using mult_div_mod_eq [of k z] by (simp only: distrib_left)
  from int_div_pos_eq [OF e] int_mod_pos_eq [OF e] assms show ?thesis by simp
next
  case False
  have e: "z + 1 = k * (z div k) + (z mod k + 1)" using mult_div_mod_eq [of k z] by simp
  have "0 \<le> z mod k + 1" "z mod k + 1 < k" "0 < z mod k + 1"
    using False assms pos_mod_sign [of k z] pos_mod_bound [of k z] by linarith+
  with int_div_pos_eq [OF e] int_mod_pos_eq [OF e] show ?thesis by simp
qed

lemma leap_dvd: "(y :: int) mod 100 = 0 \<Longrightarrow> y mod 4 = 0" "y mod 400 = 0 \<Longrightarrow> y mod 100 = (0 :: int)"
  unfolding mod_eq_0_iff_dvd by (auto elim: dvd_trans [rotated])

lemma leap_count:
  "(q \<Longrightarrow> p) \<Longrightarrow> (r \<Longrightarrow> q) \<Longrightarrow>
   365 * (z + 1) + (a + (if p then 1 else 0)) - (b + (if q then 1 else 0)) + (c + (if r then 1 else 0))
   = 365 * z + a - b + c + (if p \<and> (\<not> q \<or> r) then 366 else (365 :: int))"
  by (cases p; cases q; cases r) simp_all

lemma year_step: "days_before_year (y + 1) = days_before_year y + (if is_leap y then 366 else 365)"
proof -
  define z where "z = y - 1"
  define p q r where "p \<longleftrightarrow> (z + 1) mod 4 = 0" and "q \<longleftrightarrow> (z + 1) mod 100 = 0"
    and "r \<longleftrightarrow> (z + 1) mod 400 = 0"
  have y: "y = z + 1" by (simp add: z_def)
  have "days_before_year (y + 1) = 365 * (z + 1) + (z + 1) div 4 - (z + 1) div 100 + (z + 1) div 400"
    by (simp add: days_before_year_def y Let_def add.commute)
  moreover have "(z + 1) div 4 = z div 4 + (if p then 1 else 0)"
    "(z + 1) div 100 = z div 100 + (if q then 1 else 0)"
    "(z + 1) div 400 = z div 400 + (if r then 1 else 0)"
    unfolding p_def q_def r_def by (rule div_step, simp)+
  moreover have "days_before_year y = 365 * z + z div 4 - z div 100 + z div 400"
    by (simp add: days_before_year_def y)
  moreover have "is_leap y \<longleftrightarrow> p \<and> (\<not> q \<or> r)"
    unfolding is_leap_def y p_def q_def r_def by (rule refl)
  moreover have "q \<Longrightarrow> p" "r \<Longrightarrow> q"
    using leap_dvd [of "z + 1"] by (simp_all only: p_def q_def r_def)
  ultimately show ?thesis
    using leap_count [of q p r z "z div 4" "z div 100" "z div 400"] by presburger
qed

lemma cycle_upper:
  "4 * a \<le> z \<Longrightarrow> z < 100 * b + 100 \<Longrightarrow> 400 * c \<le> z \<Longrightarrow>
   400 * (365 * z + a - b + c) \<le> 146097 * z + (396 :: int)"
  by (simp add: algebra_simps)

lemma cycle_lower:
  "z < 4 * a + 4 \<Longrightarrow> 100 * b \<le> z \<Longrightarrow> z < 400 * c + 400 \<Longrightarrow>
   146097 * z - (699 :: int) \<le> 400 * (365 * z + a - b + c)"
  by (simp add: algebra_simps)

lemma year_of_bounds: "days_before_year (year_of n) \<le> n \<and> n < days_before_year (year_of n + 1)"
proof -
  define z where "z = 400 * n div 146097"
  have z: "146097 * z \<le> 400 * n" "400 * n < 146097 * (z + 1)"
    using div_bounds [of 146097 "400 * n"] by (simp_all add: z_def)
  note q4 = div_bounds [of 4, OF zero_less_numeral] and q100 = div_bounds [of 100, OF zero_less_numeral]
    and q400 = div_bounds [of 400, OF zero_less_numeral]
  have lo: "400 * days_before_year y \<le> 146097 * (y - 1) + 396" for y
    unfolding days_before_year_def Let_def by (rule cycle_upper [OF q4(1) q100(2) q400(1)])
  have hi: "146097 * (y - 1) - 699 \<le> 400 * days_before_year y" for y
    unfolding days_before_year_def Let_def by (rule cycle_lower [OF q4(2) q100(1) q400(2)])
  have "days_before_year z \<le> n" using lo [of z] z by simp
  moreover have "n < days_before_year (z + 3)" using hi [of "z + 3"] z by simp
  ultimately show ?thesis
    unfolding year_of_def Let_def z_def [symmetric] by (simp add: algebra_simps)
qed

lemma month_cases:
  "1 \<le> m \<Longrightarrow> m \<le> (12 :: int) \<Longrightarrow> m = 1 \<or> m = 2 \<or> m = 3 \<or> m = 4 \<or> m = 5 \<or> m = 6
   \<or> m = 7 \<or> m = 8 \<or> m = 9 \<or> m = 10 \<or> m = 11 \<or> m = 12"
  by arith

lemma month_fits:
  assumes "0 \<le> d" "d < (if is_leap y then 366 else 365)"
  shows "1 \<le> month_of (is_leap y) d \<and> month_of (is_leap y) d \<le> 12
    \<and> days_before_month (is_leap y) (month_of (is_leap y) d) \<le> d
    \<and> d < days_before_month (is_leap y) (month_of (is_leap y) d) + days_in (month_of (is_leap y) d) y"
proof -
  define l :: int where "l = (if is_leap y then 1 else 0)"
  consider "d < 31" | "\<not> d < 31" "d < 59 + l" | "\<not> d < 59 + l" "d < 90 + l"
    | "\<not> d < 90 + l" "d < 120 + l" | "\<not> d < 120 + l" "d < 151 + l" | "\<not> d < 151 + l" "d < 181 + l"
    | "\<not> d < 181 + l" "d < 212 + l" | "\<not> d < 212 + l" "d < 243 + l" | "\<not> d < 243 + l" "d < 273 + l"
    | "\<not> d < 273 + l" "d < 304 + l" | "\<not> d < 304 + l" "d < 334 + l" | "\<not> d < 334 + l"
    by blast
  then show ?thesis
    using assms
    by cases (cases "is_leap y";
       simp add: l_def month_of_def Let_def days_before_month_def days_in_def)+
qed

lemma month_table: "days_before_month l 1 = 0" "days_before_month l 2 = 31"
  "days_before_month l 3 = 59 + (if l then 1 else 0)" "days_before_month l 4 = 90 + (if l then 1 else 0)"
  "days_before_month l 5 = 120 + (if l then 1 else 0)" "days_before_month l 6 = 151 + (if l then 1 else 0)"
  "days_before_month l 7 = 181 + (if l then 1 else 0)" "days_before_month l 8 = 212 + (if l then 1 else 0)"
  "days_before_month l 9 = 243 + (if l then 1 else 0)" "days_before_month l 10 = 273 + (if l then 1 else 0)"
  "days_before_month l 11 = 304 + (if l then 1 else 0)" "days_before_month l 12 = 334 + (if l then 1 else 0)"
  by (simp_all add: days_before_month_def)

lemma month_end:
  assumes "1 \<le> m" "m \<le> 12"
  shows "days_before_month (is_leap y) m + days_in m y
       \<le> (if m = 12 then (if is_leap y then 366 else 365) else days_before_month (is_leap y) (m + 1))
   \<and> 0 \<le> days_before_month (is_leap y) m"
  using month_cases [OF assms] by (elim disjE) (simp_all add: month_table days_in_def)

lemma month_mono:
  assumes "m \<le> m'" "1 \<le> m" "m' \<le> 12"
  shows "days_before_month l m \<le> days_before_month l m'"
proof -
  have "k \<le> 12 \<longrightarrow> days_before_month l m \<le> days_before_month l k" if "m \<le> k" for k
    using that
  proof (induction k rule: int_ge_induct)
    case (step k)
    show ?case
    proof
      assume "k + 1 \<le> 12"
      with step assms have "1 \<le> k" "k \<le> 12" "days_before_month l m \<le> days_before_month l k" by auto
      from month_cases [OF this(1,2)] this(3) \<open>k + 1 \<le> 12\<close>
      show "days_before_month l m \<le> days_before_month l (k + 1)"
        by (elim disjE; cases l) (simp_all add: month_table)
    qed
  qed simp
  with assms show ?thesis by simp
qed

lemma month_step:
  "1 \<le> m \<Longrightarrow> m < m' \<Longrightarrow> m' \<le> 12 \<Longrightarrow>
   days_before_month (is_leap y) m + days_in m y \<le> days_before_month (is_leap y) m'"
  using month_end [of m y] month_mono [of "m + 1" m' "is_leap y"] by simp

lemma month_last:
  "1 \<le> m \<Longrightarrow> m \<le> 12 \<Longrightarrow>
   days_before_month (is_leap y) m + days_in m y \<le> (if is_leap y then 366 else 365)
   \<and> 0 \<le> days_before_month (is_leap y) m"
  using month_end [of m y] month_step [of m 12 y] month_end [of 12 y]
  by (cases "m = 12") (auto simp: days_in_def)

lemma days_of_civil_of [simp]: "days_of (civil_of n) = n"
  by (simp add: civil_of_def Let_def)

lemma valid_civil_of: "valid_civil (civil_of n)"
proof -
  define y where "y = year_of n"
  define d where "d = n - days_before_year y"
  have "0 \<le> d" "d < (if is_leap y then 366 else 365)"
    using year_of_bounds [of n] year_step [of y] by (simp_all add: d_def y_def)
  from month_fits [OF this] show ?thesis
    by (simp add: civil_of_def Let_def y_def d_def)
qed

lemma year_mono: "y < y' \<Longrightarrow> days_before_year (y + 1) \<le> days_before_year y'"
proof -
  have "days_before_year (y + 1) \<le> days_before_year k" if "y + 1 \<le> k" for k
    using that by (induction k rule: int_ge_induct) (simp_all add: year_step)
  then show "y < y' \<Longrightarrow> days_before_year (y + 1) \<le> days_before_year y'" by simp
qed

lemma days_of_mono:
  assumes "valid_civil a" "valid_civil b" "civil_less a b"
  shows "days_of a < days_of b"
proof -
  obtain y m d y' m' d' where ab: "a = (y, m, d)" "b = (y', m', d')" by (cases a, cases b)
  show ?thesis
  proof (cases "y < y'")
    case True
    from assms ab month_last [of m y] month_last [of m' y'] year_mono [OF True] year_step [of y]
    show ?thesis by simp
  next
    case False
    with assms ab month_step [of m m' y] show ?thesis by auto
  qed
qed

lemma civil_less_total: "civil_less a b \<or> a = b \<or> civil_less b a"
  by (cases a; cases b) auto

lemma civil_of_less_iff: "civil_less (civil_of n) (civil_of k) \<longleftrightarrow> n < k"
  using days_of_mono [OF valid_civil_of valid_civil_of, of n k]
    days_of_mono [OF valid_civil_of valid_civil_of, of k n] civil_less_total
  by (metis days_of_civil_of not_less_iff_gr_or_eq)

section \<open>Format\<close>

text \<open>\<open>time.Format\<close> prints a negative year with its sign before the padded digits.\<close>

definition format_year :: "int \<Rightarrow> string" where
  "format_year y = (if y < 0 then CHR ''-'' # pad_nat 4 (nat (- y)) else pad_nat 4 (nat y))"

fun format_civil :: "civil \<Rightarrow> string" where
  "format_civil (y, m, d) =
     format_year y @ ''-'' @ pad_nat 2 (nat m) @ ''-'' @ pad_nat 2 (nat d)"

definition unix_epoch_day :: int where "unix_epoch_day = 719162"

text \<open>The UTC day of an instant, as a day number since 0001-01-01.\<close>

definition day_of :: "gtime \<Rightarrow> int" where
  "day_of t = t div day_ns + unix_epoch_day"

text \<open>\<open>t.UTC().Format("2006-01-02")\<close>\<close>

definition format_date :: "gtime \<Rightarrow> string" where
  "format_date t = format_civil (civil_of (day_of t))"

text \<open>\<open>t.UTC().AddDate(0, 0, n)\<close>\<close>

definition add_days :: "gtime \<Rightarrow> int \<Rightarrow> gtime" where
  "add_days t n = t + n * day_ns"

definition format_clock :: "gtime \<Rightarrow> string" where
  "format_clock t =
     (let s = t mod day_ns div second
      in pad_nat 2 (nat (s div 3600)) @ '':'' @ pad_nat 2 (nat (s div 60 mod 60)) @ '':''
         @ pad_nat 2 (nat (s mod 60)))"

text \<open>Layouts \<open>2006-01-02T15:04:05.000000Z\<close> and \<open>2006-01-02T15:04:05.000Z\<close>; the fraction is
  truncated.\<close>

definition format_utc_micros :: "gtime \<Rightarrow> string" where
  "format_utc_micros t =
     format_date t @ ''T'' @ format_clock t @ ''.'' @ pad_nat 6 (nat (t mod second div 1000)) @ ''Z''"

definition format_utc_millis :: "gtime \<Rightarrow> string" where
  "format_utc_millis t =
     format_date t @ ''T'' @ format_clock t @ ''.'' @ pad_nat 3 (nat (t mod second div 1000000)) @ ''Z''"

subsection \<open>The order of dates is the order of their strings\<close>

lemma horner_less:
  "length s = length t \<Longrightarrow> \<forall>c\<in>set s. is_digit c \<Longrightarrow> n < m \<Longrightarrow> horner n s < horner m t"
proof (induction s t arbitrary: n m rule: list_induct2)
  case (Cons x xs y ys)
  then have "digit_val x \<le> 9" by (simp add: digit_val_le)
  with Cons.prems have "n * 10 + digit_val x < m * 10 + digit_val y" by simp
  with Cons show ?case by simp
qed simp

lemma digit_less_iff: "is_digit c \<Longrightarrow> is_digit d \<Longrightarrow> c < d \<longleftrightarrow> digit_val c < digit_val d"
  by (auto simp: is_digit_of_char digit_val_def less_char_def)

lemma horner_less_iff:
  "length s = length t \<Longrightarrow> \<forall>c\<in>set s \<union> set t. is_digit c \<Longrightarrow> horner n s < horner n t \<longleftrightarrow> s < t"
proof (induction s t arbitrary: n rule: list_induct2)
  case (Cons x xs y ys)
  have xy: "x < y \<longleftrightarrow> digit_val x < digit_val y" "y < x \<longleftrightarrow> digit_val y < digit_val x"
    using Cons.prems digit_less_iff by simp_all
  show ?case
  proof (cases x y rule: linorder_cases)
    case less
    with xy Cons horner_less [of xs ys "n * 10 + digit_val x" "n * 10 + digit_val y"]
    show ?thesis by simp
  next
    case equal
    with Cons show ?thesis by simp
  next
    case greater
    with xy Cons horner_less [of ys xs "n * 10 + digit_val y" "n * 10 + digit_val x"]
    show ?thesis by (auto simp: not_less_iff_gr_or_eq dest: less_asym)
  qed
qed simp

lemma length_nat_dec: "n < 10 ^ w \<Longrightarrow> 0 < w \<Longrightarrow> length (nat_dec n) \<le> w"
proof (induction w arbitrary: n)
  case (Suc w)
  show ?case
  proof (cases "n < 10")
    case False
    with Suc.prems have "n div 10 < 10 ^ w" "0 < w" by (auto intro: Nat.gr0I)
    with Suc.IH [of "n div 10"] False show ?thesis by (simp add: nat_dec.simps [of n])
  qed (simp add: nat_dec.simps [of n])
qed simp

lemma length_pad [simp]: "n < 10 ^ w \<Longrightarrow> 0 < w \<Longrightarrow> length (pad_nat w n) = w"
  using length_nat_dec [of n w] by (simp add: pad_nat_def Let_def)

lemma pad_digits: "c \<in> set (pad_nat w n) \<Longrightarrow> is_digit c"
  by (auto simp: pad_nat_def Let_def dest: nat_dec_digits split: if_splits) (simp add: is_digit_of_char)

lemma horner_zeros: "horner 0 (replicate k CHR ''0'' @ s) = horner 0 s"
  by (induction k) (simp_all add: digit_val_def)

lemma horner_pad [simp]: "horner 0 (pad_nat w n) = n"
  by (simp add: pad_nat_def Let_def horner_zeros horner_nat_dec)

lemma pad_less_iff:
  "n < 10 ^ w \<Longrightarrow> k < 10 ^ w \<Longrightarrow> 0 < w \<Longrightarrow> pad_nat w n < pad_nat w k \<longleftrightarrow> n < k"
  using horner_less_iff [of "pad_nat w n" "pad_nat w k" 0] pad_digits by auto

lemma pad_eq_iff: "pad_nat w n = pad_nat w k \<longleftrightarrow> n = k"
  by (metis horner_pad)

lemma append_less_iff:
  "length a = length b \<Longrightarrow> a @ x < b @ y \<longleftrightarrow> a < b \<or> a = b \<and> x < (y :: 'a :: linorder list)"
  by (induction a b rule: list_induct2) auto

text \<open>Instants whose year has four digits; all the orders of the program's date strings are the
  orders of days in this range.\<close>

definition four_digit :: "gtime \<Rightarrow> bool" where
  "four_digit t \<longleftrightarrow> days_before_year 0 \<le> day_of t \<and> day_of t < days_before_year 10000"

lemma four_digit_year:
  assumes "four_digit t"
  shows "0 \<le> fst (civil_of (day_of t))" "fst (civil_of (day_of t)) < 10000"
proof -
  define n where "n = day_of t"
  have b: "days_before_year (year_of n) \<le> n" "n < days_before_year (year_of n + 1)"
    using year_of_bounds [of n] by auto
  have "\<not> year_of n < 0" using b assms year_mono [of "year_of n" 0]
    by (auto simp: four_digit_def n_def)
  moreover have "\<not> 10000 \<le> year_of n" using b assms year_mono [of 9999 "year_of n"]
    by (auto simp: four_digit_def n_def)
  ultimately show "0 \<le> fst (civil_of (day_of t))" "fst (civil_of (day_of t)) < 10000"
    by (simp_all add: civil_of_def Let_def n_def)
qed

lemma days_in_bounds: "days_in m y \<le> 31"
  by (simp add: days_in_def)

lemma format_civil_less_iff:
  assumes "valid_civil a" "valid_civil b" "0 \<le> fst a" "fst a < 10000" "0 \<le> fst b" "fst b < 10000"
  shows "format_civil a < format_civil b \<longleftrightarrow> civil_less a b"
proof -
  obtain y m d y' m' d' where ab: "a = (y, m, d)" "b = (y', m', d')" by (cases a, cases b)
  with assms days_in_bounds [of m y] days_in_bounds [of m' y']
  have "0 \<le> y" "y < 10000" "0 \<le> y'" "y' < 10000" "1 \<le> m" "m \<le> 12" "1 \<le> m'" "m' \<le> 12"
    "1 \<le> d" "d \<le> 31" "1 \<le> d'" "d' \<le> 31" by auto
  then show ?thesis
    by (simp add: ab format_year_def append_less_iff pad_less_iff pad_eq_iff nat_less_iff
        eq_nat_nat_iff) auto
qed

lemma format_date_less_iff:
  "four_digit t \<Longrightarrow> four_digit u \<Longrightarrow> format_date t < format_date u \<longleftrightarrow> day_of t < day_of u"
  by (simp add: format_date_def format_civil_less_iff valid_civil_of four_digit_year civil_of_less_iff)

lemma day_of_add_days [simp]: "day_of (add_days t n) = day_of t + n"
  by (simp add: day_of_def add_days_def day_ns_def second_def)

end
