(* ===== verification/Go_Time_Parse.thy ===== *)
theory Go_Time_Parse
  imports Go_Time
begin

text \<open>
  \<open>time.Parse\<close>. A layout is the list of chunks \<open>nextStdChunk\<close> cuts it into: literal text and
  standard elements. Both a malformed element and a value out of range are an error (\<open>None\<close>).
\<close>

datatype chunk =
    Lit string           \<comment> \<open>literal text\<close>
  | StdLongYear          \<comment> \<open>2006\<close>
  | StdZeroMonth         \<comment> \<open>01\<close>
  | StdMonth             \<comment> \<open>Jan\<close>
  | StdZeroDay           \<comment> \<open>02\<close>
  | StdUnderDay          \<comment> \<open>_2\<close>
  | StdHour              \<comment> \<open>15\<close>
  | StdZeroMinute        \<comment> \<open>04\<close>
  | StdZeroSecond bool   \<comment> \<open>05; whether a fraction element follows in the layout\<close>
  | StdFracSecond9       \<comment> \<open>.999999999\<close>
  | StdISO8601ColonTZ    \<comment> \<open>Z07:00\<close>
  | StdYear              \<comment> \<open>06\<close>
  | StdWeekDay           \<comment> \<open>Mon\<close>
  | StdLongWeekDay       \<comment> \<open>Monday\<close>
  | StdTZ                \<comment> \<open>MST\<close>

record ptime =
  p_year :: int
  p_month :: int
  p_day :: int
  p_hour :: int
  p_min :: int
  p_sec :: int
  p_nsec :: int
  p_zone :: int \<comment> \<open>offset east of UTC in seconds\<close>

definition ptime_init :: ptime where
  "ptime_init = \<lparr>p_year = 0, p_month = -1, p_day = -1, p_hour = 0, p_min = 0, p_sec = 0,
     p_nsec = 0, p_zone = 0\<rparr>"

definition digit_at :: "string \<Rightarrow> nat \<Rightarrow> bool" where
  "digit_at s i \<longleftrightarrow> i < length s \<and> is_digit (s ! i)"

text \<open>\<open>getnum\<close>: two digits, or one where the element is not fixed-width.\<close>

definition getnum :: "string \<Rightarrow> bool \<Rightarrow> (int \<times> string) option" where
  "getnum s fixed =
     (if \<not> digit_at s 0 then None
      else if \<not> digit_at s 1
      then (if fixed then None else Some (int (digit_val (s ! 0)), drop 1 s))
      else Some (int (digit_val (s ! 0) * 10 + digit_val (s ! 1)), drop 2 s))"

text \<open>\<open>skip\<close>: literal text; a run of spaces matches any run of spaces, also none at the end of
  the value.\<close>

function skip :: "string \<Rightarrow> string \<Rightarrow> string option" where
  "skip v p =
     (if p = [] then Some v
      else if hd p = CHR '' ''
      then (if v \<noteq> [] \<and> hd v \<noteq> CHR '' '' then None
            else skip (dropWhile (\<lambda>c. c = CHR '' '') v) (dropWhile (\<lambda>c. c = CHR '' '') p))
      else if v = [] \<or> hd v \<noteq> hd p then None
      else skip (tl v) (tl p))"
  by pat_completeness auto
termination
proof (relation "measure (\<lambda>(v, p). length p)", simp)
  fix v p :: string
  assume "p \<noteq> []" "hd p = CHR '' ''"
  then show "((dropWhile (\<lambda>c. c = CHR '' '') v, dropWhile (\<lambda>c. c = CHR '' '') p), v, p)
    \<in> measure (\<lambda>(v, p). length p)"
    by (cases p) (auto intro: le_less_trans [OF length_dropWhile_le])
qed auto

declare skip.simps [simp del]

definition to_lower :: "char \<Rightarrow> char" where
  "to_lower c = (if CHR ''A'' \<le> c \<and> c \<le> CHR ''Z'' then char_of (of_char c + 32 :: nat) else c)"

definition short_months :: "string list" where
  "short_months = [''Jan'', ''Feb'', ''Mar'', ''Apr'', ''May'', ''Jun'', ''Jul'', ''Aug'', ''Sep'',
     ''Oct'', ''Nov'', ''Dec'']"

text \<open>\<open>lookup\<close> in the short month names, ignoring the case of ASCII letters.\<close>

definition lookup_month :: "string \<Rightarrow> (int \<times> string) option" where
  "lookup_month v =
     (case find (\<lambda>i. map to_lower (take 3 v) = map to_lower (short_months ! i)) [0..<12] of
        None \<Rightarrow> None | Some i \<Rightarrow> Some (int i + 1, drop 3 v))"

definition in_range :: "int \<Rightarrow> int \<Rightarrow> int \<Rightarrow> bool" where
  "in_range lo hi n \<longleftrightarrow> lo \<le> n \<and> n \<le> hi"

text \<open>\<open>parseNanoseconds\<close>: the digits of a fraction (after the separator), at most nine of them
  counted.\<close>

definition nanos :: "string \<Rightarrow> int" where
  "nanos ds = int (horner 0 (take 9 ds)) * 10 ^ (9 - length (take 9 ds))"

definition is_frac :: "string \<Rightarrow> bool" where
  "is_frac v \<longleftrightarrow> 2 \<le> length v \<and> (v ! 0 = CHR ''.'' \<or> v ! 0 = CHR '','') \<and> digit_at v 1"

definition take_frac :: "string \<Rightarrow> int \<times> string" where
  "take_frac v = (nanos (takeWhile is_digit (tl v)), dropWhile is_digit (tl v))"

definition num_field ::
  "int \<Rightarrow> int \<Rightarrow> (int \<Rightarrow> ptime) \<Rightarrow> (int \<times> string) option \<Rightarrow> (ptime \<times> string) option" where
  "num_field lo hi upd r =
     (case r of None \<Rightarrow> None
      | Some (n, v') \<Rightarrow> if in_range lo hi n then Some (upd n, v') else None)"

definition parse_zone :: "string \<Rightarrow> (int \<times> string) option" where
  "parse_zone v =
     (if v \<noteq> [] \<and> hd v = CHR ''Z'' then Some (0, tl v)
      else if length v < 6 \<or> v ! 3 \<noteq> CHR '':'' then None
      else case (getnum (take 2 (drop 1 v)) True, getnum (take 2 (drop 4 v)) True) of
        (Some (hr, _), Some (mm, _)) \<Rightarrow>
          if 24 < hr \<or> 60 < mm then None
          else if v ! 0 = CHR ''+'' then Some ((hr * 60 + mm) * 60, drop 6 v)
          else if v ! 0 = CHR ''-'' then Some (- ((hr * 60 + mm) * 60), drop 6 v)
          else None
      | _ \<Rightarrow> None)"

text \<open>A two-digit year, which may carry a sign; names of days; names of time zones.\<close>

definition parse_year2 :: "string \<Rightarrow> (int \<times> string) option" where
  "parse_year2 v =
     (if length v < 2 then None
      else
        let sign = (v ! 0 = CHR ''-'' \<or> v ! 0 = CHR ''+''); ds = (if sign then [v ! 1] else take 2 v)
        in if \<not> list_all is_digit ds then None
           else let y = int (horner 0 ds); y = (if v ! 0 = CHR ''-'' then - y else y)
                in Some (if 69 \<le> y then y + 1900 else y + 2000, drop 2 v))"

definition long_days :: "string list" where
  "long_days = [''Sunday'', ''Monday'', ''Tuesday'', ''Wednesday'', ''Thursday'', ''Friday'', ''Saturday'']"

definition lookup_name :: "string list \<Rightarrow> string \<Rightarrow> string option" where
  "lookup_name tab v =
     map_option (\<lambda>n. drop (length n) v)
       (find (\<lambda>n. map to_lower (take (length n) v) = map to_lower n) tab)"

text \<open>\<open>parseSignedOffset\<close>: the length of a sign and the digits of a number up to 23, or 0.\<close>

definition signed_offset :: "string \<Rightarrow> nat" where
  "signed_offset v =
     (if v = [] \<or> (hd v \<noteq> CHR ''-'' \<and> hd v \<noteq> CHR ''+'') then 0
      else let ds = takeWhile is_digit (tl v)
           in if ds = [] \<or> 23 < horner 0 ds then 0 else length ds + 1)"

definition upper_letter :: "char \<Rightarrow> bool" where
  "upper_letter c \<longleftrightarrow> CHR ''A'' \<le> c \<and> c \<le> CHR ''Z''"

text \<open>\<open>parseTimeZone\<close>: the length of the zone's name. A name does not move the instant, as
  \<open>time.Parse\<close> looks names up in UTC, which has none.\<close>

definition zone_name_length :: "string \<Rightarrow> nat option" where
  "zone_name_length v =
     (if length v < 3 then None
      else if has_prefix v ''ChST'' \<or> has_prefix v ''MeST'' then Some 4
      else if has_prefix v ''GMT'' then Some (3 + signed_offset (drop 3 v))
      else if hd v = CHR ''+'' \<or> hd v = CHR ''-''
      then (if 0 < signed_offset v then Some (signed_offset v) else None)
      else
        let n = length (takeWhile upper_letter (take 6 v))
        in if n = 5 \<and> v ! 4 = CHR ''T'' then Some 5
           else if n = 4 \<and> (v ! 3 = CHR ''T'' \<or> has_prefix v ''WITA'') then Some 4
           else if n = 3 then Some 3 else None)"

definition parse_zone_name :: "string \<Rightarrow> string option" where
  "parse_zone_name v =
     (if has_prefix v ''UTC'' then Some (drop 3 v)
      else map_option (\<lambda>n. drop n v) (zone_name_length v))"

fun parse_chunk :: "chunk \<Rightarrow> ptime \<Rightarrow> string \<Rightarrow> (ptime \<times> string) option" where
  "parse_chunk (Lit p) pt v = map_option (\<lambda>v'. (pt, v')) (skip v p)"
| "parse_chunk StdLongYear pt v =
     (if length v < 4 \<or> \<not> list_all is_digit (take 4 v) then None
      else Some (pt\<lparr>p_year := int (horner 0 (take 4 v))\<rparr>, drop 4 v))"
| "parse_chunk StdZeroMonth pt v = num_field 1 12 (\<lambda>n. pt\<lparr>p_month := n\<rparr>) (getnum v True)"
| "parse_chunk StdMonth pt v = num_field 1 12 (\<lambda>n. pt\<lparr>p_month := n\<rparr>) (lookup_month v)"
| "parse_chunk StdZeroDay pt v = num_field 0 99 (\<lambda>n. pt\<lparr>p_day := n\<rparr>) (getnum v True)"
| "parse_chunk StdUnderDay pt v =
     num_field 0 99 (\<lambda>n. pt\<lparr>p_day := n\<rparr>)
       (getnum (if v \<noteq> [] \<and> hd v = CHR '' '' then tl v else v) False)"
| "parse_chunk StdHour pt v = num_field 0 23 (\<lambda>n. pt\<lparr>p_hour := n\<rparr>) (getnum v False)"
| "parse_chunk StdZeroMinute pt v = num_field 0 59 (\<lambda>n. pt\<lparr>p_min := n\<rparr>) (getnum v True)"
| "parse_chunk (StdZeroSecond frac_follows) pt v =
     (case num_field 0 59 (\<lambda>n. pt\<lparr>p_sec := n\<rparr>) (getnum v True) of
        None \<Rightarrow> None
      | Some (pt', v') \<Rightarrow>
          if \<not> frac_follows \<and> is_frac v'
          then Some (pt'\<lparr>p_nsec := fst (take_frac v')\<rparr>, snd (take_frac v'))
          else Some (pt', v'))"
| "parse_chunk StdFracSecond9 pt v =
     (if is_frac v then Some (pt\<lparr>p_nsec := fst (take_frac v)\<rparr>, snd (take_frac v))
      else Some (pt, v))"
| "parse_chunk StdISO8601ColonTZ pt v =
     map_option (\<lambda>(z, v'). (pt\<lparr>p_zone := z\<rparr>, v')) (parse_zone v)"
| "parse_chunk StdYear pt v = map_option (\<lambda>(y, v'). (pt\<lparr>p_year := y\<rparr>, v')) (parse_year2 v)"
| "parse_chunk StdWeekDay pt v = map_option (\<lambda>v'. (pt, v')) (lookup_name (map (take 3) long_days) v)"
| "parse_chunk StdLongWeekDay pt v = map_option (\<lambda>v'. (pt, v')) (lookup_name long_days v)"
| "parse_chunk StdTZ pt v = map_option (\<lambda>v'. (pt, v')) (parse_zone_name v)"

text \<open>All of the value must be consumed.\<close>

fun parse_chunks :: "chunk list \<Rightarrow> ptime \<Rightarrow> string \<Rightarrow> ptime option" where
  "parse_chunks [] pt v = (if v = [] then Some pt else None)"
| "parse_chunks (c # cs) pt v =
     (case parse_chunk c pt v of None \<Rightarrow> None | Some (pt', v') \<Rightarrow> parse_chunks cs pt' v')"

definition ptime_instant :: "ptime \<Rightarrow> gtime" where
  "ptime_instant pt =
     (days_of (p_year pt, p_month pt, p_day pt) - unix_epoch_day) * day_ns
     + (p_hour pt * 3600 + p_min pt * 60 + p_sec pt - p_zone pt) * second + p_nsec pt"

definition time_parse :: "chunk list \<Rightarrow> string \<Rightarrow> gtime option" where
  "time_parse layout v =
     (case parse_chunks layout ptime_init v of
        None \<Rightarrow> None
      | Some pt \<Rightarrow>
          if 1 \<le> p_day pt \<and> p_day pt \<le> days_in (p_month pt) (p_year pt)
          then Some (ptime_instant pt) else None)"

definition date_layout :: "chunk list" where
  "date_layout = [StdLongYear, Lit ''-'', StdZeroMonth, Lit ''-'', StdZeroDay]"

definition stamp_layout :: "chunk list" where
  "stamp_layout = [StdMonth, Lit '' '', StdUnderDay, Lit '' '', StdHour, Lit '':'', StdZeroMinute,
     Lit '':'', StdZeroSecond False]"

definition rfc3339_layout :: "chunk list" where
  "rfc3339_layout = [StdLongYear, Lit ''-'', StdZeroMonth, Lit ''-'', StdZeroDay, Lit ''T'', StdHour,
     Lit '':'', StdZeroMinute, Lit '':'', StdZeroSecond True, StdFracSecond9, StdISO8601ColonTZ]"

text \<open>The layouts of \<open>http.ParseTime\<close>, tried in this order.\<close>

definition http_layouts :: "chunk list list" where
  "http_layouts =
     [[StdWeekDay, Lit '', '', StdZeroDay, Lit '' '', StdMonth, Lit '' '', StdLongYear, Lit '' '',
       StdHour, Lit '':'', StdZeroMinute, Lit '':'', StdZeroSecond False, Lit '' GMT''],
      [StdLongWeekDay, Lit '', '', StdZeroDay, Lit ''-'', StdMonth, Lit ''-'', StdYear, Lit '' '',
       StdHour, Lit '':'', StdZeroMinute, Lit '':'', StdZeroSecond False, Lit '' '', StdTZ],
      [StdWeekDay, Lit '' '', StdMonth, Lit '' '', StdUnderDay, Lit '' '', StdHour, Lit '':'',
       StdZeroMinute, Lit '':'', StdZeroSecond False, Lit '' '', StdLongYear]]"

definition http_parse_time :: "string \<Rightarrow> gtime option" where
  "http_parse_time v =
     (case List.map_filter (\<lambda>l. time_parse l v) http_layouts of [] \<Rightarrow> None | t # _ \<Rightarrow> Some t)"

definition valid_date :: "string \<Rightarrow> bool" where
  "valid_date s \<longleftrightarrow> time_parse date_layout s \<noteq> None"

definition valid_stamp :: "string \<Rightarrow> bool" where
  "valid_stamp s \<longleftrightarrow> time_parse stamp_layout s \<noteq> None"

definition valid_rfc3339 :: "string \<Rightarrow> bool" where
  "valid_rfc3339 s \<longleftrightarrow> time_parse rfc3339_layout s \<noteq> None"

section \<open>Dates read back\<close>

lemma skip_simps [simp]:
  "skip v [] = Some v"
  "c \<noteq> CHR '' '' \<Longrightarrow> skip [] [c] = None"
  "c \<noteq> CHR '' '' \<Longrightarrow> skip (a # v) [c] = (if a = c then Some v else None)"
  by (simp_all add: skip.simps [of _ "[]"] skip.simps [of _ "[c]"])

lemma skip_singleD: "c \<noteq> CHR '' '' \<Longrightarrow> skip v [c] = Some v' \<Longrightarrow> v = c # v'"
  by (cases v) (auto split: if_splits)

lemma two_chars: "length s = 2 \<Longrightarrow> \<exists>a b. s = [a, b]"
  by (auto simp: length_Suc_conv numeral_2_eq_2)

lemma getnum_pad:
  assumes "n < 100"
  shows "getnum (pad_nat 2 n @ v) True = Some (int n, v)"
proof -
  from assms have "length (pad_nat 2 n) = 2" by simp
  then obtain a b where ab: "pad_nat 2 n = [a, b]" using two_chars by blast
  then have "is_digit a" "is_digit b" using pad_digits [of _ 2 n] by auto
  moreover have "digit_val a * 10 + digit_val b = n"
    using horner_pad [of 2 n] by (simp add: ab)
  ultimately show ?thesis by (simp add: ab getnum_def digit_at_def)
qed

lemma year_pad:
  "n < 10000 \<Longrightarrow> parse_chunk StdLongYear pt (pad_nat 4 n @ v) = Some (pt\<lparr>p_year := int n\<rparr>, v)"
  using pad_digits [of _ 4 n] by (auto simp: list_all_iff)

lemma parse_format_civil:
  assumes "valid_civil (y, m, d)" "0 \<le> y" "y < 10000"
  shows "time_parse date_layout (format_civil (y, m, d)) = Some ((days_of (y, m, d) - unix_epoch_day) * day_ns)"
proof -
  from assms days_in_bounds [of m y]
  have b: "nat y < 10000" "nat m < 100" "nat d < 100" "1 \<le> m" "m \<le> 12" "1 \<le> d" "d \<le> days_in m y" "d \<le> 99"
    by auto
  have f: "format_civil (y, m, d) = pad_nat 4 (nat y) @ CHR ''-'' # pad_nat 2 (nat m) @ CHR ''-'' # pad_nat 2 (nat d) @ []"
    using assms(2) by (simp add: format_year_def)
  show ?thesis
    unfolding f time_parse_def date_layout_def parse_chunks.simps year_pad [OF b(1)]
    using b assms(2)
    by (simp add: num_field_def in_range_def ptime_instant_def ptime_init_def getnum_pad
        getnum_pad [where v = "[]", simplified])
qed

lemma valid_format_date: "four_digit t \<Longrightarrow> valid_date (format_date t)"
  using four_digit_year [of t] valid_civil_of [of "day_of t"]
  unfolding valid_date_def format_date_def
  by (cases "civil_of (day_of t)") (simp add: parse_format_civil del: format_civil.simps)

text \<open>A valid date has exactly ten bytes, none of them a letter.\<close>

lemma getnum_fixedD: "getnum v True = Some (n, v') \<Longrightarrow> \<exists>a b. v = a # b # v' \<and> is_digit a \<and> is_digit b"
  by (cases v; cases "tl v") (auto simp: getnum_def digit_at_def split: if_splits)

lemma num_fieldD: "num_field lo hi u r = Some (pt, v) \<Longrightarrow> \<exists>n. r = Some (n, v) \<and> pt = u n \<and> in_range lo hi n"
  by (auto simp: num_field_def split: option.splits if_splits prod.splits)

lemma valid_dateD:
  assumes "valid_date s"
  shows "length s = 10 \<and> (\<forall>c\<in>set s. is_digit c \<or> c = CHR ''-'')"
proof -
  from assms obtain v1 pt1 v2 pt2 v3 pt3 where
    y: "4 \<le> length s" "list_all is_digit (take 4 s)" and
    v1: "skip (drop 4 s) ''-'' = Some v1" and m: "getnum v1 True = Some (pt1, v2)" and
    v3: "skip v2 ''-'' = Some v3" and d: "getnum v3 True = Some (pt3, [])"
    by (auto simp: valid_date_def time_parse_def date_layout_def map_option_case not_less
        split: option.splits if_splits prod.splits dest!: num_fieldD)
  from v1 have s: "drop 4 s = CHR ''-'' # v1" by (auto dest: skip_singleD [rotated])
  from m obtain a b where ab: "v1 = a # b # v2" "is_digit a" "is_digit b" by (auto dest: getnum_fixedD)
  from v3 have v2: "v2 = CHR ''-'' # v3" by (auto dest: skip_singleD [rotated])
  from d obtain e f where ef: "v3 = [e, f]" "is_digit e" "is_digit f" by (auto dest: getnum_fixedD)
  obtain u where u: "s = u @ [CHR ''-'', a, b, CHR ''-'', e, f]" "length u = 4" "list_all is_digit u"
  proof (rule that [of "take 4 s"])
    show "s = take 4 s @ [CHR ''-'', a, b, CHR ''-'', e, f]"
      using s ab v2 ef append_take_drop_id [of 4 s] by (simp only:)
  qed (use y in simp_all)
  then show ?thesis using ab ef by (auto simp: list_all_iff)
qed

section \<open>Timestamps read back\<close>

lemma getnum_pad_loose:
  assumes "n < 100"
  shows "getnum (pad_nat 2 n @ v) False = Some (int n, v)"
proof -
  from assms have "length (pad_nat 2 n) = 2" by simp
  then obtain a b where ab: "pad_nat 2 n = [a, b]" using two_chars by blast
  then have "is_digit a" "is_digit b" using pad_digits [of _ 2 n] by auto
  with getnum_pad [OF assms, of v] show ?thesis by (simp add: ab getnum_def digit_at_def)
qed

lemma take_frac_pad:
  assumes "n < 10 ^ w" "0 < w" "w \<le> 9"
  shows "is_frac (CHR ''.'' # pad_nat w n @ ''Z'')"
    "take_frac (CHR ''.'' # pad_nat w n @ ''Z'') = (int n * 10 ^ (9 - w), ''Z'')"
proof -
  have l: "length (pad_nat w n) = w" using assms by simp
  have d: "\<forall>c\<in>set (pad_nat w n). is_digit c" using pad_digits by blast
  have z: "\<not> is_digit CHR ''Z''" by (simp add: is_digit_of_char)
  have "takeWhile is_digit (pad_nat w n @ ''Z'') = pad_nat w n" "dropWhile is_digit (pad_nat w n @ ''Z'') = ''Z''"
    using d z by (simp_all add: takeWhile_append dropWhile_append)
  with l assms(3) show "take_frac (CHR ''.'' # pad_nat w n @ ''Z'') = (int n * 10 ^ (9 - w), ''Z'')"
    by (simp add: take_frac_def nanos_def)
  show "is_frac (CHR ''.'' # pad_nat w n @ ''Z'')"
    using l d assms(2) by (cases "pad_nat w n") (auto simp: is_frac_def digit_at_def)
qed

lemma parse_rfc3339_parts:
  assumes "y < 10000" "1 \<le> m" "m \<le> 12" "d < 100" "h \<le> 23" "mi \<le> 59" "se \<le> 59" "n < 10 ^ w" "0 < w" "w \<le> 9"
  shows "parse_chunks rfc3339_layout ptime_init
      (pad_nat 4 y @ CHR ''-'' # pad_nat 2 m @ CHR ''-'' # pad_nat 2 d @ CHR ''T'' # pad_nat 2 h @ CHR '':''
       # pad_nat 2 mi @ CHR '':'' # pad_nat 2 se @ CHR ''.'' # pad_nat w n @ ''Z'')
    = Some \<lparr>p_year = int y, p_month = int m, p_day = int d, p_hour = int h, p_min = int mi, p_sec = int se,
        p_nsec = int n * 10 ^ (9 - w), p_zone = 0\<rparr>"
proof -
  have b: "m < 100" "h < 100" "mi < 100" "se < 100" using assms by auto
  show ?thesis
    unfolding rfc3339_layout_def parse_chunks.simps year_pad [OF assms(1)]
    using assms(2-7) b take_frac_pad [OF assms(8-10)]
    by (simp add: num_field_def in_range_def ptime_init_def getnum_pad getnum_pad_loose parse_zone_def)
qed

lemma parse_format_instant:
  assumes t: "four_digit t" and n: "n < 10 ^ w" "0 < w" "w \<le> 9"
  shows "time_parse rfc3339_layout (format_date t @ ''T'' @ format_clock t @ ''.'' @ pad_nat w n @ ''Z'')
    = Some (t - t mod second + int n * 10 ^ (9 - w))"
proof -
  obtain y m d where c: "civil_of (day_of t) = (y, m, d)" by (cases "civil_of (day_of t)")
  with valid_civil_of [of "day_of t"] have v: "valid_civil (y, m, d)" by simp
  from c four_digit_year [OF t] have y: "0 \<le> y" "y < 10000" by simp_all
  from v y days_in_bounds [of m y]
  have b: "nat y < 10000" "nat m < 100" "nat d < 100" "1 \<le> m" "m \<le> 12" "1 \<le> d" "d \<le> days_in m y" "d \<le> 99"
    by auto
  define s where "s = t mod day_ns div second"
  have s: "0 \<le> s" "s < 86400"
    using pos_mod_bound [of day_ns t] pos_mod_sign [of day_ns t] by (simp_all add: s_def day_ns_def second_def)
  then have h: "nat (s div 3600) < 100" "nat (s div 60 mod 60) < 100" "nat (s mod 60) < 100"
    "0 \<le> s div 3600" "s div 3600 \<le> 23" "s div 60 mod 60 \<le> 59" "s mod 60 \<le> 59" "0 \<le> s div 60 mod 60" "0 \<le> s mod 60"
    by auto
  have days: "days_of (y, m, d) = t div day_ns + unix_epoch_day"
    using days_of_civil_of [of "day_of t"] unfolding c by (simp only: day_of_def)
  have "t mod day_ns = s * second + t mod second"
  proof -
    have "t mod day_ns mod second = t mod second" by (rule mod_mod_cancel) (simp add: day_ns_def second_def)
    then show ?thesis using div_mult_mod_eq [of "t mod day_ns" second] by (simp add: s_def)
  qed
  moreover have "s div 3600 * 3600 + s div 60 mod 60 * 60 + s mod 60 = s"
  proof -
    have "s div 3600 = s div 60 div 60" using zdiv_zmult2_eq [of 60 s 60] by simp
    then show ?thesis using div_mult_mod_eq [of s 60] div_mult_mod_eq [of "s div 60" 60] by linarith
  qed
  ultimately have inst: "t div day_ns * day_ns + (s div 3600 * 3600 + s div 60 mod 60 * 60 + s mod 60) * second
      = t - t mod second"
    using div_mult_mod_eq [of t day_ns] by simp
  have f: "format_date t @ ''T'' @ format_clock t @ ''.'' @ pad_nat w n @ ''Z''
    = pad_nat 4 (nat y) @ CHR ''-'' # pad_nat 2 (nat m) @ CHR ''-'' # pad_nat 2 (nat d) @ CHR ''T''
      # pad_nat 2 (nat (s div 3600)) @ CHR '':'' # pad_nat 2 (nat (s div 60 mod 60)) @ CHR '':''
      # pad_nat 2 (nat (s mod 60)) @ CHR ''.'' # pad_nat w n @ ''Z''"
    using y(1) by (simp add: format_date_def format_clock_def c format_year_def s_def [symmetric])
  have i: "int (nat y) = y" "int (nat m) = m" "int (nat d) = d" "int (nat (s div 3600)) = s div 3600"
    "int (nat (s div 60 mod 60)) = s div 60 mod 60" "int (nat (s mod 60)) = s mod 60"
    using b(4,6) h(4,8,9) y(1) by (simp_all only: int_nat_eq if_P)
  have l: "1 \<le> nat m" "nat m \<le> 12" "nat d < 100" "nat (s div 3600) \<le> 23" "nat (s div 60 mod 60) \<le> 59"
    "nat (s mod 60) \<le> 59"
    using b(4-6) b(3) unfolding nat_le_iff of_nat_numeral by (simp_all only: h(5-7))
  let ?pt = "\<lparr>p_year = y, p_month = m, p_day = d, p_hour = s div 3600, p_min = s div 60 mod 60,
    p_sec = s mod 60, p_nsec = int n * 10 ^ (9 - w), p_zone = 0\<rparr>"
  have "parse_chunks rfc3339_layout ptime_init
      (format_date t @ ''T'' @ format_clock t @ ''.'' @ pad_nat w n @ ''Z'') = Some ?pt"
    unfolding f by (rule parse_rfc3339_parts [OF b(1) l n, unfolded i])
  moreover have "ptime_instant ?pt = t - t mod second + int n * 10 ^ (9 - w)"
    using inst unfolding ptime_instant_def ptime.simps days add_diff_cancel_right' diff_zero by (simp only:)
  ultimately show ?thesis using b(6,7) by (simp only: time_parse_def option.case ptime.simps simp_thms if_True)
qed

text \<open>The two formats of the program are read back up to their precision.\<close>

lemma mod_truncate:
  fixes t :: int
  assumes "k dvd q" "0 < k"
  shows "t - t mod q + (t mod q div k) * k = t - t mod k"
  using div_mult_mod_eq [of "t mod q" k] mod_mod_cancel [OF assms(1), of t] by (simp add: algebra_simps)

lemma second_fraction_bound:
  assumes "0 < k" "second \<le> k * 10 ^ w"
  shows "nat (t mod second div k) < 10 ^ w"
proof -
  have "0 \<le> t mod second" "t mod second < second"
    using pos_mod_sign [of second t] pos_mod_bound [of second t] by (simp_all add: second_def)
  with assms(2) have "t mod second < k * 10 ^ w" by linarith
  then have "k * (t mod second div k) < k * 10 ^ w"
    using minus_mod_eq_mult_div [of "t mod second" k] pos_mod_sign [of k "t mod second"] assms(1) by linarith
  then have "t mod second div k < 10 ^ w" using assms(1) by simp
  then show ?thesis using \<open>0 \<le> t mod second\<close> assms(1) by (simp add: nat_less_iff pos_imp_zdiv_nonneg_iff)
qed

lemma second_dvd: "1000 dvd second" "1000000 dvd second"
  by (simp_all add: second_def)

lemma time_parse_micros:
  assumes "four_digit t"
  shows "time_parse rfc3339_layout (format_utc_micros t) = Some (t - t mod 1000)"
proof -
  have "nat (t mod second div 1000) < 10 ^ 6" by (rule second_fraction_bound) (simp_all add: second_def)
  moreover have "0 \<le> t mod second div 1000" by (simp add: second_def pos_imp_zdiv_nonneg_iff)
  ultimately show ?thesis
    using parse_format_instant [OF assms, of "nat (t mod second div 1000)" 6] mod_truncate [of 1000 second t]
    unfolding format_utc_micros_def by (simp add: second_dvd)
qed

lemma time_parse_millis:
  assumes "four_digit t"
  shows "time_parse rfc3339_layout (format_utc_millis t) = Some (t - t mod 1000000)"
proof -
  have "nat (t mod second div 1000000) < 10 ^ 3" by (rule second_fraction_bound) (simp_all add: second_def)
  moreover have "0 \<le> t mod second div 1000000" by (simp add: second_def pos_imp_zdiv_nonneg_iff)
  ultimately show ?thesis
    using parse_format_instant [OF assms, of "nat (t mod second div 1000000)" 3] mod_truncate [of 1000000 second t]
    unfolding format_utc_millis_def by (simp add: second_dvd)
qed

lemma valid_format_utc:
  "four_digit t \<Longrightarrow> valid_rfc3339 (format_utc_micros t)" "four_digit t \<Longrightarrow> valid_rfc3339 (format_utc_millis t)"
  by (simp_all add: valid_rfc3339_def time_parse_micros time_parse_millis)

end
