(* ===== verification/Go_Utf8.thy ===== *)
theory Go_Utf8
  imports Go_Strings
begin

text \<open>
  UTF-8 as Go's \<open>unicode/utf8\<close> reads it: the size of the rune at the head of a byte string
  (\<open>None\<close> where decoding gives \<open>RuneError\<close> of width 1), \<open>utf8.Valid\<close> and
  \<open>strings.ToValidUTF8\<close>.
\<close>

definition byte_in :: "char \<Rightarrow> nat \<Rightarrow> nat \<Rightarrow> bool" where
  "byte_in c lo hi \<longleftrightarrow> lo \<le> of_char c \<and> of_char c \<le> hi"

abbreviation cont :: "char \<Rightarrow> bool" where "cont c \<equiv> byte_in c 0x80 0xBF"

fun rune_size :: "bytes \<Rightarrow> nat option" where
  "rune_size [] = None"
| "rune_size (a # s) =
     (if byte_in a 0 0x7F then Some 1
      else case s of
        [] \<Rightarrow> None
      | b # s2 \<Rightarrow>
          if byte_in a 0xC2 0xDF then (if cont b then Some 2 else None)
          else case s2 of
            [] \<Rightarrow> None
          | c # s3 \<Rightarrow>
              if byte_in a 0xE0 0xEF
              then (if byte_in b (if byte_in a 0xE0 0xE0 then 0xA0 else 0x80)
                           (if byte_in a 0xED 0xED then 0x9F else 0xBF) \<and> cont c
                    then Some 3 else None)
              else case s3 of
                [] \<Rightarrow> None
              | d # s4 \<Rightarrow>
                  if byte_in a 0xF0 0xF4
                     \<and> byte_in b (if byte_in a 0xF0 0xF0 then 0x90 else 0x80)
                          (if byte_in a 0xF4 0xF4 then 0x8F else 0xBF) \<and> cont c \<and> cont d
                  then Some 4 else None)"

lemma rune_size_bounds: "rune_size s = Some n \<Longrightarrow> 0 < n \<and> n \<le> length s"
  by (cases s) (auto split: if_splits list.splits)

function utf8_valid :: "bytes \<Rightarrow> bool" where
  "utf8_valid s =
     (if s = [] then True
      else case rune_size s of None \<Rightarrow> False | Some n \<Rightarrow> utf8_valid (drop n s))"
  by pat_completeness auto
termination
  by (relation "measure length") (auto dest: rune_size_bounds)

text \<open>\<open>ToValidUTF8\<close>: every maximal run of invalid bytes becomes one replacement; the flag says
  whether the byte before was invalid.\<close>

function to_valid_from :: "bool \<Rightarrow> bytes \<Rightarrow> bytes \<Rightarrow> bytes" where
  "to_valid_from bad s repl =
     (if s = [] then []
      else case rune_size s of
        None \<Rightarrow> (if bad then [] else repl) @ to_valid_from True (tl s) repl
      | Some n \<Rightarrow> take n s @ to_valid_from False (drop n s) repl)"
  by pat_completeness auto
termination
  by (relation "measure (\<lambda>(bad, s, repl). length s)") (auto dest: rune_size_bounds)

declare utf8_valid.simps [simp del] to_valid_from.simps [simp del] rune_size.simps [simp del]

definition to_valid_utf8 :: "bytes \<Rightarrow> bytes \<Rightarrow> bytes" where
  "to_valid_utf8 s repl = to_valid_from False s repl"

text \<open>U+FFFD in UTF-8.\<close>

definition replacement_char :: bytes where
  "replacement_char = [CHR 0xEF, CHR 0xBF, CHR 0xBD]"

lemma utf8_valid_Nil [simp]: "utf8_valid []"
  by (simp add: utf8_valid.simps)

text \<open>Decoding looks at the bytes of the rune only.\<close>

lemma rune_size_local:
  "rune_size s = Some n \<Longrightarrow> \<exists>r u. s = r @ u \<and> length r = n \<and> (\<forall>t. rune_size (r @ t) = Some n)"
proof (cases s)
  case (Cons a s1)
  assume n: "rune_size s = Some n"
  show ?thesis
  proof (cases "byte_in a 0 0x7F")
    case True
    with n Cons show ?thesis
      by - (rule exI [of _ "[a]"], rule exI [of _ "s1"], simp add: rune_size.simps)
  next
    case a: False
    with n Cons obtain b s2 where b: "s1 = b # s2" by (cases s1) (auto simp: rune_size.simps)
    show ?thesis
    proof (cases "byte_in a 0xC2 0xDF")
      case True
      with a n Cons b show ?thesis
        by - (rule exI [of _ "[a, b]"], rule exI [of _ "s2"], simp add: rune_size.simps split: if_splits)
    next
      case a2: False
      with a n Cons b obtain c s3 where c: "s2 = c # s3" by (cases s2) (auto simp: rune_size.simps)
      show ?thesis
      proof (cases "byte_in a 0xE0 0xEF")
        case True
        with a a2 n Cons b c show ?thesis
          by - (rule exI [of _ "[a, b, c]"], rule exI [of _ "s3"], simp add: rune_size.simps del: if_split split: if_split_asm)
      next
        case a3: False
        with a a2 n Cons b c obtain d s4 where d: "s3 = d # s4" by (cases s3) (auto simp: rune_size.simps)
        from a a2 a3 n Cons b c d show ?thesis
          by - (rule exI [of _ "[a, b, c, d]"], rule exI [of _ "s4"], simp add: rune_size.simps del: if_split split: if_split_asm)
      qed
    qed
  qed
qed (simp add: rune_size.simps)

lemma rune_size_append: "rune_size s = Some n \<Longrightarrow> rune_size (s @ t) = Some n"
  using rune_size_local by force

lemma rune_size_take: "rune_size s = Some n \<Longrightarrow> rune_size (take n s) = Some n"
  using rune_size_local by (metis append_Nil2 append_eq_conv_conj)

lemma utf8_valid_append: "utf8_valid s \<Longrightarrow> utf8_valid (s @ t) \<longleftrightarrow> utf8_valid t"
proof (induction s rule: utf8_valid.induct)
  case (1 s)
  show ?case
  proof (cases "s = []")
    case False
    with "1.prems" obtain n where n: "rune_size s = Some n" "utf8_valid (drop n s)"
      by (auto simp: utf8_valid.simps [of s] split: option.splits)
    with "1.IH" [OF False n(1)] have "utf8_valid (drop n s @ t) \<longleftrightarrow> utf8_valid t" by simp
    with n False rune_size_append [OF n(1), of t] rune_size_bounds [OF n(1)] show ?thesis
      by (simp add: utf8_valid.simps [of "s @ t"])
  qed simp
qed

lemma utf8_valid_rune: "rune_size s = Some n \<Longrightarrow> utf8_valid (take n s)"
  using rune_size_bounds [of s n] rune_size_take [of s n]
  by (auto simp: utf8_valid.simps [of "take n s"])

lemma utf8_valid_to_valid_from: "utf8_valid repl \<Longrightarrow> utf8_valid (to_valid_from bad s repl)"
proof (induction bad s repl rule: to_valid_from.induct)
  case (1 bad s repl)
  show ?case
  proof (cases "s = []")
    case False
    show ?thesis
    proof (cases "rune_size s")
      case None
      with "1.IH"(1) [OF False None "1.prems"] "1.prems" False show ?thesis
        by (simp add: to_valid_from.simps [of bad s] utf8_valid_append)
    next
      case (Some n)
      with "1.IH"(2) [OF False Some "1.prems"] False utf8_valid_rune [OF Some] show ?thesis
        by (simp add: to_valid_from.simps [of bad s] utf8_valid_append)
    qed
  qed (simp add: to_valid_from.simps)
qed

lemma utf8_valid_replacement [simp]: "utf8_valid replacement_char"
  by (simp add: replacement_char_def utf8_valid.simps [of "_ # _"] rune_size.simps byte_in_def)

lemma to_valid_utf8_valid: "utf8_valid (to_valid_utf8 s replacement_char)"
  by (simp add: to_valid_utf8_def utf8_valid_to_valid_from)

lemma to_valid_from_id: "utf8_valid s \<Longrightarrow> to_valid_from bad s repl = s"
proof (induction bad s repl rule: to_valid_from.induct)
  case (1 bad s repl)
  show ?case
  proof (cases "s = []")
    case False
    with "1.prems" obtain n where n: "rune_size s = Some n" "utf8_valid (drop n s)"
      by (auto simp: utf8_valid.simps [of s] split: option.splits)
    with "1.IH"(2) [OF False n] False show ?thesis
      by (simp add: to_valid_from.simps [of bad s])
  qed (simp add: to_valid_from.simps)
qed

end
