(* ===== verification/Go_Json.thy ===== *)
theory Go_Json
  imports Go_Utf8
begin

text \<open>
  \<open>encoding/json\<close>: the byte scanner behind \<open>json.Valid\<close>, the compaction of a raw value, and
  the printing of strings. The scanner is the state machine of Go's \<open>scanner.go\<close>: a step per
  byte, and a stack of the objects and arrays that are open, at most \<open>max_nesting_depth\<close> of them.
\<close>

section \<open>The scanner\<close>

datatype jstep =
    BeginValue | BeginValueOrEmpty | BeginStringOrEmpty | BeginString | EndValue | EndTop
  | InString | InStringEsc | InEscU | InEscU1 | InEscU12 | InEscU123
  | Neg | Num1 | Num0 | Dot | Dot0 | ExpE | ExpSign | Exp0
  | LitT | LitTr | LitTru | LitF | LitFa | LitFal | LitFals | LitN | LitNu | LitNul

datatype pstate = ObjectKey | ObjectValue | ArrayValue

text \<open>A scanner state is the step and the stack of parse states, innermost first.\<close>

type_synonym jscan = "jstep \<times> pstate list"

definition max_nesting_depth :: nat where "max_nesting_depth = 10000"

definition json_space :: "char \<Rightarrow> bool" where
  "json_space c \<longleftrightarrow> c = CHR '' '' \<or> c = CHR 0x09 \<or> c = CHR 0x0D \<or> c = CHR 0x0A"

definition is_hex :: "char \<Rightarrow> bool" where
  "is_hex c \<longleftrightarrow> is_digit c \<or> byte_in c 0x61 0x66 \<or> byte_in c 0x41 0x46"

text \<open>
  The result of a step is \<open>None\<close> for \<open>scanError\<close>, else whether the byte is part of the
  value (\<open>False\<close> for \<open>scanSkipSpace\<close> and \<open>scanEnd\<close>) and the next state.
\<close>

type_synonym jresult = "(bool \<times> jscan) option"

definition goto :: "jstep \<Rightarrow> pstate list \<Rightarrow> jresult" where
  "goto q ks = Some (True, q, ks)"

definition push_state :: "jstep \<Rightarrow> pstate \<Rightarrow> pstate list \<Rightarrow> jresult" where
  "push_state q k ks = (if length ks < max_nesting_depth then goto q (k # ks) else None)"

definition pop_state :: "pstate list \<Rightarrow> jresult" where
  "pop_state ks = (if tl ks = [] then goto EndTop [] else goto EndValue (tl ks))"

definition end_value :: "pstate list \<Rightarrow> char \<Rightarrow> jresult" where
  "end_value ks c =
     (case ks of
        [] \<Rightarrow> if json_space c then Some (False, EndTop, []) else None
      | k # ks' \<Rightarrow>
          if json_space c then Some (False, EndValue, ks)
          else case k of
            ObjectKey \<Rightarrow> if c = CHR '':'' then goto BeginValue (ObjectValue # ks') else None
          | ObjectValue \<Rightarrow>
              if c = CHR '','' then goto BeginString (ObjectKey # ks')
              else if c = CHR ''}'' then pop_state ks else None
          | ArrayValue \<Rightarrow>
              if c = CHR '','' then goto BeginValue ks
              else if c = CHR '']'' then pop_state ks else None)"

definition begin_value :: "jstep \<Rightarrow> pstate list \<Rightarrow> char \<Rightarrow> jresult" where
  "begin_value q ks c =
     (if json_space c then Some (False, q, ks)
      else if c = CHR ''{'' then push_state BeginStringOrEmpty ObjectKey ks
      else if c = CHR ''['' then push_state BeginValueOrEmpty ArrayValue ks
      else if c = CHR 0x22 then goto InString ks
      else if c = CHR ''-'' then goto Neg ks
      else if c = CHR ''0'' then goto Num0 ks
      else if c = CHR ''t'' then goto LitT ks
      else if c = CHR ''f'' then goto LitF ks
      else if c = CHR ''n'' then goto LitN ks
      else if is_digit c then goto Num1 ks
      else None)"

definition begin_string :: "jstep \<Rightarrow> pstate list \<Rightarrow> char \<Rightarrow> jresult" where
  "begin_string q ks c =
     (if json_space c then Some (False, q, ks)
      else if c = CHR 0x22 then goto InString ks else None)"

definition expect :: "char \<Rightarrow> char \<Rightarrow> jstep \<Rightarrow> pstate list \<Rightarrow> jresult" where
  "expect c d q ks = (if c = d then goto q ks else None)"

fun scan_step :: "jscan \<Rightarrow> char \<Rightarrow> jresult" where
  "scan_step (BeginValue, ks) c = begin_value BeginValue ks c"
| "scan_step (BeginValueOrEmpty, ks) c =
     (if c = CHR '']'' then end_value ks c else begin_value BeginValueOrEmpty ks c)"
| "scan_step (BeginStringOrEmpty, ks) c =
     (if c = CHR ''}'' then end_value (ObjectValue # tl ks) c
      else begin_string BeginStringOrEmpty ks c)"
| "scan_step (BeginString, ks) c = begin_string BeginString ks c"
| "scan_step (EndValue, ks) c = end_value ks c"
| "scan_step (EndTop, ks) c = (if json_space c then Some (False, EndTop, ks) else None)"
| "scan_step (InString, ks) c =
     (if c = CHR 0x22 then goto EndValue ks
      else if c = CHR 0x5C then goto InStringEsc ks
      else if byte_in c 0 0x1F then None else goto InString ks)"
| "scan_step (InStringEsc, ks) c =
     (if c \<in> set ''bfnrt/'' \<or> c = CHR 0x5C \<or> c = CHR 0x22 then goto InString ks
      else if c = CHR ''u'' then goto InEscU ks else None)"
| "scan_step (InEscU, ks) c = (if is_hex c then goto InEscU1 ks else None)"
| "scan_step (InEscU1, ks) c = (if is_hex c then goto InEscU12 ks else None)"
| "scan_step (InEscU12, ks) c = (if is_hex c then goto InEscU123 ks else None)"
| "scan_step (InEscU123, ks) c = (if is_hex c then goto InString ks else None)"
| "scan_step (Neg, ks) c =
     (if c = CHR ''0'' then goto Num0 ks else if is_digit c then goto Num1 ks else None)"
| "scan_step (Num1, ks) c =
     (if is_digit c then goto Num1 ks
      else if c = CHR ''.'' then goto Dot ks
      else if c = CHR ''e'' \<or> c = CHR ''E'' then goto ExpE ks
      else end_value ks c)"
| "scan_step (Num0, ks) c =
     (if c = CHR ''.'' then goto Dot ks
      else if c = CHR ''e'' \<or> c = CHR ''E'' then goto ExpE ks
      else end_value ks c)"
| "scan_step (Dot, ks) c = (if is_digit c then goto Dot0 ks else None)"
| "scan_step (Dot0, ks) c =
     (if is_digit c then goto Dot0 ks
      else if c = CHR ''e'' \<or> c = CHR ''E'' then goto ExpE ks
      else end_value ks c)"
| "scan_step (ExpE, ks) c =
     (if c = CHR ''+'' \<or> c = CHR ''-'' then goto ExpSign ks
      else if is_digit c then goto Exp0 ks else None)"
| "scan_step (ExpSign, ks) c = (if is_digit c then goto Exp0 ks else None)"
| "scan_step (Exp0, ks) c = (if is_digit c then goto Exp0 ks else end_value ks c)"
| "scan_step (LitT, ks) c = expect c CHR ''r'' LitTr ks"
| "scan_step (LitTr, ks) c = expect c CHR ''u'' LitTru ks"
| "scan_step (LitTru, ks) c = expect c CHR ''e'' EndValue ks"
| "scan_step (LitF, ks) c = expect c CHR ''a'' LitFa ks"
| "scan_step (LitFa, ks) c = expect c CHR ''l'' LitFal ks"
| "scan_step (LitFal, ks) c = expect c CHR ''s'' LitFals ks"
| "scan_step (LitFals, ks) c = expect c CHR ''e'' EndValue ks"
| "scan_step (LitN, ks) c = expect c CHR ''u'' LitNu ks"
| "scan_step (LitNu, ks) c = expect c CHR ''l'' LitNul ks"
| "scan_step (LitNul, ks) c = expect c CHR ''l'' EndValue ks"

text \<open>The scanner over a byte string: the bytes that belong to the value, and the last state.\<close>

fun scan_run :: "jscan \<Rightarrow> bytes \<Rightarrow> (bytes \<times> jscan) option" where
  "scan_run st [] = Some ([], st)"
| "scan_run st (c # cs) =
     (case scan_step st c of
        None \<Rightarrow> None
      | Some (keep, st') \<Rightarrow>
          map_option (\<lambda>(out, st''). (if keep then c # out else out, st'')) (scan_run st' cs))"

definition scan_init :: jscan where "scan_init = (BeginValue, [])"

text \<open>\<open>eof\<close>: a space is fed to finish a number or a literal at the top level.\<close>

definition scan_eof :: "jscan \<Rightarrow> bool" where
  "scan_eof st \<longleftrightarrow>
     fst st = EndTop
     \<or> (case scan_step st CHR '' '' of None \<Rightarrow> False | Some (k, q, ks) \<Rightarrow> q = EndTop \<and> ks = [])"

text \<open>\<open>json.Compact\<close>: an error where the input is no single JSON value.\<close>

definition json_compact :: "bytes \<Rightarrow> bytes option" where
  "json_compact s =
     (case scan_run scan_init s of
        None \<Rightarrow> None
      | Some (out, st) \<Rightarrow> if scan_eof st then Some out else None)"

definition json_valid :: "bytes \<Rightarrow> bool" where
  "json_valid s \<longleftrightarrow> json_compact s \<noteq> None"

section \<open>Printing\<close>

definition hex_digit :: "nat \<Rightarrow> char" where
  "hex_digit n = ''0123456789abcdef'' ! n"

text \<open>\<open>appendString\<close> without HTML escaping: one rune at a time; an invalid byte is printed as
  the escape of U+FFFD, U+2028 and U+2029 are always escaped.\<close>

definition quote_byte :: "char \<Rightarrow> bytes" where
  "quote_byte b =
     (if b = CHR 0x5C \<or> b = CHR 0x22 then [CHR 0x5C, b]
      else if b = CHR 0x08 then [CHR 0x5C, CHR ''b'']
      else if b = CHR 0x0C then [CHR 0x5C, CHR ''f'']
      else if b = CHR 0x0A then [CHR 0x5C, CHR ''n'']
      else if b = CHR 0x0D then [CHR 0x5C, CHR ''r'']
      else if b = CHR 0x09 then [CHR 0x5C, CHR ''t'']
      else if byte_in b 0 0x1F
      then CHR 0x5C # ''u00'' @ [hex_digit (of_char b div 16), hex_digit (of_char b mod 16)]
      else [b])"

definition quote_rune :: "bytes \<Rightarrow> bytes" where
  "quote_rune r =
     (if r = [CHR 0xE2, CHR 0x80, CHR 0xA8] then CHR 0x5C # ''u2028''
      else if r = [CHR 0xE2, CHR 0x80, CHR 0xA9] then CHR 0x5C # ''u2029''
      else r)"

function quote_body :: "bytes \<Rightarrow> bytes" where
  "quote_body s =
     (if s = [] then []
      else case rune_size s of
        None \<Rightarrow> CHR 0x5C # ''ufffd'' @ quote_body (tl s)
      | Some n \<Rightarrow>
          (if n = 1 then quote_byte (hd s) else quote_rune (take n s)) @ quote_body (drop n s))"
  by pat_completeness auto
termination
  by (relation "measure length") (auto dest: rune_size_bounds)

declare quote_body.simps [simp del]

definition json_quote :: "bytes \<Rightarrow> bytes" where
  "json_quote s = CHR 0x22 # quote_body s @ [CHR 0x22]"

definition json_null :: bytes where "json_null = ''null''"

end
