(* ===== verification/Json_Facts.thy ===== *)
theory Json_Facts
  imports Go_Json
begin

text \<open>
  How the JSON scanner behaves on composed texts: what is printed is scanned, a value that is
  valid on its own is scanned inside another value after compaction, and no byte of a value is a
  newline. These facts carry the validity of the spool's lines.
\<close>

named_theorems scan_simps "runs of the scanner over printed text"

lemma scan_run_append [scan_simps]:
  "scan_run st (s @ t) =
     (case scan_run st s of None \<Rightarrow> None
      | Some (out, st') \<Rightarrow> map_option (\<lambda>(o2, st2). (out @ o2, st2)) (scan_run st' t))"
  by (induction s arbitrary: st) (auto simp: map_option_case split: option.splits)

lemmas step_defs = goto_def push_state_def pop_state_def end_value_def begin_value_def
  begin_string_def expect_def json_space_def

section \<open>Strings\<close>

lemma byte_in_char_code: "byte_in c lo hi \<longleftrightarrow> lo \<le> (of_char c :: nat) \<and> (of_char c :: nat) \<le> hi"
  by (simp add: byte_in_def)

text \<open>Bytes that a string of JSON may hold as they are.\<close>

definition plain_byte :: "char \<Rightarrow> bool" where
  "plain_byte c \<longleftrightarrow> c \<noteq> CHR 0x22 \<and> c \<noteq> CHR 0x5C \<and> \<not> byte_in c 0 0x1F"

lemma scan_plain: "\<forall>c\<in>set s. plain_byte c \<Longrightarrow> scan_run (InString, ks) s = Some (s, InString, ks)"
  by (induction s) (auto simp: plain_byte_def goto_def)

lemma plain_high: "byte_in c 0x80 0xFF \<Longrightarrow> plain_byte c"
  by (auto simp: plain_byte_def byte_in_def)

lemma rune_bytes_high:
  "rune_size s = Some n \<Longrightarrow> n \<noteq> 1 \<Longrightarrow> \<forall>c\<in>set (take n s). byte_in c 0x80 0xFF"
  by (cases s) (auto simp: rune_size.simps byte_in_def split: if_splits list.splits)

lemma hex_digits_all: "list_all (\<lambda>n. is_hex (hex_digit n)) [0..<16]"
  by code_simp

lemma hex_digit_is_hex: "n < 16 \<Longrightarrow> is_hex (hex_digit n)"
  using hex_digits_all by (simp add: list_all_iff)

lemma hex_zero [simp]: "is_hex CHR ''0''" "is_hex CHR ''2''" "is_hex CHR ''8''" "is_hex CHR ''9''"
  "is_hex CHR ''f''" "is_hex CHR ''d''"
  by (simp_all add: is_hex_def is_digit_of_char byte_in_def)

lemma scan_quote_byte: "scan_run (InString, ks) (quote_byte b) = Some (quote_byte b, InString, ks)"
proof (cases "byte_in b 0 0x1F")
  case True
  then have "of_char b div 16 < (16 :: nat)" by (simp add: byte_in_def)
  then have "is_hex (hex_digit (of_char b div 16))" "is_hex (hex_digit (of_char b mod 16))"
    using hex_digit_is_hex by auto
  then show ?thesis
    by (simp add: quote_byte_def goto_def byte_in_def)
next
  case False
  then show ?thesis by (auto simp: quote_byte_def goto_def byte_in_def)
qed

lemma scan_quote_rune:
  "\<forall>c\<in>set r. byte_in c 0x80 0xFF \<Longrightarrow> scan_run (InString, ks) (quote_rune r) = Some (quote_rune r, InString, ks)"
  using scan_plain [of r ks] plain_high by (auto simp: quote_rune_def goto_def byte_in_def)

lemma scan_quote_body: "scan_run (InString, ks) (quote_body s) = Some (quote_body s, InString, ks)"
proof (induction s rule: quote_body.induct)
  case (1 s)
  show ?case
  proof (cases "s = []")
    case True
    then show ?thesis by (simp add: quote_body.simps)
  next
    case False
    show ?thesis
    proof (cases "rune_size s")
      case None
      with "1.IH"(1) [OF False None] False show ?thesis
        by (simp add: quote_body.simps [of s] scan_run_append goto_def byte_in_def)
    next
      case (Some n)
      have "scan_run (InString, ks) (if n = 1 then quote_byte (hd s) else quote_rune (take n s))
        = Some ((if n = 1 then quote_byte (hd s) else quote_rune (take n s)), InString, ks)"
        using scan_quote_byte scan_quote_rune rune_bytes_high [OF Some] by simp
      with "1.IH"(2) [OF False Some] False Some show ?thesis
        by (simp add: quote_body.simps [of s] scan_run_append)
    qed
  qed
qed

lemma scan_json_quote [scan_simps]:
  "scan_run (BeginValue, ks) (json_quote s) = Some (json_quote s, EndValue, ks)"
  by (simp add: json_quote_def scan_run_append scan_quote_body step_defs)

section \<open>Numbers\<close>

text \<open>The states in which a number may end: there the scanner reads any byte that cannot
  continue the number as it does after a finished value.\<close>

definition num_end :: "jstep \<Rightarrow> bool" where
  "num_end q \<longleftrightarrow> q = Num1 \<or> q = Num0 \<or> q = Dot0 \<or> q = Exp0"

lemma scan_digits: "\<forall>c\<in>set s. is_digit c \<Longrightarrow> scan_run (Num1, ks) s = Some (s, Num1, ks)"
  by (induction s) (auto simp: goto_def)

lemma digit_not_special:
  "is_digit c \<Longrightarrow> c \<noteq> CHR ''{'' \<and> c \<noteq> CHR ''['' \<and> c \<noteq> CHR 0x22 \<and> c \<noteq> CHR ''-'' \<and> c \<noteq> CHR ''t''
   \<and> c \<noteq> CHR ''f'' \<and> c \<noteq> CHR ''n'' \<and> \<not> json_space c"
  by (auto simp: is_digit_of_char json_space_def)

lemma digit_char_0 [simp]: "digit_char 0 = CHR ''0''"
proof -
  have "(of_char (digit_char 0) :: nat) = of_char CHR ''0''" by (simp add: of_char_digit)
  then show ?thesis by (simp only: of_char_eq_iff)
qed

lemma nat_dec_cases:
  obtains "n = 0" "nat_dec n = ''0''"
  | c cs where "nat_dec n = c # cs" "is_digit c" "c \<noteq> CHR ''0''" "\<forall>d\<in>set cs. is_digit d"
proof (cases "n = 0")
  case True
  then show ?thesis using that(1) by (simp add: nat_dec.simps)
next
  case False
  have "\<exists>c cs. nat_dec n = c # cs \<and> c \<noteq> CHR ''0''"
    using False
  proof (induction n rule: nat_dec.induct)
    case (1 n)
    show ?case
    proof (cases "n < 10")
      case True
      with "1.prems" digit_char_eq_iff [of n 0] show ?thesis
        by (simp add: nat_dec.simps [of n])
    next
      case False
      then have "n div 10 \<noteq> 0" by simp
      with "1.IH" [OF False] obtain c cs where "nat_dec (n div 10) = c # cs" "c \<noteq> CHR ''0''" by blast
      with False show ?thesis by (simp add: nat_dec.simps [of n])
    qed
  qed
  then obtain c cs where "nat_dec n = c # cs" "c \<noteq> CHR ''0''" by blast
  with that(2) nat_dec_digits [of _ n] show ?thesis by auto
qed

text \<open>The state after a printed integer.\<close>

definition int_state :: "int \<Rightarrow> jstep" where
  "int_state i = (if i = 0 then Num0 else Num1)"

lemma num_end_int_state [simp]: "num_end (int_state i)"
  by (simp add: int_state_def num_end_def)

lemma scan_nat_dec:
  "scan_run (BeginValue, ks) (nat_dec n) = Some (nat_dec n, int_state (int n), ks)
   \<and> (n \<noteq> 0 \<longrightarrow> scan_run (Neg, ks) (nat_dec n) = Some (nat_dec n, Num1, ks))"
proof (cases n rule: nat_dec_cases)
  case 1
  then show ?thesis by (simp add: int_state_def step_defs)
next
  case (2 c cs)
  have "n \<noteq> 0"
  proof
    assume "n = 0"
    with 2(1,3) show False by (simp add: nat_dec.simps)
  qed
  with 2 show ?thesis
    using digit_not_special [of c] scan_digits [of cs ks] by (simp add: int_state_def begin_value_def goto_def)
qed

lemma scan_int_dec [scan_simps]:
  "scan_run (BeginValue, ks) (int_dec i) = Some (int_dec i, int_state i, ks)"
  using scan_nat_dec [of ks "nat i"] scan_nat_dec [of ks "nat (- i)"]
  by (auto simp: int_dec_def int_state_def step_defs is_digit_of_char)

lemma scan_num_end [scan_simps]:
  "num_end q \<Longrightarrow> scan_run (q, ks) (CHR '','' # r) = scan_run (EndValue, ks) (CHR '','' # r)"
  "num_end q \<Longrightarrow> scan_run (q, ks) (CHR ''}'' # r) = scan_run (EndValue, ks) (CHR ''}'' # r)"
  by (auto simp: num_end_def is_digit_of_char)

section \<open>A compacted value inside another\<close>

text \<open>How deep the scanner's stack gets on a text.\<close>

fun scan_depth :: "jscan \<Rightarrow> bytes \<Rightarrow> nat" where
  "scan_depth st [] = length (snd st)"
| "scan_depth st (c # cs) =
     max (length (snd st)) (case scan_step st c of None \<Rightarrow> 0 | Some (k, st') \<Rightarrow> scan_depth st' cs)"

definition json_depth :: "bytes \<Rightarrow> nat" where
  "json_depth s = scan_depth scan_init s"

lemma scan_depth_ge: "length (snd st) \<le> scan_depth st s"
  by (cases s) auto

text \<open>
  The relation between a run on a value of its own and a run of the compacted value inside the
  open objects and arrays \<open>base\<close>: the same state over a longer stack, the value's end seen as
  such, and a number that white space ended still open.
\<close>

definition inside :: "pstate list \<Rightarrow> jscan \<Rightarrow> jscan \<Rightarrow> bool" where
  "inside base a b \<longleftrightarrow>
     (a = (EndTop, []) \<and> b = (EndValue, base))
     \<or> (snd a \<noteq> [] \<and> fst a \<noteq> EndTop \<and> snd b = snd a @ base
        \<and> (fst b = fst a \<or> fst a = EndValue \<and> num_end (fst b)))"

lemma helpers_skip:
  "begin_value q ks c = Some (False, a') \<Longrightarrow> a' = (q, ks)"
  "begin_string q ks c = Some (False, a') \<Longrightarrow> a' = (q, ks)"
  "end_value (k # ks) c = Some (False, a') \<Longrightarrow> a' = (EndValue, k # ks)"
  "expect c d q ks \<noteq> Some (False, a')" "goto q ks \<noteq> Some (False, a')"
  "end_value ks CHR '']'' \<noteq> Some (False, a')" "end_value ks CHR ''}'' \<noteq> Some (False, a')"
  by (auto simp: begin_value_def begin_string_def end_value_def push_state_def pop_state_def goto_def
      expect_def json_space_def split: if_splits pstate.splits list.splits)

lemma step_skip_form:
  "scan_step (q, k # ks) c = Some (False, a') \<Longrightarrow> a' = (q, k # ks) \<or> num_end q \<and> a' = (EndValue, k # ks)"
  by (cases q) (auto simp: helpers_skip num_end_def dest!: helpers_skip(1-3) split: if_splits)

lemma step_skip:
  assumes "scan_step a c = Some (False, a')" "inside base a b"
  shows "inside base a' b"
proof (cases "a = (EndTop, [])")
  case True
  with assms show ?thesis by (simp split: if_splits)
next
  case False
  with assms(2) obtain q k ks where a: "a = (q, k # ks)" by (cases a; cases "snd a") (auto simp: inside_def)
  from step_skip_form [OF assms(1) [unfolded a]] assms(2) show ?thesis
    by (auto simp: a inside_def num_end_def)
qed

lemma num_end_value:
  "num_end q \<Longrightarrow> end_value (k # ks) c = Some (True, a) \<Longrightarrow> scan_step (q, k # ks) c = end_value (k # ks) c"
  by (auto simp: num_end_def end_value_def is_digit_of_char split: if_splits pstate.splits)

lemma end_value_inside:
  "base \<noteq> [] \<Longrightarrow> end_value (k # ks) c = Some (True, a') \<Longrightarrow>
   \<exists>b'. end_value (k # ks @ base) c = Some (True, b') \<and> inside base a' b'"
  by (cases ks) (auto simp: end_value_def inside_def goto_def pop_state_def split: if_splits pstate.splits)

lemma begin_value_inside:
  "begin_value q ks c = Some (True, a') \<Longrightarrow> ks \<noteq> [] \<Longrightarrow> length (snd a') + length base \<le> max_nesting_depth \<Longrightarrow>
   \<exists>b'. begin_value q (ks @ base) c = Some (True, b') \<and> inside base a' b'"
  by (auto simp: begin_value_def inside_def goto_def push_state_def split: if_splits)

text \<open>Steps inside strings, literals and numbers leave the stack alone.\<close>

definition local_step :: "jstep \<Rightarrow> bool" where
  "local_step q \<longleftrightarrow>
     q \<notin> {BeginValue, BeginValueOrEmpty, BeginStringOrEmpty, EndValue, EndTop, Num1, Num0, Dot0, Exp0}"

lemma local_step_keep:
  "local_step q \<Longrightarrow> scan_step (q, ks) c = Some (True, a') \<Longrightarrow>
   \<exists>q'. a' = (q', ks) \<and> q' \<noteq> EndTop \<and> scan_step (q, ks @ base) c = Some (True, q', ks @ base)"
  by (cases q) (auto simp: local_step_def expect_def goto_def begin_string_def split: if_splits)

lemma num_step_keep:
  "num_end q \<Longrightarrow> scan_step (q, k # ks) c = Some (True, a') \<Longrightarrow>
   (\<exists>q'. a' = (q', k # ks) \<and> q' \<noteq> EndTop \<and> (\<forall>ms. scan_step (q, ms) c = Some (True, q', ms)))
   \<or> end_value (k # ks) c = Some (True, a') \<and> (\<forall>ms. scan_step (q, ms) c = end_value ms c)"
  by (auto simp: num_end_def goto_def split: if_splits)

lemma step_keep:
  assumes "base \<noteq> []" "scan_step a c = Some (True, a')" "inside base a b"
    "length (snd a') + length base \<le> max_nesting_depth"
  shows "\<exists>b'. scan_step b c = Some (True, b') \<and> inside base a' b'"
proof -
  obtain q k ks where a: "a = (q, k # ks)" and q: "q \<noteq> EndTop"
    and b: "snd b = k # ks @ base" "fst b = q \<or> q = EndValue \<and> num_end (fst b)"
  proof (cases "a = (EndTop, [])")
    case True
    with assms(2) show ?thesis by (simp split: if_splits)
  next
    case False
    with assms(3) show ?thesis
      by (cases a; cases "snd a") (auto simp: inside_def intro: that)
  qed
  show ?thesis
  proof (cases "fst b = q")
    case True
    with b have b': "b = (q, k # ks @ base)" by (cases b) simp
    consider "local_step q" | "num_end q" | "q = EndValue" | "q = BeginValue" | "q = BeginValueOrEmpty"
      | "q = BeginStringOrEmpty"
      using q by (auto simp: local_step_def num_end_def)
    then show ?thesis
    proof cases
      case 1
      from local_step_keep [OF 1 assms(2) [unfolded a], of base] show ?thesis by (auto simp: b' inside_def)
    next
      case 2
      from num_step_keep [OF 2 assms(2) [unfolded a]] end_value_inside [OF assms(1), of k ks c a']
      show ?thesis by (auto simp: b' inside_def)
    next
      case 3
      with assms(2) end_value_inside [OF assms(1), of k ks c a'] show ?thesis by (simp add: a b')
    next
      case 4
      with assms(2,4) begin_value_inside [of q "k # ks" c a' base] show ?thesis by (simp add: a b')
    next
      case 5
      with assms(2,4) begin_value_inside [of q "k # ks" c a' base] end_value_inside [OF assms(1), of k ks c a']
      show ?thesis by (auto simp: a b' split: if_splits)
    next
      case 6
      with assms(2) end_value_inside [OF assms(1), of ObjectValue ks c a'] show ?thesis
        by (auto simp: a b' begin_string_def goto_def inside_def split: if_splits)
    qed
  next
    case False
    with b have q': "q = EndValue" and n: "num_end (fst b)" by auto
    from assms(2) have e: "end_value (k # ks) c = Some (True, a')" by (simp add: a q')
    from end_value_inside [OF assms(1) e] obtain b' where
      b': "end_value (k # ks @ base) c = Some (True, b')" "inside base a' b'" by blast
    have "b = (fst b, k # ks @ base)" using b(1) by (cases b) simp
    with num_end_value [OF n b'(1)] b' show ?thesis by metis
  qed
qed

lemma run_inside:
  "base \<noteq> [] \<Longrightarrow> scan_run a s = Some (out, a') \<Longrightarrow> inside base a b \<Longrightarrow> scan_depth a s + length base \<le> max_nesting_depth
   \<Longrightarrow> \<exists>b'. scan_run b out = Some (out, b') \<and> inside base a' b'"
proof (induction s arbitrary: a b out)
  case Nil
  then show ?case by auto
next
  case (Cons c cs)
  from Cons.prems(2) obtain keep a1 o1 where st: "scan_step a c = Some (keep, a1)"
    and run: "scan_run a1 cs = Some (o1, a')" and out: "out = (if keep then c # o1 else o1)"
    by (auto split: option.splits)
  have depth: "scan_depth a1 cs + length base \<le> max_nesting_depth"
    using Cons.prems(4) by (simp add: st)
  show ?case
  proof (cases keep)
    case True
    have "length (snd a1) + length base \<le> max_nesting_depth"
      using depth scan_depth_ge [of a1 cs] by linarith
    from st True have "scan_step a c = Some (True, a1)" by simp
    from step_keep [OF Cons.prems(1) this Cons.prems(3) \<open>length (snd a1) + length base \<le> max_nesting_depth\<close>] obtain b1 where
      b1: "scan_step b c = Some (True, b1)" "inside base a1 b1" by blast
    from Cons.IH [OF Cons.prems(1) run b1(2) depth] b1(1) True out show ?thesis by auto
  next
    case False
    with st step_skip [OF _ Cons.prems(3)] have "inside base a1 b" by simp
    from Cons.IH [OF Cons.prems(1) run this depth] False out show ?thesis by simp
  qed
qed

lemma compact_object_inside:
  assumes "json_compact p = Some out" "has_prefix p ''{''" "base \<noteq> []"
    "json_depth p + length base \<le> max_nesting_depth"
  shows "scan_run (BeginValue, base) out = Some (out, EndValue, base)"
proof -
  from assms(2) obtain r where p: "p = CHR ''{'' # r" by (auto simp: has_prefix_Cons)
  let ?a = "(BeginStringOrEmpty, [ObjectKey])"
  let ?b = "(BeginStringOrEmpty, ObjectKey # base)"
  have first: "scan_step scan_init CHR ''{'' = Some (True, ?a)"
    by (simp add: scan_init_def step_defs max_nesting_depth_def)
  from assms(1) obtain o1 a' where run: "scan_run ?a r = Some (o1, a')" and out: "out = CHR ''{'' # o1"
    and eof: "scan_eof a'"
    by (auto simp: json_compact_def p first split: option.splits if_splits)
  have depth: "scan_depth ?a r + length base \<le> max_nesting_depth"
    using assms(4) by (simp add: json_depth_def p first)
  have "inside base ?a ?b" by (simp add: inside_def)
  from run_inside [OF assms(3) run this depth] obtain b' where
    b': "scan_run ?b o1 = Some (o1, b')" "inside base a' b'" by blast
  have "b' = (EndValue, base)"
    using b'(2) eof
    by (cases a'; cases "fst a'")
       (auto simp: inside_def scan_eof_def step_defs split: if_splits option.splits list.splits pstate.splits)
  moreover have "scan_step (BeginValue, base) CHR ''{'' = Some (True, ?b)"
    using depth scan_depth_ge [of ?a r] by (simp add: step_defs)
  ultimately show ?thesis using b'(1) out by simp
qed

section \<open>No byte of a value is a control character\<close>

lemma step_keep_printable: "scan_step st c = Some (True, st') \<Longrightarrow> \<not> byte_in c 0 0x1F"
  by (cases st; cases "fst st")
     (auto simp: step_defs is_digit_of_char is_hex_def byte_in_def
       split: if_splits pstate.splits list.splits)

lemma scan_out_printable: "scan_run st s = Some (out, st') \<Longrightarrow> \<forall>c\<in>set out. \<not> byte_in c 0 0x1F"
  by (induction s arbitrary: st out) (auto dest: step_keep_printable split: option.splits if_splits)

lemma printable_no_nl: "\<forall>c\<in>set s. \<not> byte_in c 0 0x1F \<Longrightarrow> nl \<notin> set s"
  by (force simp: byte_in_def)

section \<open>Objects\<close>

text \<open>A member's name as the encoder prints it, with the colon; the names are plain.\<close>

definition json_key :: "string \<Rightarrow> bytes" where
  "json_key k = CHR 0x22 # k @ [CHR 0x22, CHR '':'']"

lemma scan_key_or_empty [scan_simps]:
  "\<forall>c\<in>set k. plain_byte c \<Longrightarrow>
   scan_run (BeginStringOrEmpty, ObjectKey # ks) (json_key k) = Some (json_key k, BeginValue, ObjectValue # ks)"
  by (simp add: json_key_def scan_run_append scan_plain step_defs)

lemma scan_key [scan_simps]:
  "\<forall>c\<in>set k. plain_byte c \<Longrightarrow>
   scan_run (BeginString, ObjectKey # ks) (json_key k) = Some (json_key k, BeginValue, ObjectValue # ks)"
  by (simp add: json_key_def scan_run_append scan_plain step_defs)

lemma scan_null [scan_simps]: "scan_run (BeginValue, ks) json_null = Some (json_null, EndValue, ks)"
  by (simp add: json_null_def step_defs)

text \<open>Punctuation between the members of an object.\<close>

lemma scan_punct [scan_simps]:
  "length ks < max_nesting_depth \<Longrightarrow> scan_run (BeginValue, ks) (CHR ''{'' # r) =
     map_option (\<lambda>(out, st). (CHR ''{'' # out, st)) (scan_run (BeginStringOrEmpty, ObjectKey # ks) r)"
  "scan_run (EndValue, ObjectValue # ks) (CHR '','' # r) =
     map_option (\<lambda>(out, st). (CHR '','' # out, st)) (scan_run (BeginString, ObjectKey # ks) r)"
  "scan_run (EndValue, [ObjectValue]) [CHR ''}''] = Some (''}'', EndTop, [])"
  "scan_run (EndValue, ObjectValue # k # ks) [CHR ''}''] = Some (''}'', EndValue, k # ks)"
  by (simp_all add: step_defs)

text \<open>Printable ASCII that the encoder prints as it is.\<close>

definition safe_byte :: "char \<Rightarrow> bool" where
  "safe_byte c \<longleftrightarrow> byte_in c 0x20 0x7E \<and> c \<notin> set [CHR 0x22, CHR 0x5C, CHR ''<'', CHR ''>'', CHR ''&'']"

lemma rune_size_safe: "safe_byte c \<Longrightarrow> rune_size (c # s) = Some 1"
  by (simp add: safe_byte_def byte_in_def rune_size.simps)

lemma safe_byte_not: "byte_in d 0 0x1F \<Longrightarrow> \<not> safe_byte d"
  by (simp add: safe_byte_def byte_in_def)

lemma quote_byte_safe: "safe_byte c \<Longrightarrow> quote_byte c = [c]"
proof -
  assume c: "safe_byte c"
  then have "\<not> byte_in c 0 0x1F" using safe_byte_not by blast
  moreover from this have "c \<noteq> CHR 0x08" "c \<noteq> CHR 0x0C" "c \<noteq> CHR 0x0A" "c \<noteq> CHR 0x0D" "c \<noteq> CHR 0x09"
    by (auto simp: byte_in_def)
  moreover have "c \<noteq> CHR 0x22" "c \<noteq> CHR 0x5C" using c by (simp_all add: safe_byte_def)
  ultimately show ?thesis by (simp add: quote_byte_def)
qed

lemma quote_body_safe: "\<forall>c\<in>set s. safe_byte c \<Longrightarrow> quote_body s = s"
proof (induction s)
  case (Cons c s)
  then have "rune_size (c # s) = Some 1" "quote_byte c = [c]" by (simp_all add: rune_size_safe quote_byte_safe)
  then have "quote_body (c # s) = c # quote_body s" by (subst quote_body.simps) simp
  with Cons show ?case by simp
qed (simp add: quote_body.simps [of "[]"])

lemma utf8_valid_safe: "\<forall>c\<in>set s. safe_byte c \<Longrightarrow> utf8_valid s"
proof (induction s)
  case (Cons c s)
  then have "rune_size (c # s) = Some 1" by (simp add: rune_size_safe)
  then have "utf8_valid (c # s) = utf8_valid s" by (subst utf8_valid.simps) simp
  with Cons show ?case by simp
qed simp

end
