(* ===== verification/Syslog_Facts.thy ===== *)
theory Syslog_Facts
  imports Syslog_Record
begin

text \<open>
  What the record builder guarantees: the header parser reads back a well-formed syslog message,
  a record carries every byte of its datagram, and a printed record is one line of valid JSON.
\<close>

section \<open>A printed record is one line of JSON\<close>

lemma scan_opt_quote [scan_simps]:
  "scan_run (BeginValue, ks) (json_opt json_quote x) = Some (json_opt json_quote x, EndValue, ks)"
  by (cases x) (simp_all add: json_opt_def scan_null scan_json_quote)

definition opt_int_state :: "int option \<Rightarrow> jstep" where
  "opt_int_state x = (case x of None \<Rightarrow> EndValue | Some i \<Rightarrow> int_state i)"

lemma scan_opt_int [scan_simps]:
  "scan_run (BeginValue, ks) (json_opt int_dec x) = Some (json_opt int_dec x, opt_int_state x, ks)"
  "scan_run (opt_int_state x, ks) (CHR '','' # r) = scan_run (EndValue, ks) (CHR '','' # r)"
  by (cases x; simp add: json_opt_def opt_int_state_def scan_null scan_int_dec scan_num_end del: scan_run.simps)+

lemma key_plain [simp]:
  "\<forall>c\<in>set ''program''. plain_byte c" "\<forall>c\<in>set ''hostname''. plain_byte c" "\<forall>c\<in>set ''pid''. plain_byte c"
  "\<forall>c\<in>set ''priority''. plain_byte c" "\<forall>c\<in>set ''payload''. plain_byte c"
  "\<forall>c\<in>set ''received_at''. plain_byte c" "\<forall>c\<in>set ''source_ip''. plain_byte c"
  "\<forall>c\<in>set ''raw''. plain_byte c" "\<forall>c\<in>set ''raw_base64''. plain_byte c"
  "\<forall>c\<in>set ''parsed''. plain_byte c" "\<forall>c\<in>set ''parse_error''. plain_byte c"
  by (simp_all add: plain_byte_def byte_in_def)

definition payload_fits :: "parsed \<Rightarrow> bool" where
  "payload_fits p \<longleftrightarrow>
     (case pa_payload p of None \<Rightarrow> True
      | Some raw \<Rightarrow> json_valid raw \<and> has_prefix raw ''{'' \<and> json_depth raw + 2 \<le> max_nesting_depth)"

lemma scan_marshal_parsed:
  assumes "payload_fits p"
  shows "\<exists>out. marshal_parsed p = Some out \<and> scan_run (BeginValue, [k]) out = Some (out, EndValue, [k])"
proof -
  obtain pl where pl: "json_raw (pa_payload p) = Some pl"
    "scan_run (BeginValue, [ObjectValue, k]) pl = Some (pl, EndValue, [ObjectValue, k])"
  proof (cases "pa_payload p")
    case None
    then show ?thesis using that [of json_null] by (simp add: json_raw_def scan_null)
  next
    case (Some raw)
    with assms obtain out where out: "json_compact raw = Some out" "has_prefix raw ''{''"
      "json_depth raw + length [ObjectValue, k] \<le> max_nesting_depth"
      by (auto simp: payload_fits_def json_valid_def)
    from compact_object_inside [OF out(1,2) _ out(3)] Some out(1) show ?thesis
      using that [of out] by (simp add: json_raw_def)
  qed
  have "length [k] < max_nesting_depth" by (simp add: max_nesting_depth_def)
  then show ?thesis
    by (simp add: marshal_parsed_def pl scan_simps option.map_comp comp_def del: scan_run.simps)
qed

lemma marshal_record_line:
  assumes "\<And>p. rec_parsed r = Some p \<Longrightarrow> payload_fits p"
  shows "\<exists>b. marshal_record r = Some (b @ [nl]) \<and> nl \<notin> set b \<and> json_valid b \<and> b \<noteq> []"
proof -
  obtain pa where pa: "(case rec_parsed r of None \<Rightarrow> Some json_null | Some p \<Rightarrow> marshal_parsed p) = Some pa"
    "scan_run (BeginValue, [ObjectValue]) pa = Some (pa, EndValue, [ObjectValue])"
    using scan_marshal_parsed [of _ ObjectValue] assms
    by (cases "rec_parsed r") (auto simp: scan_null)
  define b where "b = CHR ''{'' # json_key ''received_at'' @ json_quote (rec_received_at r)
     @ '','' @ json_key ''source_ip'' @ json_quote (rec_source_ip r)
     @ '','' @ json_key ''raw'' @ json_quote (rec_raw r)
     @ (if rec_raw_base64 r = [] then [] else '','' @ json_key ''raw_base64'' @ json_quote (rec_raw_base64 r))
     @ '','' @ json_key ''parsed'' @ pa
     @ '','' @ json_key ''parse_error'' @ json_opt json_quote (rec_parse_error r) @ ''}''"
  have "marshal_record r = Some (b @ [nl])"
    by (simp add: marshal_record_def pa(1) b_def)
  moreover have run: "scan_run scan_init b = Some (b, EndTop, [])"
  proof -
    have "length [] < max_nesting_depth" by (simp add: max_nesting_depth_def)
    then show ?thesis
      by (cases "rec_raw_base64 r = []")
         (simp_all add: b_def scan_init_def scan_simps pa(2) del: scan_run.simps)
  qed
  moreover from run have "json_valid b"
    by (simp add: json_valid_def json_compact_def scan_eof_def)
  moreover have "nl \<notin> set b"
    using scan_out_printable [OF run] by (rule printable_no_nl)
  ultimately show ?thesis by (auto simp: b_def)
qed

text \<open>What a parse returns: the record only when the header is well-formed, and no error exactly
  when the payload is a JSON object.\<close>

definition parse_ok :: "parsed option \<times> syslog_error option \<Rightarrow> bool" where
  "parse_ok res \<longleftrightarrow>
     (case res of
        (None, e) \<Rightarrow> e \<noteq> None
      | (Some p, None) \<Rightarrow> (\<exists>raw. pa_payload p = Some raw \<and> json_valid raw \<and> has_prefix raw ''{'')
      | (Some p, Some e) \<Rightarrow> pa_payload p = None \<and> e = PayloadNotObject)"

lemma parse_ok_None [simp]: "parse_ok (None, Some e)"
  by (simp add: parse_ok_def)

lemma parse_after_stamp_ok: "parse_ok (parse_after_stamp pri rest)"
  unfolding parse_after_stamp_def Let_def
  by (simp split: sum.split prod.split) (simp add: parse_ok_def)

lemma parse_syslog_ok: "parse_ok (parse_syslog msg)"
  unfolding parse_syslog_def Let_def
  by (simp add: parse_after_stamp_ok split: prod.split option.split)

lemma parse_syslog_result:
  "snd (parse_syslog msg) = None \<longleftrightarrow> (\<exists>p raw. fst (parse_syslog msg) = Some p \<and> pa_payload p = Some raw)"
  using parse_syslog_ok [of msg] by (auto simp: parse_ok_def split: prod.splits option.splits)

lemma parse_syslog_payload:
  "fst (parse_syslog msg) = Some p \<Longrightarrow> pa_payload p = Some raw \<Longrightarrow> json_valid raw \<and> has_prefix raw ''{''"
  using parse_syslog_ok [of msg] by (auto simp: parse_ok_def split: prod.splits option.splits)

section \<open>No byte of a datagram is lost\<close>

text \<open>The reader's side of \<open>base64.StdEncoding\<close> and of a record, as a specification.\<close>

definition b64_alphabet :: string where
  "b64_alphabet = ''ABCDEFGHIJKLMNOPQRSTUVWXYZabcdefghijklmnopqrstuvwxyz0123456789+/''"

definition b64_val :: "char \<Rightarrow> nat" where
  "b64_val c = length (takeWhile (\<lambda>d. d \<noteq> c) b64_alphabet)"

fun unbase64 :: "string \<Rightarrow> bytes" where
  "unbase64 (a # b # c # d # r) =
     (let n = b64_val a * 262144 + b64_val b * 4096 + (if c = CHR ''='' then 0 else b64_val c * 64)
              + (if d = CHR ''='' then 0 else b64_val d)
      in take (if c = CHR ''='' then 1 else if d = CHR ''='' then 2 else 3)
           [char_of (n div 65536), char_of (n div 256 mod 256), char_of (n mod 256)] @ unbase64 r)"
| "unbase64 _ = []"

definition record_bytes :: "event_record \<Rightarrow> bytes" where
  "record_bytes r = (if rec_raw_base64 r = [] then rec_raw r else unbase64 (rec_raw_base64 r))"

lemma b64_char_all: "list_all (\<lambda>n. b64_val (b64_char n) = n \<and> b64_char n \<noteq> CHR ''='') [0..<64]"
  by code_simp

lemma b64_val_char [simp]: "n < 64 \<Longrightarrow> b64_val (b64_char n) = n"
  and b64_char_pad [simp]: "n < 64 \<Longrightarrow> b64_char n \<noteq> CHR ''=''"
  using b64_char_all by (auto simp: list_all_iff)

lemma sextets:
  fixes n :: nat
  shows "n div 262144 * 262144 + n div 4096 mod 64 * 4096 + n div 64 mod 64 * 64 + n mod 64 = n"
proof -
  have "n div 64 = n div 4096 * 64 + n div 64 mod 64" using div_mult_mod_eq [of "n div 64" 64]
    by (simp add: div_mult2_eq [symmetric])
  moreover have "n div 4096 = n div 262144 * 64 + n div 4096 mod 64"
    using div_mult_mod_eq [of "n div 4096" 64] by (simp add: div_mult2_eq [symmetric])
  moreover have "n = n div 64 * 64 + n mod 64" by simp
  ultimately show ?thesis by linarith
qed

lemma sextet_less: "n < 16777216 \<Longrightarrow> n div 262144 < (64::nat)"
  by (simp add: less_mult_imp_div_less)

lemma octets:
  fixes a b c :: nat
  assumes "a < 256" "b < 256" "c < 256"
  shows "(a * 65536 + b * 256 + c) div 65536 = a"
    "(a * 65536 + b * 256 + c) div 256 mod 256 = b"
    "(a * 65536 + b * 256 + c) mod 256 = c"
    "a * 65536 + b * 256 + c < 16777216"
proof -
  have e: "a * 65536 + b * 256 + c = c + 256 * (a * 256 + b)" by simp
  from assms(3) show "(a * 65536 + b * 256 + c) mod 256 = c" unfolding e by (simp only: mod_mult_self2 mod_less)
  have "(a * 65536 + b * 256 + c) div 256 = a * 256 + b" using assms(3) unfolding e by simp
  then show "(a * 65536 + b * 256 + c) div 256 mod 256 = b" using assms(2) by simp
  show "(a * 65536 + b * 256 + c) div 65536 = a" "a * 65536 + b * 256 + c < 16777216"
    using assms by simp_all
qed

lemma char_of_mod: "x mod 256 = (of_char b :: nat) \<Longrightarrow> char_of x = b"
  by (metis char_of_mod_256 char_of_char)

lemma unbase64_base64: "unbase64 (base64 d) = d"
proof (induction d rule: base64.induct)
  case 1
  then show ?case by simp
next
  case (2 a)
  define n :: nat where "n = of_char a * 65536 + 0 * 256 + 0"
  have "of_char a < (256::nat)" by simp
  note o = octets [OF this, of 0 0, folded n_def, simplified]
  have z: "n mod 64 = 0" "n div 64 mod 64 = 0" unfolding n_def by simp_all
  have n: "of_char a * 65536 = n" by (simp add: n_def)
  have "n div 262144 * 262144 + n div 4096 mod 64 * 4096 = n" using sextets [of n] z by simp
  then show ?case by (simp add: Let_def n sextet_less o)
next
  case (3 a b)
  define n :: nat where "n = of_char a * 65536 + of_char b * 256 + 0"
  have "of_char a < (256::nat)" "of_char b < (256::nat)" by simp_all
  note o = octets [OF this, of 0, folded n_def, simplified]
  have z: "n mod 64 = 0" unfolding n_def by simp
  have n: "of_char a * 65536 + of_char b * 256 = n" by (simp add: n_def)
  have "n div 262144 * 262144 + n div 4096 mod 64 * 4096 + n div 64 mod 64 * 64 = n"
    using sextets [of n] z by simp
  then show ?case by (simp add: Let_def n sextet_less o char_of_mod)
next
  case (4 a b c r)
  define n :: nat where "n = of_char a * 65536 + of_char b * 256 + of_char c"
  have lt: "of_char a < (256::nat)" "of_char b < (256::nat)" "of_char c < (256::nat)" by simp_all
  note o = octets [OF lt, folded n_def]
  show ?case
    using 4 by (simp add: Let_def n_def [symmetric] sextet_less o sextets char_of_mod)
qed


section \<open>Parsing a well-formed message\<close>

text \<open>The format of the comment in \<open>ParseSyslog\<close>, as a printer.\<close>

definition syslog_tag :: "string \<Rightarrow> int option \<Rightarrow> string" where
  "syslog_tag prog pid = prog @ (case pid of None \<Rightarrow> [] | Some n \<Rightarrow> ''['' @ int_dec n @ '']'')"

definition syslog_message :: "int \<Rightarrow> string \<Rightarrow> string \<Rightarrow> string \<Rightarrow> int option \<Rightarrow> bytes \<Rightarrow> string" where
  "syslog_message pri stamp host prog pid payload =
     ''<'' @ int_dec pri @ ''>'' @ stamp @ '' '' @ host @ '' '' @ syslog_tag prog pid @ '': '' @ payload"

definition header_ok :: "int \<Rightarrow> string \<Rightarrow> string \<Rightarrow> string \<Rightarrow> int option \<Rightarrow> bool" where
  "header_ok pri stamp host prog pid \<longleftrightarrow>
     0 \<le> pri \<and> pri \<le> 191 \<and> length stamp = 15 \<and> valid_stamp stamp
     \<and> host \<noteq> [] \<and> CHR '' '' \<notin> set host
     \<and> prog \<noteq> [] \<and> list_all (\<lambda>c. c \<notin> set [CHR '' '', CHR 0x09, CHR '':'', CHR ''['']) prog
     \<and> (case pid of None \<Rightarrow> True | Some n \<Rightarrow> - (2 ^ 63) \<le> n \<and> n < 2 ^ 63)"

lemma index_byte_first [simp]: "c \<notin> set a \<Longrightarrow> index_byte (a @ c # b) c = int (length a)"
proof -
  assume "c \<notin> set a"
  then have "takeWhile (\<lambda>x. x \<noteq> c) (a @ c # b) = a" by (subst takeWhile_append2) auto
  then show ?thesis by (simp add: index_byte_def)
qed

lemma index_byte_absent [simp]: "c \<notin> set a \<Longrightarrow> index_byte a c = -1"
  by (induction a) (auto simp: index_byte_def Let_def split: if_splits)

lemma int_dec_chars: "c \<in> set (int_dec i) \<Longrightarrow> is_digit c \<or> c = CHR ''-''"
  by (auto simp: int_dec_def dest: nat_dec_digits split: if_splits)

lemma int_dec_no [simp]:
  "CHR ''>'' \<notin> set (int_dec i)" "CHR '':'' \<notin> set (int_dec i)" "CHR '' '' \<notin> set (int_dec i)"
  "CHR 0x09 \<notin> set (int_dec i)"
  using int_dec_chars [of _ i] by (auto simp: is_digit_of_char dest!: int_dec_chars)

lemma length_pri: "0 \<le> pri \<Longrightarrow> pri \<le> 191 \<Longrightarrow> 1 \<le> length (int_dec pri) \<and> length (int_dec pri) \<le> 3"
proof -
  assume "0 \<le> pri" "pri \<le> 191"
  moreover have "length (nat_dec n) \<le> 3" if "n < 1000" for n
    using that by (simp add: nat_dec.simps [of n] nat_dec.simps [of "n div 10"] nat_dec.simps [of "n div 10 div 10"])
  ultimately show ?thesis by (simp add: int_dec_def Suc_le_eq)
qed

lemma parse_tag_syslog_tag:
  assumes "header_ok pri stamp host prog pid"
  shows "parse_tag (syslog_tag prog pid) = Inr (prog, pid)"
proof -
  from assms have p: "prog \<noteq> []" "CHR ''['' \<notin> set prog" by (auto simp: header_ok_def list_all_iff)
  show ?thesis
  proof (cases pid)
    case None
    with p show ?thesis by (simp add: parse_tag_def syslog_tag_def)
  next
    case (Some n)
    have "has_suffix (prog @ CHR ''['' # int_dec n @ '']'') '']''"
      using has_suffix_append [of "prog @ CHR ''['' # int_dec n" "'']''"] by simp
    moreover have "slice (nat (int (length prog)) + 1) (length (prog @ CHR ''['' # int_dec n @ '']'') - 1)
      (prog @ CHR ''['' # int_dec n @ '']'') = int_dec n" by (simp add: slice_def)
    moreover have "atoi (int_dec n) = (n, None)"
      using assms Some by (simp add: atoi_int_dec header_ok_def)
    ultimately show ?thesis
      using p Some by (simp add: parse_tag_def syslog_tag_def)
  qed
qed

lemma trim_payload:
  assumes "payload = CHR ''{'' # b @ ''}''"
  shows "trim_space (CHR '' '' # payload) = payload"
proof -
  have "find (has_prefix (CHR '' '' # payload)) space_seqs = Some [CHR '' '']"
    "find (has_prefix payload) space_seqs = None"
    using assms by (simp_all add: space_seqs_def has_prefix_def)
  then have l: "trim_left_space (CHR '' '' # payload) = payload"
    by (subst trim_left_space.simps, subst trim_left_space.simps) (simp add: assms)
  have last_suffix: "has_suffix payload w \<Longrightarrow> w \<noteq> [] \<Longrightarrow> last w = CHR ''}''" for w
    using assms has_suffixE [of payload w] by (metis append_Cons last_appendR last_snoc)
  have "find (has_suffix payload) space_seqs = None"
    unfolding find_None_iff using last_suffix by (force simp: space_seqs_def)
  then have "trim_right_space payload = payload"
    by (simp add: trim_right_space.simps [of payload])
  with l show ?thesis by (simp add: trim_space_def)
qed

text \<open>What follows the tag is the payload, whatever it is.\<close>

lemma parse_syslog_header:
  assumes "header_ok pri stamp host prog pid"
  shows "parse_syslog (syslog_message pri stamp host prog pid payload) =
    (let p = \<lparr>pa_program = prog, pa_hostname = host, pa_pid = pid, pa_priority = pri, pa_payload = None\<rparr>;
         body = trim_space (CHR '' '' # payload)
     in if \<not> has_prefix body ''{'' \<or> \<not> json_valid body then (Some p, Some PayloadNotObject)
        else (Some (p\<lparr>pa_payload := Some body\<rparr>), None))"
proof -
  let ?t = "syslog_tag prog pid" and ?r = "host @ '' '' @ syslog_tag prog pid @ '': '' @ payload"
  from assms(1) have h: "0 \<le> pri" "pri \<le> 191" "length stamp = 15" "valid_stamp stamp"
    "host \<noteq> []" "CHR '' '' \<notin> set host" "prog \<noteq> []" by (simp_all add: header_ok_def)
  have t: "CHR '':'' \<notin> set ?t" "CHR '' '' \<notin> set ?t" "CHR 0x09 \<notin> set ?t" "?t \<noteq> []"
    using assms(1) by (auto simp: header_ok_def syslog_tag_def list_all_iff split: option.splits)
  have "index_byte ?r CHR '' '' = int (length host)" using h by simp
  moreover have "index_byte (?t @ '': '' @ payload) CHR '':'' = int (length ?t)" using t by simp
  moreover have "\<not> contains_any ?t [CHR '' '', CHR 0x09]" using t by (auto simp: contains_any_def list_ex_iff)
  ultimately have after: "parse_after_stamp pri ?r =
    (let p = \<lparr>pa_program = prog, pa_hostname = host, pa_pid = pid, pa_priority = pri, pa_payload = None\<rparr>;
         body = trim_space (CHR '' '' # payload)
     in if \<not> has_prefix body ''{'' \<or> \<not> json_valid body then (Some p, Some PayloadNotObject)
        else (Some (p\<lparr>pa_payload := Some body\<rparr>), None))"
    using h t(4) parse_tag_syslog_tag [OF assms(1)] by (simp add: parse_after_stamp_def)
  define R where "R = ?r"
  let ?m = "CHR ''<'' # int_dec pri @ CHR ''>'' # stamp @ CHR '' '' # R"
  have "index_byte ?m CHR ''>'' = int (length (CHR ''<'' # int_dec pri))"
    using index_byte_first [of "CHR ''>''" "CHR ''<'' # int_dec pri"] by simp
  moreover have "atoi (int_dec pri) = (pri, None)" using h by (simp add: atoi_int_dec)
  moreover have "slice 1 (Suc (length (int_dec pri))) ?m = int_dec pri" by (simp add: slice_def)
  moreover have "drop (Suc (Suc (length (int_dec pri)))) ?m = stamp @ CHR '' '' # R" by simp
  moreover have "int_dec pri \<noteq> []" using length_pri [OF h(1,2)] by auto
  moreover have "drop 16 (stamp @ CHR '' '' # R) = R" "(stamp @ CHR '' '' # R) ! 15 = CHR '' ''"
    "take 15 (stamp @ CHR '' '' # R) = stamp"
    using h(3) by (simp_all add: nth_append)
  ultimately have "parse_syslog ?m = parse_after_stamp pri R"
    using h length_pri [OF h(1,2)]
    by (simp add: parse_syslog_def Let_def has_prefix_Cons nat_add_distrib del: drop_append)
  with after show ?thesis by (simp add: syslog_message_def R_def)
qed

text \<open>
  C18: A message in the documented syslog format is parsed back to exactly its fields: every
  priority, timestamp, host, program and process number comes out as it was printed, with the
  JSON object as payload and no error.
\<close>

theorem parse_syslog_message:
  assumes "header_ok pri stamp host prog pid"
    and "payload = CHR ''{'' # b @ ''}''" and "json_valid payload"
  shows "parse_syslog (syslog_message pri stamp host prog pid payload) =
    (Some \<lparr>pa_program = prog, pa_hostname = host, pa_pid = pid, pa_priority = pri,
           pa_payload = Some payload\<rparr>, None)"
proof -
  have "has_prefix payload ''{''" using assms(2) by (simp add: has_prefix_Cons)
  then show ?thesis
    using parse_syslog_header [OF assms(1), of payload] trim_payload [OF assms(2)] assms(3) by (simp add: Let_def)
qed

theorem parse_syslog_message_witness:
  "fst (parse_syslog (syslog_message 134 ''Nov 18 15:50:00'' ''fw'' ''utm'' (Some 42) ''{}'')) \<noteq> None"
proof -
  have "header_ok 134 ''Nov 18 15:50:00'' ''fw'' ''utm'' (Some 42)" by code_simp
  moreover have "''{}'' = CHR ''{'' # [] @ ''}''" by simp
  moreover have "json_valid ''{}''" by code_simp
  ultimately show ?thesis by (simp only: parse_syslog_message fst_conv) simp
qed

lemma record_bytes_build: "record_bytes (build_record data source_ip received_at) = data"
proof (cases "utf8_valid data")
  case True
  then show ?thesis by (simp add: record_bytes_def build_record_def Let_def)
next
  case False
  then have "data \<noteq> []" by auto
  then have "base64 data \<noteq> []" by (cases data rule: base64.cases) (simp_all add: Let_def)
  with False show ?thesis
    by (simp add: record_bytes_def build_record_def Let_def unbase64_base64)
qed

text \<open>
  C19: No byte of a datagram is lost: from the record built for it the datagram can be computed
  back, whether it is valid UTF-8 or not and whether it parses or not.
\<close>

theorem build_record_lossless: "record_bytes (build_record data source_ip received_at) = data"
  by (rule record_bytes_build)

text \<open>
  C20: A record carries no error exactly when the datagram is valid UTF-8 and its payload was
  parsed, and then the payload is a JSON object.
\<close>

theorem build_record_error:
  "rec_parse_error (build_record data source_ip received_at) = None \<longleftrightarrow>
   utf8_valid data \<and> (\<exists>p raw. rec_parsed (build_record data source_ip received_at) = Some p \<and>
     pa_payload p = Some raw \<and> json_valid raw \<and> has_prefix raw ''{'')"
proof (cases "utf8_valid data")
  case True
  have "rec_parse_error (build_record data source_ip received_at) = None \<longleftrightarrow> snd (parse_syslog data) = None"
    using True by (simp add: build_record_def Let_def split: option.split)
  moreover have "rec_parsed (build_record data source_ip received_at) = fst (parse_syslog data)"
    using True by (simp add: build_record_def Let_def)
  ultimately show ?thesis
    using True parse_syslog_result [of data] parse_syslog_payload [of data] by auto
next
  case False
  then show ?thesis by (simp add: build_record_def Let_def)
qed

lemma build_record_printed:
  assumes "\<And>p raw. rec_parsed (build_record data source_ip received_at) = Some p \<Longrightarrow>
      pa_payload p = Some raw \<Longrightarrow> json_depth raw + 2 \<le> max_nesting_depth"
  shows "\<exists>b. marshal_record (build_record data source_ip received_at) = Some (b @ [nl])
    \<and> b \<noteq> [] \<and> nl \<notin> set b \<and> json_valid b"
proof -
  let ?r = "build_record data source_ip received_at"
  obtain msg where "rec_parsed ?r = fst (parse_syslog msg)" by (auto simp: build_record_def Let_def)
  then have "payload_fits p" if "rec_parsed ?r = Some p" for p
    using that assms [of p] parse_syslog_payload [of msg p]
    by (auto simp: payload_fits_def split: option.split)
  then show ?thesis using marshal_record_line [of ?r] by auto
qed

text \<open>
  C21: A record that is built from a datagram is printed as exactly one line: valid JSON, with no
  newline before the last byte, so that the spool's reader takes it back as one event. The
  payload may be nested up to two levels short of the decoder's limit.
\<close>

theorem build_record_line:
  assumes "\<And>p raw. rec_parsed (build_record data source_ip received_at) = Some p \<Longrightarrow>
      pa_payload p = Some raw \<Longrightarrow> json_depth raw + 2 \<le> max_nesting_depth"
  shows "\<exists>b. marshal_record (build_record data source_ip received_at) = Some (b @ [nl])
    \<and> b \<noteq> [] \<and> nl \<notin> set b \<and> json_valid b"
  using build_record_printed [OF assms] .

theorem build_record_line_witness:
  "\<exists>b. marshal_record (build_record ''<13>Nov 18 15:50:00 fw utm: {}'' ''10.0.0.1'' 0) = Some (b @ [nl]) \<and> json_valid b"
proof -
  have "rec_parsed (build_record ''<13>Nov 18 15:50:00 fw utm: {}'' ''10.0.0.1'' 0) =
    Some \<lparr>pa_program = ''utm'', pa_hostname = ''fw'', pa_pid = None, pa_priority = 13, pa_payload = Some ''{}''\<rparr>"
    (is "rec_parsed (build_record ?m _ _) = Some ?p")
  proof -
    have "utf8_valid ?m" "fst (parse_syslog ?m) = Some ?p" by code_simp+
    then show ?thesis by (simp add: build_record_def Let_def)
  qed
  moreover have "json_depth ''{}'' + 2 \<le> max_nesting_depth" by code_simp
  ultimately have "\<exists>b. marshal_record (build_record ?m ''10.0.0.1'' 0) = Some (b @ [nl])
      \<and> b \<noteq> [] \<and> nl \<notin> set b \<and> json_valid b"
    by (intro build_record_line) auto
  then show ?thesis by auto
qed

end
