(* ===== verification/Files.thy ===== *)
theory Files
  imports Go_Strings
begin

text \<open>
  The one directory that the spool works on, as the \<open>os\<close> package shows it: names in bytewise
  order (the order of \<open>os.ReadDir\<close>), each a regular file with its bytes or a subdirectory
  (\<open>Subdir True\<close> when it is empty). Every system call may fail; which ones do is an argument
  \<open>io\<close> of the operations. A failing write leaves the first bytes of the data behind.
\<close>

datatype node = Reg bytes | Subdir bool

type_synonym dir = "(string \<times> node) list"

datatype syscall =
    WriteHook | MakeDirectory | ReadDirectory | OpenFile string | StatFile string | ReadFile string int
  | WriteFile string | SyncFile string | CloseFile string | TruncateFile string
  | RenameFile string | RemoveFile string

text \<open>\<open>None\<close> lets the call succeed; \<open>Some k\<close> makes it fail, a write after \<open>k\<close> bytes.\<close>

type_synonym faults = "syscall \<Rightarrow> nat option"

abbreviation no_faults :: faults where
  "no_faults \<equiv> (\<lambda>c. None)"

named_theorems dir_simps "look-ups after changes of a directory"

section \<open>Names\<close>

fun look :: "dir \<Rightarrow> string \<Rightarrow> node option" where
  "look [] n = None"
| "look ((m, x) # d) n = (if n = m then Some x else look d n)"

fun put :: "dir \<Rightarrow> string \<Rightarrow> node \<Rightarrow> dir" where
  "put [] n x = [(n, x)]"
| "put ((m, y) # d) n x =
     (if n = m then (n, x) # d else if n < m then (n, x) # (m, y) # d else (m, y) # put d n x)"

definition del :: "dir \<Rightarrow> string \<Rightarrow> dir" where
  "del d n = filter (\<lambda>e. fst e \<noteq> n) d"

abbreviation names :: "dir \<Rightarrow> string list" where
  "names d \<equiv> map fst d"

definition dir_ok :: "dir \<Rightarrow> bool" where
  "dir_ok d \<longleftrightarrow> sorted_wrt (<) (names d)"

lemma look_names: "look d n \<noteq> None \<longleftrightarrow> n \<in> set (names d)"
  by (induction d) auto

lemma look_member: "dir_ok d \<Longrightarrow> (n, x) \<in> set d \<longleftrightarrow> look d n = Some x"
proof (induction d)
  case (Cons e d)
  obtain m y where e: "e = (m, y)" by (cases e)
  from Cons.prems e have lt: "\<forall>k\<in>set (names d). m < k" and ok: "dir_ok d" by (simp_all add: dir_ok_def)
  from lt have "(m, z) \<notin> set d" for z by force
  with Cons.IH [OF ok] e show ?case by auto
qed simp

lemma look_put [dir_simps]: "look (put d n x) m = (if m = n then Some x else look d m)"
  by (induction d n x rule: put.induct) auto

lemma look_del [dir_simps]: "look (del d n) m = (if m = n then None else look d m)"
  by (induction d) (auto simp: del_def)

lemma names_put: "set (names (put d n x)) = insert n (set (names d))"
  by (induction d n x rule: put.induct) auto

lemma names_del [simp]: "names (del d n) = filter (\<lambda>m. m \<noteq> n) (names d)"
  by (simp add: del_def filter_map comp_def)

lemma dir_ok_put [simp]: "dir_ok d \<Longrightarrow> dir_ok (put d n x)"
proof (induction d n x rule: put.induct)
  case (2 m y d n x)
  then have "dir_ok d" "\<forall>k\<in>set (names d). m < k" by (simp_all add: dir_ok_def)
  with 2 names_put [of d n x] show ?case by (auto simp: dir_ok_def)
qed (simp add: dir_ok_def)

lemma dir_ok_del [simp]: "dir_ok d \<Longrightarrow> dir_ok (del d n)"
  by (simp add: dir_ok_def sorted_wrt_filter)

lemma put_put [simp]: "put (put d n x) n y = put d n y"
  by (induction d n x rule: put.induct) auto

lemma put_same: "look d n = Some x \<Longrightarrow> dir_ok d \<Longrightarrow> put d n x = d"
proof (induction d)
  case (Cons e d)
  obtain m y where e: "e = (m, y)" by (cases e)
  show ?case
  proof (cases "n = m")
    case False
    with Cons.prems e have l: "look d n = Some x" and ok: "dir_ok d" by (auto simp: dir_ok_def)
    from l have "n \<in> set (names d)" using look_names [of d n] by simp
    with Cons.prems e have "m < n" by (auto simp: dir_ok_def)
    with False Cons.IH [OF l ok] e show ?thesis by auto
  qed (use Cons.prems e in auto)
qed simp

section \<open>Contents\<close>

text \<open>A write through a handle reaches the file as long as its name is in the directory.\<close>

definition append_bytes :: "dir \<Rightarrow> string \<Rightarrow> bytes \<Rightarrow> dir" where
  "append_bytes d n bs = (case look d n of Some (Reg b) \<Rightarrow> put d n (Reg (b @ bs)) | _ \<Rightarrow> d)"

definition resize :: "int \<Rightarrow> bytes \<Rightarrow> bytes" where
  "resize k b = take (nat k) b @ replicate (nat k - length b) CHR 0x00"

definition truncate_file :: "dir \<Rightarrow> string \<Rightarrow> int \<Rightarrow> dir" where
  "truncate_file d n k = (case look d n of Some (Reg b) \<Rightarrow> put d n (Reg (resize k b)) | _ \<Rightarrow> d)"

definition file_bytes :: "dir \<Rightarrow> string \<Rightarrow> bytes option" where
  "file_bytes d n = (case look d n of Some (Reg b) \<Rightarrow> Some b | _ \<Rightarrow> None)"

definition file_size :: "dir \<Rightarrow> string \<Rightarrow> int" where
  "file_size d n = (case look d n of Some (Reg b) \<Rightarrow> int (length b) | _ \<Rightarrow> 0)"

lemma file_bytes_put [dir_simps]:
  "file_bytes (put d n (Reg b)) m = (if m = n then Some b else file_bytes d m)"
  by (simp add: file_bytes_def look_put)

lemma file_bytes_del [dir_simps]: "file_bytes (del d n) m = (if m = n then None else file_bytes d m)"
  by (simp add: file_bytes_def look_del)

lemma file_bytes_Some [simp]: "file_bytes d n = Some b \<longleftrightarrow> look d n = Some (Reg b)"
  by (auto simp: file_bytes_def split: option.splits node.splits)

lemma file_bytes_append [dir_simps]:
  "file_bytes (append_bytes d n bs) m =
     (if m = n then map_option (\<lambda>b. b @ bs) (file_bytes d n) else file_bytes d m)"
  by (auto simp: append_bytes_def file_bytes_def look_put split: option.split node.split)

lemma file_bytes_truncate [dir_simps]:
  "file_bytes (truncate_file d n k) m =
     (if m = n then map_option (resize k) (file_bytes d n) else file_bytes d m)"
  by (auto simp: truncate_file_def file_bytes_def look_put split: option.split node.split)

lemma dir_ok_append [simp]: "dir_ok d \<Longrightarrow> dir_ok (append_bytes d n bs)"
  by (simp add: append_bytes_def split: option.split node.split)

lemma dir_ok_truncate [simp]: "dir_ok d \<Longrightarrow> dir_ok (truncate_file d n k)"
  by (simp add: truncate_file_def split: option.split node.split)

lemma resize_append: "resize (int (length b)) (b @ c) = b"
  by (simp add: resize_def)

lemma file_size_bytes: "file_bytes d n = Some b \<Longrightarrow> file_size d n = int (length b)"
  by (simp add: file_size_def)

section \<open>Opening, removing, renaming\<close>

text \<open>\<open>O_CREATE\<close> with \<open>O_APPEND\<close>: the file is there afterwards; \<open>None\<close> is an error.\<close>

definition open_append :: "faults \<Rightarrow> dir \<Rightarrow> string \<Rightarrow> dir option" where
  "open_append io d n =
     (if io (OpenFile n) \<noteq> None then None
      else case look d n of
        None \<Rightarrow> Some (put d n (Reg []))
      | Some (Reg b) \<Rightarrow> Some d
      | Some (Subdir e) \<Rightarrow> None)"

definition open_trunc :: "faults \<Rightarrow> dir \<Rightarrow> string \<Rightarrow> dir option" where
  "open_trunc io d n =
     (if io (OpenFile n) \<noteq> None then None
      else case look d n of Some (Subdir e) \<Rightarrow> None | _ \<Rightarrow> Some (put d n (Reg [])))"

definition open_read :: "faults \<Rightarrow> dir \<Rightarrow> string \<Rightarrow> bytes option" where
  "open_read io d n = (if io (OpenFile n) \<noteq> None then None else file_bytes d n)"

definition remove :: "faults \<Rightarrow> dir \<Rightarrow> string \<Rightarrow> dir option" where
  "remove io d n =
     (if io (RemoveFile n) \<noteq> None then None
      else case look d n of
        Some (Reg b) \<Rightarrow> Some (del d n)
      | Some (Subdir True) \<Rightarrow> Some (del d n)
      | _ \<Rightarrow> None)"

text \<open>\<open>os.Rename\<close> of a file onto a name replaces a file there and fails on a directory.\<close>

definition rename :: "faults \<Rightarrow> dir \<Rightarrow> string \<Rightarrow> string \<Rightarrow> dir option" where
  "rename io d old new =
     (if io (RenameFile old) \<noteq> None then None
      else case (look d old, look d new) of
        (Some (Reg b), Some (Subdir e)) \<Rightarrow> None
      | (Some (Reg b), _) \<Rightarrow> Some (put (del d old) new (Reg b))
      | _ \<Rightarrow> None)"

lemma open_append_no_faults:
  "open_append no_faults d n =
     (case look d n of None \<Rightarrow> Some (put d n (Reg [])) | Some (Reg b) \<Rightarrow> Some d | Some (Subdir e) \<Rightarrow> None)"
  by (simp add: open_append_def)

lemma open_append_ok: "open_append io d n = Some d' \<Longrightarrow> dir_ok d \<Longrightarrow>
    dir_ok d' \<and> file_bytes d' n = Some (case file_bytes d n of None \<Rightarrow> [] | Some b \<Rightarrow> b)
    \<and> (\<forall>m. m \<noteq> n \<longrightarrow> look d' m = look d m)"
  by (auto simp: open_append_def file_bytes_def look_put split: if_splits option.splits node.splits)

lemma remove_ok: "remove io d n = Some d' \<Longrightarrow> d' = del d n \<and> look d n \<noteq> None"
  by (auto simp: remove_def split: if_splits option.splits node.splits bool.splits)

lemma rename_ok: "rename io d old new = Some d' \<Longrightarrow>
    \<exists>b. look d old = Some (Reg b) \<and> d' = put (del d old) new (Reg b)"
  by (auto simp: rename_def split: if_splits option.splits node.splits)

end
