(* ===== verification/Spool_Files.thy ===== *)
theory Spool_Files
  imports Files Go_Time_Parse "HOL-Library.Product_Lexorder"
begin

text \<open>
  The names of \<open>internal/agent/spool.go\<close>: one file per UTC day, plain or compressed, listed in
  the order of their dates (\<open>listSpoolFiles\<close>, \<open>plainNames\<close>), the positions in them, and the
  binary search that finds a position's file. The lemmas show the plain names come out strictly
  sorted and the search finds the first name that is not smaller.
\<close>

section \<open>Names and positions\<close>

definition spool_prefix :: string where "spool_prefix = ''spool-''"

definition dead_letter_prefix :: string where "dead_letter_prefix = ''dead-letter-''"

definition jsonl_suffix :: string where "jsonl_suffix = ''.jsonl''"

definition gz_suffix :: string where "gz_suffix = ''.gz''"

definition offset_file_name :: string where "offset_file_name = ''.offset''"

lemmas name_defs = spool_prefix_def dead_letter_prefix_def jsonl_suffix_def gz_suffix_def offset_file_name_def

record position =
  po_file :: string
  po_offset :: int

definition pos_less :: "position \<Rightarrow> position \<Rightarrow> bool" where
  "pos_less p q =
     (if po_file p \<noteq> po_file q then po_file p < po_file q else po_offset p < po_offset q)"

record spool_file =
  sf_name :: string
  sf_date :: string
  sf_size :: int
  sf_gz :: bool

definition spool_name :: "gtime \<Rightarrow> string" where
  "spool_name t = spool_prefix @ format_date t @ jsonl_suffix"

definition is_spool_plain_name :: "string \<Rightarrow> bool" where
  "is_spool_plain_name name =
     (if \<not> has_prefix name spool_prefix \<or> \<not> has_suffix name jsonl_suffix then False
      else valid_date (trim_suffix (trim_prefix name spool_prefix) jsonl_suffix))"

section \<open>Listing\<close>

text \<open>One entry of \<open>ReadDir\<close>; \<open>None\<close> where the loop continues without it.\<close>

definition spool_entry :: "faults \<Rightarrow> string \<times> node \<Rightarrow> spool_file option" where
  "spool_entry io e =
     (let name = fst e; gz = has_suffix name (jsonl_suffix @ gz_suffix)
      in case snd e of
           Subdir _ \<Rightarrow> None
         | Reg b \<Rightarrow>
             if \<not> (gz \<or> is_spool_plain_name name) then None
             else
               let date = trim_suffix (trim_suffix (trim_prefix name spool_prefix) gz_suffix) jsonl_suffix
               in if \<not> valid_date date \<or> \<not> has_prefix name spool_prefix then None
                  else if io (StatFile name) \<noteq> None then None
                  else Some \<lparr>sf_name = name, sf_date = date, sf_size = int (length b), sf_gz = gz\<rparr>)"

text \<open>By date, a plain file before the compressed one of the same date.\<close>

definition list_spool_files :: "faults \<Rightarrow> dir \<Rightarrow> spool_file list" where
  "list_spool_files io d =
     (if io ReadDirectory \<noteq> None then []
      else sort_key (\<lambda>f. (sf_date f, sf_gz f)) (List.map_filter (spool_entry io) d))"

definition plain_names :: "faults \<Rightarrow> dir \<Rightarrow> string list" where
  "plain_names io d = map sf_name (filter (\<lambda>f. \<not> sf_gz f) (list_spool_files io d))"

text \<open>The loop of \<open>sort.Search\<close> with the predicate of \<open>sort.SearchStrings\<close>.\<close>

function search_loop :: "string list \<Rightarrow> string \<Rightarrow> nat \<Rightarrow> nat \<Rightarrow> nat" where
  "search_loop ns x i j =
     (if i < j
      then let h = (i + j) div 2
           in if \<not> x \<le> ns ! h then search_loop ns x (h + 1) j else search_loop ns x i h
      else i)"
  by pat_completeness auto
termination
  by (relation "measure (\<lambda>(ns, x, i, j). j - i)") auto

declare search_loop.simps [simp del]

definition search_strings :: "string list \<Rightarrow> string \<Rightarrow> nat" where
  "search_strings ns x = search_loop ns x 0 (length ns)"

section \<open>The search\<close>

lemma search_loop_spec:
  assumes "sorted_wrt (<) ns" "j \<le> length ns" "i \<le> j"
    "\<forall>k<i. ns ! k < x" "\<forall>k. j \<le> k \<and> k < length ns \<longrightarrow> x \<le> ns ! k"
  shows "i \<le> search_loop ns x i j \<and> search_loop ns x i j \<le> j \<and>
    (\<forall>k<search_loop ns x i j. ns ! k < x) \<and>
    (\<forall>k. search_loop ns x i j \<le> k \<and> k < length ns \<longrightarrow> x \<le> ns ! k)"
  using assms
proof (induction ns x i j rule: search_loop.induct)
  case (1 ns x i j)
  show ?case
  proof (cases "i < j")
    case False
    then have "search_loop ns x i j = i" by (simp add: search_loop.simps [of ns x i j])
    with False "1.prems" show ?thesis by auto
  next
    case True
    define h where "h = (i + j) div 2"
    have h: "i \<le> h" "h < j" using True by (auto simp: h_def)
    have mono: "a < b \<Longrightarrow> b < length ns \<Longrightarrow> ns ! a < ns ! b" for a b
      using "1.prems"(1) by (simp add: sorted_wrt_nth_less)
    show ?thesis
    proof (cases "x \<le> ns ! h")
      case True
      have "\<forall>k. h \<le> k \<and> k < length ns \<longrightarrow> x \<le> ns ! k"
        using True mono [of h] by (metis le_neq_implies_less less_imp_le order_trans)
      with "1.IH"(2) [OF \<open>i < j\<close> h_def] True "1.prems" h show ?thesis
        by (simp add: search_loop.simps [of ns x i j] h_def [symmetric] Let_def)
    next
      case False
      have "\<forall>k<h + 1. ns ! k < x"
        using False mono [of _ h] h "1.prems"(2) by (metis less_antisym less_trans not_le_imp_less order_less_le_trans Suc_eq_plus1)
      with "1.IH"(1) [OF \<open>i < j\<close> h_def False] "1.prems" h show ?thesis
        by (simp add: search_loop.simps [of ns x i j] h_def [symmetric] Let_def False)
    qed
  qed
qed

lemma search_strings_spec:
  assumes "sorted_wrt (<) ns"
  shows "take (search_strings ns x) ns = filter (\<lambda>n. n < x) ns"
    and "drop (search_strings ns x) ns = filter (\<lambda>n. x \<le> n) ns"
    and "search_strings ns x \<le> length ns"
proof -
  let ?i = "search_strings ns x"
  have spec: "?i \<le> length ns" "\<forall>k<?i. ns ! k < x" "\<forall>k. ?i \<le> k \<and> k < length ns \<longrightarrow> x \<le> ns ! k"
    using search_loop_spec [OF assms order.refl le0, of x] leD by (fastforce simp: search_strings_def)+
  have lt: "\<forall>n\<in>set (take ?i ns). n < x" and ge: "\<forall>n\<in>set (drop ?i ns). x \<le> n"
    using spec by (auto simp: in_set_conv_nth)
  have "filter P ns = filter P (take ?i ns) @ filter P (drop ?i ns)" for P
    by (metis append_take_drop_id filter_append)
  then show "take ?i ns = filter (\<lambda>n. n < x) ns" "drop ?i ns = filter (\<lambda>n. x \<le> n) ns"
    using lt ge by (fastforce simp: filter_id_conv filter_empty_conv)+
  show "?i \<le> length ns" by (rule spec(1))
qed

section \<open>What is listed\<close>

definition plain_of :: "string \<Rightarrow> string" where
  "plain_of date = spool_prefix @ date @ jsonl_suffix"

definition gz_of :: "string \<Rightarrow> string" where
  "gz_of date = spool_prefix @ date @ jsonl_suffix @ gz_suffix"

lemma suffix_of_append: "has_suffix (a @ r) p \<Longrightarrow> length p \<le> length r \<Longrightarrow> has_suffix r p"
  by (simp add: has_suffix_def)

lemma is_spool_plain_name_iff: "is_spool_plain_name n \<longleftrightarrow> (\<exists>date. valid_date date \<and> n = plain_of date)"
proof
  assume n: "is_spool_plain_name n"
  then obtain r where r: "n = spool_prefix @ r" and suf: "has_suffix n jsonl_suffix"
    and v: "valid_date (trim_suffix r jsonl_suffix)"
    by (auto simp: is_spool_plain_name_def has_prefix_iff split: if_splits)
  have "length (trim_suffix r jsonl_suffix) \<le> length r" by (simp add: trim_suffix_def)
  with valid_dateD [OF v] have "length jsonl_suffix \<le> length r" by (simp add: jsonl_suffix_def)
  with suf r have "has_suffix r jsonl_suffix" by (auto dest: suffix_of_append)
  then obtain x where "r = x @ jsonl_suffix" by (auto simp: has_suffix_iff)
  with v r show "\<exists>date. valid_date date \<and> n = plain_of date" by (auto simp: plain_of_def)
next
  assume "\<exists>date. valid_date date \<and> n = plain_of date"
  then obtain date where d: "valid_date date" "n = plain_of date" by blast
  then have "has_suffix n jsonl_suffix"
    using has_suffix_append [of "spool_prefix @ date" jsonl_suffix] by (simp add: plain_of_def)
  with d show "is_spool_plain_name n" by (simp add: is_spool_plain_name_def plain_of_def)
qed

lemma plain_not_gz [simp]: "\<not> has_suffix (plain_of date) (jsonl_suffix @ gz_suffix)"
proof
  assume "has_suffix (plain_of date) (jsonl_suffix @ gz_suffix)"
  then obtain x where "spool_prefix @ date @ jsonl_suffix = x @ jsonl_suffix @ gz_suffix"
    by (auto simp: has_suffix_iff plain_of_def)
  then have "last jsonl_suffix = last gz_suffix"
    by (metis append_assoc gz_suffix_def jsonl_suffix_def last_append list.distinct(1))
  then show False by (simp add: name_defs)
qed

lemma plain_name_of [simp]: "valid_date date \<Longrightarrow> is_spool_plain_name (plain_of date)"
  by (auto simp: is_spool_plain_name_iff)

lemma plain_of_date [simp]:
  assumes "valid_date date"
  shows "trim_suffix (trim_suffix (trim_prefix (plain_of date) spool_prefix) gz_suffix) jsonl_suffix = date"
proof -
  have "\<not> has_suffix (date @ jsonl_suffix) gz_suffix"
    by (auto simp: has_suffix_iff name_defs append_eq_append_conv2 Cons_eq_append_conv)
  then show ?thesis by (simp add: plain_of_def trim_suffix_def [of "date @ jsonl_suffix" gz_suffix])
qed

lemma gz_of_date [simp]:
  "trim_suffix (trim_suffix (trim_prefix (gz_of date) spool_prefix) gz_suffix) jsonl_suffix = date"
  using trim_suffix_append [of "date @ jsonl_suffix" gz_suffix] by (simp add: gz_of_def)

lemma gz_nameE:
  assumes "has_suffix n (jsonl_suffix @ gz_suffix)" "has_prefix n spool_prefix"
    "valid_date (trim_suffix (trim_suffix (trim_prefix n spool_prefix) gz_suffix) jsonl_suffix)"
  obtains date where "n = gz_of date"
proof -
  obtain r where r: "n = spool_prefix @ r" using assms(2) by (auto simp: has_prefix_iff)
  show ?thesis
  proof (cases "length (jsonl_suffix @ gz_suffix) \<le> length r")
    case True
    with assms(1) r have "has_suffix r (jsonl_suffix @ gz_suffix)" by (auto dest: suffix_of_append)
    then show ?thesis using that r by (auto simp: has_suffix_iff gz_of_def)
  next
    case False
    have "length (trim_suffix (trim_suffix r gz_suffix) jsonl_suffix) \<le> length r"
      by (simp add: trim_suffix_def)
    moreover have "length (trim_suffix (trim_suffix r gz_suffix) jsonl_suffix) = 10"
      using valid_dateD [OF assms(3)] unfolding r by (simp only: trim_prefix_append)
    moreover have "length (jsonl_suffix @ gz_suffix) = 9" by (simp add: name_defs)
    ultimately show ?thesis using False by linarith
  qed
qed

lemma spool_entry_Some_iff:
  "spool_entry io (n, x) = Some f \<longleftrightarrow>
   (\<exists>date b gz. x = Reg b \<and> io (StatFile n) = None \<and> valid_date date
      \<and> n = (if gz then gz_of date else plain_of date)
      \<and> f = \<lparr>sf_name = n, sf_date = date, sf_size = int (length b), sf_gz = gz\<rparr>)"
  (is "?l \<longleftrightarrow> ?r")
proof
  assume ?l
  then obtain b where b: "x = Reg b" "io (StatFile n) = None" "has_prefix n spool_prefix"
    "has_suffix n (jsonl_suffix @ gz_suffix) \<or> is_spool_plain_name n"
    "valid_date (trim_suffix (trim_suffix (trim_prefix n spool_prefix) gz_suffix) jsonl_suffix)"
    "f = \<lparr>sf_name = n, 
          sf_date = trim_suffix (trim_suffix (trim_prefix n spool_prefix) gz_suffix) jsonl_suffix,
          sf_size = int (length b), sf_gz = has_suffix n (jsonl_suffix @ gz_suffix)\<rparr>"
    by (auto simp: spool_entry_def Let_def split: node.splits if_splits)
  show ?r
  proof (cases "has_suffix n (jsonl_suffix @ gz_suffix)")
    case True
    obtain date where "n = gz_of date" using gz_nameE [OF True b(3,5)] .
    with b True show ?thesis by (intro exI [of _ date] exI [of _ b] exI [of _ True]) simp
  next
    case False
    with b(4) obtain date where "n = plain_of date" "valid_date date" by (auto simp: is_spool_plain_name_iff)
    with b False show ?thesis by (intro exI [of _ date] exI [of _ b] exI [of _ False]) simp
  qed
next
  assume ?r
  then obtain date b gz where e: "x = Reg b" "io (StatFile n) = None" "valid_date date"
    "n = (if gz then gz_of date else plain_of date)"
    "f = \<lparr>sf_name = n, sf_date = date, sf_size = int (length b), sf_gz = gz\<rparr>" by blast
  have p: "has_prefix n spool_prefix" using e(4) by (simp add: plain_of_def gz_of_def)
  have "has_suffix (gz_of date) (jsonl_suffix @ gz_suffix)"
    using has_suffix_append [of "spool_prefix @ date" "jsonl_suffix @ gz_suffix"] by (simp add: gz_of_def)
  with p e show ?l by (cases gz) (simp_all add: spool_entry_def Let_def)
qed

text \<open>The key of the sort determines the name, so the order of the listing is unique.\<close>

definition sf_key :: "spool_file \<Rightarrow> string \<times> bool" where
  "sf_key f = (sf_date f, sf_gz f)"

definition sf_ok :: "spool_file \<Rightarrow> bool" where
  "sf_ok f \<longleftrightarrow> valid_date (sf_date f)
     \<and> sf_name f = (if sf_gz f then gz_of (sf_date f) else plain_of (sf_date f))"

lemma sf_key_name: "sf_ok f \<Longrightarrow> sf_ok g \<Longrightarrow> sf_key f = sf_key g \<Longrightarrow> sf_name f = sf_name g"
  by (simp add: sf_ok_def sf_key_def)

lemma spool_entry_sf_ok: "spool_entry io e = Some f \<Longrightarrow> sf_ok f \<and> sf_name f = fst e"
  by (cases e) (auto simp: spool_entry_Some_iff sf_ok_def)

definition spool_entries :: "faults \<Rightarrow> dir \<Rightarrow> spool_file list" where
  "spool_entries io d = List.map_filter (spool_entry io) d"

lemma spool_entries_simps [simp]:
  "spool_entries io [] = []"
  "spool_entries io (e # d) = (case spool_entry io e of None \<Rightarrow> spool_entries io d | Some f \<Rightarrow> f # spool_entries io d)"
  by (simp_all add: spool_entries_def map_filter_simps split: option.split)

lemma set_spool_entries: "f \<in> set (spool_entries io d) \<longleftrightarrow> (\<exists>e\<in>set d. spool_entry io e = Some f)"
  by (induction d) (auto split: option.splits)

lemma spool_entries_ok: "f \<in> set (spool_entries io d) \<Longrightarrow> sf_ok f \<and> sf_name f \<in> set (names d)"
  by (auto simp: set_spool_entries dest!: spool_entry_sf_ok)

lemma distinct_keys: "dir_ok d \<Longrightarrow> distinct (map sf_key (spool_entries io d))"
proof (induction d)
  case (Cons e d)
  then have IH: "distinct (map sf_key (spool_entries io d))" and lt: "\<forall>n\<in>set (names d). fst e < n"
    by (simp_all add: dir_ok_def)
  show ?case
  proof (cases "spool_entry io e")
    case (Some f)
    have "sf_key f \<notin> sf_key ` set (spool_entries io d)"
    proof
      assume "sf_key f \<in> sf_key ` set (spool_entries io d)"
      then obtain g where g: "g \<in> set (spool_entries io d)" "sf_key f = sf_key g" by auto
      from sf_key_name [OF _ _ g(2)] spool_entry_sf_ok [OF Some] spool_entries_ok [OF g(1)] lt
      show False by auto
    qed
    with IH Some show ?thesis by simp
  qed (use IH in simp)
qed simp

lemma list_spool_files_sorted:
  assumes "dir_ok d"
  shows "sorted_wrt (\<lambda>f g. sf_key f < sf_key g) (list_spool_files io d)"
proof -
  let ?l = "sort_key sf_key (spool_entries io d)"
  have "distinct (map sf_key ?l)" using distinct_keys [OF assms, of io] by (simp add: distinct_map)
  moreover have "sorted (map sf_key ?l)" by simp
  ultimately have "sorted_wrt (<) (map sf_key ?l)" by (simp add: strict_sorted_iff)
  then show ?thesis
    by (simp add: list_spool_files_def spool_entries_def sf_key_def [abs_def] sorted_wrt_map)
qed

lemma list_spool_files_ok: "f \<in> set (list_spool_files io d) \<Longrightarrow> sf_ok f \<and> sf_name f \<in> set (names d)"
  by (auto simp: list_spool_files_def spool_entries_def [symmetric] dest!: spool_entries_ok split: if_splits)

lemma plain_of_less_iff: "valid_date a \<Longrightarrow> valid_date b \<Longrightarrow> plain_of a < plain_of b \<longleftrightarrow> a < b"
  using valid_dateD [of a] valid_dateD [of b]
  by (auto simp: plain_of_def append_less_iff [of spool_prefix] append_less_iff [of a b])

lemma plain_names_sorted:
  assumes "dir_ok d"
  shows "sorted_wrt (<) (plain_names io d)"
proof -
  have "sorted_wrt (\<lambda>f g. sf_key f < sf_key g) (filter (\<lambda>f. \<not> sf_gz f) (list_spool_files io d))"
    using list_spool_files_sorted [OF assms] by (rule sorted_wrt_filter)
  then have "sorted_wrt (\<lambda>f g. sf_name f < sf_name g) (filter (\<lambda>f. \<not> sf_gz f) (list_spool_files io d))"
    by (rule sorted_wrt_mono_rel [rotated])
       (auto dest!: list_spool_files_ok simp: sf_ok_def sf_key_def plain_of_less_iff)
  then show ?thesis by (simp add: plain_names_def sorted_wrt_map)
qed

lemma plain_names_mem:
  assumes "dir_ok d"
  shows "n \<in> set (plain_names io d) \<longleftrightarrow>
    io ReadDirectory = None \<and> io (StatFile n) = None \<and> is_spool_plain_name n \<and> (\<exists>b. look d n = Some (Reg b))"
proof -
  have "n \<in> set (plain_names io d) \<longleftrightarrow>
      io ReadDirectory = None \<and> (\<exists>x f. (n, x) \<in> set d \<and> spool_entry io (n, x) = Some f \<and> \<not> sf_gz f)"
  proof -
    have "n \<in> set (plain_names io d) \<longleftrightarrow>
        io ReadDirectory = None \<and> (\<exists>f. f \<in> set (spool_entries io d) \<and> \<not> sf_gz f \<and> n = sf_name f)"
      by (auto simp: plain_names_def list_spool_files_def spool_entries_def [symmetric])
    then show ?thesis unfolding set_spool_entries using spool_entry_sf_ok by fastforce
  qed
  also have "\<dots> \<longleftrightarrow> io ReadDirectory = None \<and> io (StatFile n) = None \<and> is_spool_plain_name n
      \<and> (\<exists>b. look d n = Some (Reg b))"
  proof -
    have "(\<exists>f. spool_entry io (n, x) = Some f \<and> \<not> sf_gz f)
        \<longleftrightarrow> io (StatFile n) = None \<and> is_spool_plain_name n \<and> (\<exists>b. x = Reg b)" for x
    proof
      assume "io (StatFile n) = None \<and> is_spool_plain_name n \<and> (\<exists>b. x = Reg b)"
      then obtain date b where "io (StatFile n) = None" "valid_date date" "n = plain_of date" "x = Reg b"
        by (auto simp: is_spool_plain_name_iff)
      then have "spool_entry io (n, x) =
          Some \<lparr>sf_name = n, sf_date = date, sf_size = int (length b), sf_gz = False\<rparr>"
        unfolding spool_entry_Some_iff by (intro exI [of _ date] exI [of _ b] exI [of _ False]) simp
      then show "\<exists>f. spool_entry io (n, x) = Some f \<and> \<not> sf_gz f" by auto
    qed (auto simp: spool_entry_Some_iff is_spool_plain_name_iff)
    then show ?thesis using look_member [OF assms] by metis
  qed
  finally show ?thesis .
qed

lemma spool_name_plain: "four_digit t \<Longrightarrow> is_spool_plain_name (spool_name t)"
  using valid_format_date [of t] by (auto simp: is_spool_plain_name_iff spool_name_def plain_of_def)

lemma spool_name_less_iff: "four_digit t \<Longrightarrow> four_digit u \<Longrightarrow> spool_name t < spool_name u \<longleftrightarrow> day_of t < day_of u"
  using plain_of_less_iff [of "format_date t" "format_date u"]
  by (simp add: spool_name_def plain_of_def valid_format_date format_date_less_iff)

text \<open>The order on positions is a strict linear order.\<close>

lemma pos_less_linear: "pos_less p q \<or> p = q \<or> pos_less q p"
  by (cases p, cases q) (auto simp: pos_less_def)

lemma pos_less_irrefl [simp]: "\<not> pos_less p p"
  by (simp add: pos_less_def)

lemma pos_less_trans: "pos_less p q \<Longrightarrow> pos_less q r \<Longrightarrow> pos_less p r"
  by (auto simp: pos_less_def split: if_splits)

end
