(* ===== verification/Spool.thy ===== *)
theory Spool
  imports Spool_Files Go_Json
begin

text \<open>
  The spool of \<open>internal/agent/spool.go\<close>: the writer's open file, the reader's positions and
  the directory they share; appending a line, reading a batch of lines from the committed
  position, and the sizes reported in heartbeats. Each operation runs under its mutex, so it is a
  function from the state before to the state after, with the error it returns.
\<close>

section \<open>State\<close>

record spool =
  sp_files :: dir
  sp_cur :: bool \<comment> \<open>a file is open for writing, by the name \<open>sp_cur_name\<close>\<close>
  sp_cur_name :: string
  sp_cur_size :: int
  sp_unsynced :: int
  sp_committed :: position
  sp_inflight :: position

definition sync_every_n :: int where "sync_every_n = 100"

type_synonym 'a outcome = "spool \<times> 'a"

text \<open>The state after \<open>OpenSpool\<close>: no file is open, the reader stands at a position.\<close>

definition zero_position :: position where
  "zero_position = \<lparr>po_file = [], po_offset = 0\<rparr>"

definition new_spool :: "dir \<Rightarrow> position \<Rightarrow> spool" where
  "new_spool d p =
     \<lparr>sp_files = d, sp_cur = False, sp_cur_name = [], sp_cur_size = 0, sp_unsynced = 0,
      sp_committed = p, sp_inflight = p\<rparr>"

text \<open>A small spool of two days and three events, used in examples.\<close>

definition example_dir :: dir where
  "example_dir =
     [(''.offset'', Reg ''{}''),
      (''spool-2024-02-28.jsonl'', Reg (''{}'' @ [nl])),
      (''spool-2024-02-29.jsonl'', Reg (''[1]'' @ [nl] @ ''[2]'' @ [nl]))]"

definition example_spool :: spool where
  "example_spool = new_spool example_dir zero_position"

lemma example_dir_ok [simp]: "dir_ok example_dir"
  by (simp add: dir_ok_def example_dir_def)

lemma example_spool_simps [simp]:
  "sp_files example_spool = example_dir" "sp_committed example_spool = zero_position"
  "po_offset zero_position = 0"
  by (simp_all add: example_spool_def new_spool_def zero_position_def)

section \<open>Writing\<close>

definition call_error :: "faults \<Rightarrow> syscall \<Rightarrow> syscall option" where
  "call_error io c = (if io c = None then None else Some c)"

definition sync_locked :: "faults \<Rightarrow> spool \<Rightarrow> spool \<times> syscall option" where
  "sync_locked io s =
     (if \<not> sp_cur s \<or> sp_unsynced s = 0 then (s, None)
      else (s\<lparr>sp_unsynced := 0\<rparr>, call_error io (SyncFile (sp_cur_name s))))"

text \<open>The name that is opened: the first file of a run may already be a later day's.\<close>

definition open_name :: "faults \<Rightarrow> string \<Rightarrow> spool \<Rightarrow> string" where
  "open_name io name s =
     (if \<not> sp_cur s
      then let ns = plain_names io (sp_files s) in if ns \<noteq> [] \<and> name < last ns then last ns else name
      else name)"

definition close_current :: "faults \<Rightarrow> spool \<Rightarrow> spool" where
  "close_current io s = (if \<not> sp_cur s then s else (fst (sync_locked io s))\<lparr>sp_cur := False\<rparr>)"

definition open_locked :: "faults \<Rightarrow> string \<Rightarrow> spool \<Rightarrow> spool \<times> syscall option" where
  "open_locked io name s =
     (let name = open_name io name s; s = close_current io s
      in case open_append io (sp_files s) name of
           None \<Rightarrow> (s, Some (OpenFile name))
         | Some d \<Rightarrow>
             if io (StatFile name) \<noteq> None then (s\<lparr>sp_files := d\<rparr>, Some (StatFile name))
             else (s\<lparr>sp_files := d, sp_cur := True, sp_cur_name := name,
                     sp_cur_size := file_size d name, sp_unsynced := 0\<rparr>, None))"

text \<open>
  Once the file is open: a failed write is cut off again, as far as \<open>Truncate\<close> succeeds (its
  error is ignored).
\<close>

definition write_locked :: "faults \<Rightarrow> bytes \<Rightarrow> spool \<Rightarrow> spool \<times> syscall option" where
  "write_locked io line s =
     (let n = sp_cur_name s
      in case io (WriteFile n) of
           Some k \<Rightarrow>
             let d = append_bytes (sp_files s) n (take k line)
             in (s\<lparr>sp_files := (if io (TruncateFile n) = None then truncate_file d n (sp_cur_size s) else d)\<rparr>,
                 Some (WriteFile n))
         | None \<Rightarrow>
             let s = s\<lparr>sp_files := append_bytes (sp_files s) n line,
                       sp_cur_size := sp_cur_size s + int (length line),
                       sp_unsynced := sp_unsynced s + 1\<rparr>
             in if sync_every_n \<le> sp_unsynced s then sync_locked io s else (s, None))"

definition append_line :: "faults \<Rightarrow> gtime \<Rightarrow> bytes \<Rightarrow> spool \<Rightarrow> spool \<times> syscall option" where
  "append_line io t line s =
     (if io WriteHook \<noteq> None then (s, Some WriteHook)
      else
        case (if \<not> sp_cur s \<or> sp_cur_name s < spool_name t then open_locked io (spool_name t) s else (s, None)) of
          (s, Some e) \<Rightarrow> (s, Some e)
        | (s, None) \<Rightarrow> write_locked io line s)"

definition close_spool :: "faults \<Rightarrow> spool \<Rightarrow> spool \<times> syscall option" where
  "close_spool io s =
     (if \<not> sp_cur s then (s, None)
      else ((fst (sync_locked io s))\<lparr>sp_cur := False\<rparr>, call_error io (CloseFile (sp_cur_name s))))"

section \<open>Reading\<close>

text \<open>
  The loop of \<open>readFrom\<close> over the bytes that follow the position: the new offset, the lines
  read so far, and the result, an error or whether the end of the file was reached.
\<close>

function read_lines ::
  "faults \<Rightarrow> string \<Rightarrow> int \<Rightarrow> bytes \<Rightarrow> int \<Rightarrow> bytes list \<Rightarrow> int \<times> bytes list \<times> (syscall + bool)" where
  "read_lines io n mx rest off lines =
     (if \<not> int (length lines) < mx then (off, lines, Inr False)
      else if io (ReadFile n off) \<noteq> None then (off, lines, Inl (ReadFile n off))
      else case cut_line rest of
        None \<Rightarrow> (off, lines, Inr True)
      | Some (line, rest') \<Rightarrow>
          let off' = off + int (length line); body = trim_right line [cr, nl]
          in if body = [] then read_lines io n mx rest' off' lines
             else if \<not> json_valid body then read_lines io n mx rest' off' lines
             else read_lines io n mx rest' off' (lines @ [body]))"
  by pat_completeness auto
termination
  by (relation "measure (\<lambda>(io, n, mx, rest, off, lines). length rest)") (auto dest: cut_line_length)

declare read_lines.simps [simp del]

definition read_from ::
  "faults \<Rightarrow> dir \<Rightarrow> int \<Rightarrow> position \<Rightarrow> bytes list \<Rightarrow> position \<times> bytes list \<times> (syscall + bool)" where
  "read_from io d mx pos lines =
     (case open_read io d (po_file pos) of
        None \<Rightarrow> (pos, lines, Inl (OpenFile (po_file pos)))
      | Some b \<Rightarrow>
          if io (StatFile (po_file pos)) \<noteq> None then (pos, lines, Inl (StatFile (po_file pos)))
          else
            let off = (if int (length b) < po_offset pos then 0 else po_offset pos);
                (off', lines', res) = read_lines io (po_file pos) mx (drop_int off b) off lines
            in (pos\<lparr>po_offset := off'\<rparr>, lines', res))"

text \<open>
  The loop of \<open>readBatch\<close> over the files. Each round goes on to a later file, so one round per
  name and one more are enough; \<open>None\<close> stands for more rounds than that.
\<close>

fun read_files ::
  "nat \<Rightarrow> faults \<Rightarrow> dir \<Rightarrow> string list \<Rightarrow> int \<Rightarrow> position \<Rightarrow> bytes list
   \<Rightarrow> (position \<times> bytes list \<times> syscall option) option" where
  "read_files 0 io d ns mx pos lines = None"
| "read_files (Suc fuel) io d ns mx pos lines =
     (if \<not> int (length lines) < mx then Some (pos, lines, None)
      else
        let idx = search_strings ns (po_file pos)
        in if idx = length ns then Some (pos, lines, None)
           else
             let pos = (if ns ! idx \<noteq> po_file pos then \<lparr>po_file = ns ! idx, po_offset = 0\<rparr> else pos)
             in case read_from io d mx pos lines of
                  (pos, lines, Inl e) \<Rightarrow> Some (pos, lines, Some e)
                | (pos, lines, Inr eof) \<Rightarrow>
                    if \<not> eof \<or> idx = length ns - 1 then Some (pos, lines, None)
                    else read_files fuel io d ns mx \<lparr>po_file = ns ! (idx + 1), po_offset = 0\<rparr> lines)"

definition read_batch ::
  "faults \<Rightarrow> int \<Rightarrow> bool \<Rightarrow> spool \<Rightarrow> (spool \<times> bytes list \<times> position \<times> syscall option) option" where
  "read_batch io mx allow_partial s =
     (let ns = plain_names io (sp_files s)
      in map_option
           (\<lambda>(pos, lines, err).
              case err of
                Some e \<Rightarrow> (s, [], sp_committed s, Some e)
              | None \<Rightarrow>
                  if int (length lines) < mx \<and> \<not> allow_partial then (s, [], sp_committed s, None)
                  else (if lines \<noteq> [] then s\<lparr>sp_inflight := pos\<rparr> else s, lines, pos, None))
           (read_files (Suc (length ns)) io (sp_files s) ns mx (sp_committed s) []))"

definition ReadBatch :: "faults \<Rightarrow> int \<Rightarrow> spool \<Rightarrow> (spool \<times> bytes list \<times> position \<times> syscall option) option" where
  "ReadBatch io mx s = read_batch io mx True s"

definition ReadReadyBatch ::
  "faults \<Rightarrow> int \<Rightarrow> bool \<Rightarrow> spool \<Rightarrow> (spool \<times> bytes list \<times> position \<times> syscall option) option" where
  "ReadReadyBatch io mx allow_partial s = read_batch io mx allow_partial s"

section \<open>Sizes\<close>

text \<open>The bytes not forwarded yet and the bytes of all files.\<close>

definition spool_sizes :: "faults \<Rightarrow> spool \<Rightarrow> int \<times> int" where
  "spool_sizes io s =
     (let c = sp_committed s
      in foldl (\<lambda>(backlog, total) f.
           (if sf_gz f \<or> sf_name f < po_file c then backlog
            else if sf_name f = po_file c then backlog + max (sf_size f - po_offset c) 0
            else backlog + sf_size f,
            total + sf_size f)) (0, 0) (list_spool_files io (sp_files s)))"

end
