(* ===== verification/Spool_Read.thy ===== *)
theory Spool_Read
  imports Spool Json_Facts
begin

text \<open>
  The reader's side of the spool against its specification: the events of a file are the bodies
  of its complete lines that are valid JSON, the pending events of a spool are the events from the
  committed position on, over all its files in the order of their dates, and \<open>readBatch\<close>
  returns the next of them and the position that follows them.
\<close>

section \<open>Specification\<close>

definition line_body :: "bytes \<Rightarrow> bytes" where
  "line_body l = trim_right l [cr, nl]"

definition line_events :: "bytes \<Rightarrow> bytes list" where
  "line_events b = filter (\<lambda>e. e \<noteq> [] \<and> json_valid e) (map line_body (lines_of b))"

definition events_at :: "dir \<Rightarrow> string \<Rightarrow> int \<Rightarrow> bytes list" where
  "events_at d n off =
     (case file_bytes d n of
        None \<Rightarrow> []
      | Some b \<Rightarrow> line_events (drop (nat (if int (length b) < off then 0 else off)) b))"

definition pending_from :: "dir \<Rightarrow> string list \<Rightarrow> position \<Rightarrow> bytes list" where
  "pending_from d ns pos =
     concat (map (\<lambda>n. events_at d n (if n = po_file pos then po_offset pos else 0))
       (filter (\<lambda>n. po_file pos \<le> n) ns))"

text \<open>The files as they are without I/O errors.\<close>

definition pending_at :: "dir \<Rightarrow> position \<Rightarrow> bytes list" where
  "pending_at d pos = pending_from d (plain_names no_faults d) pos"

definition pending :: "spool \<Rightarrow> bytes list" where
  "pending s = pending_at (sp_files s) (sp_committed s)"

lemma line_events_Nil [simp]: "line_events [] = []"
  by (simp add: line_events_def)

lemma line_events_None [line_simps]: "cut_line b = None \<Longrightarrow> line_events b = []"
  by (simp add: line_events_def lines_of_None)

lemma line_events_Some [line_simps]:
  "cut_line b = Some (l, r) \<Longrightarrow> line_events b =
     (if line_body l \<noteq> [] \<and> json_valid (line_body l) then line_body l # line_events r else line_events r)"
  by (simp add: line_events_def lines_of_Some)

lemma line_events_append [line_simps]:
  "complete b \<Longrightarrow> line_events (b @ c) = line_events b @ line_events c"
  by (simp add: line_events_def lines_of_append)

section \<open>One file\<close>

text \<open>What a run of the read loop means: the lines are the next events, the offset stays in the
  file, and what follows it are the events that were not read.\<close>

definition read_ok :: "bytes \<Rightarrow> int \<Rightarrow> nat \<Rightarrow> bytes list \<Rightarrow> int \<times> bytes list \<times> (syscall + bool) \<Rightarrow> bool" where
  "read_ok rest off mx lines res \<longleftrightarrow>
     (case res of (off', lines', r) \<Rightarrow>
        off \<le> off' \<and> off' \<le> off + int (length rest)
        \<and> lines' = lines @ take (mx - length lines) (line_events rest)
        \<and> line_events (drop (nat (off' - off)) rest) = drop (mx - length lines) (line_events rest)
        \<and> (case r of Inl e \<Rightarrow> False
           | Inr eof \<Rightarrow> if eof then length (line_events rest) < mx - length lines
                       else mx \<le> length lines'))"

lemma read_ok_skip:
  assumes "read_ok r (off + int (length l)) mx lines res" and "b = l @ r" and "line_events b = line_events r"
  shows "read_ok b off mx lines res"
proof -
  obtain off' lines' q where res: "res = (off', lines', q)" by (cases res)
  from assms(1) res have o: "off + int (length l) \<le> off'" by (simp add: read_ok_def)
  then have "nat (off' - off) = length l + nat (off' - (off + int (length l)))" by linarith
  then have "drop (nat (off' - off)) b = drop (nat (off' - (off + int (length l)))) r"
    by (simp add: assms(2))
  with assms res o show ?thesis by (auto simp: read_ok_def split: sum.splits)
qed

lemma read_ok_take:
  assumes "read_ok r (off + int (length l)) mx (lines @ [e]) res" and "b = l @ r"
    and "line_events b = e # line_events r" and "length lines < mx"
  shows "read_ok b off mx lines res"
proof -
  obtain off' lines' q where res: "res = (off', lines', q)" by (cases res)
  obtain k where k: "mx - length lines = Suc k" using assms(4) by (metis Suc_diff_Suc)
  from assms(1) res have o: "off + int (length l) \<le> off'" by (simp add: read_ok_def)
  then have "nat (off' - off) = length l + nat (off' - (off + int (length l)))" by linarith
  then have "drop (nat (off' - off)) b = drop (nat (off' - (off + int (length l)))) r"
    by (simp add: assms(2))
  moreover have "mx - Suc (length lines) = k" using k by simp
  ultimately show ?thesis
    using assms res o k by (auto simp: read_ok_def split: sum.splits if_splits)
qed

lemma read_lines_ok:
  assumes "\<And>k. io (ReadFile n k) = None"
  shows "read_ok rest off (nat mx) lines (read_lines io n mx rest off lines)"
  using assms
proof (induction io n mx rest off lines rule: read_lines.induct)
  case (1 io n mx rest off lines)
  note step = read_lines.simps [of io n mx rest off lines]
  show ?case
  proof (cases "int (length lines) < mx")
    case False
    then have "nat mx - length lines = 0" by simp
    with False show ?thesis by (simp add: step read_ok_def)
  next
    case True
    show ?thesis
    proof (cases "cut_line rest")
      case None
      with True show ?thesis
        by (simp add: step read_ok_def "1.prems" line_events_None)
    next
      case (Some p)
      obtain l r where p: "p = (l, r)" by (cases p)
      have c: "cut_line rest = Some (l, r)" using Some p by simp
      have rest: "rest = l @ r" using cut_line_split [OF c] by simp
      note IH = "1.IH" [OF _ _ c refl refl refl]
      show ?thesis
      proof (cases "line_body l \<noteq> [] \<and> json_valid (line_body l)")
        case False
        then have "read_lines io n mx rest off lines = read_lines io n mx r (off + int (length l)) lines"
          using True c by (auto simp: step "1.prems" line_body_def Let_def)
        moreover have "read_ok r (off + int (length l)) (nat mx) lines
            (read_lines io n mx r (off + int (length l)) lines)"
          using False True "1.prems" IH(1,2) by (auto simp: line_body_def)
        ultimately show ?thesis
          using False by (auto intro: read_ok_skip [OF _ rest] simp: line_events_Some [OF c])
      next
        case body: True
        then have "read_lines io n mx rest off lines
            = read_lines io n mx r (off + int (length l)) (lines @ [line_body l])"
          using True c by (simp add: step "1.prems" line_body_def Let_def)
        moreover have "read_ok r (off + int (length l)) (nat mx) (lines @ [line_body l])
            (read_lines io n mx r (off + int (length l)) (lines @ [line_body l]))"
          using body True "1.prems" IH(3) by (simp add: line_body_def)
        ultimately show ?thesis
          using body True by (auto intro: read_ok_take [OF _ rest] simp: line_events_Some [OF c])
      qed
    qed
  qed
qed

lemma read_from_ok:
  assumes "io (OpenFile n) = None" "io (StatFile n) = None" "\<And>k. io (ReadFile n k) = None"
    and "look d n = Some (Reg b)" and "0 \<le> off"
  obtains off' lines' eof where
    "read_from io d mx \<lparr>po_file = n, po_offset = off\<rparr> lines = (\<lparr>po_file = n, po_offset = off'\<rparr>, lines', Inr eof)"
    "0 \<le> off'" "off' \<le> int (length b)"
    "lines' = lines @ take (nat mx - length lines) (events_at d n off)"
    "events_at d n off' = drop (nat mx - length lines) (events_at d n off)"
    "eof \<Longrightarrow> length (events_at d n off) < nat mx - length lines"
    "\<not> eof \<Longrightarrow> nat mx \<le> length lines'"
proof -
  define o1 where "o1 = (if int (length b) < off then 0 else off)"
  have o1: "0 \<le> o1" "o1 \<le> int (length b)" using assms(5) by (auto simp: o1_def)
  have ev: "events_at d n off = line_events (drop (nat o1) b)"
    using assms(4) by (simp add: events_at_def file_bytes_def o1_def)
  obtain o2 lines' r where run: "read_lines io n mx (drop (nat o1) b) o1 lines = (o2, lines', r)"
    by (cases "read_lines io n mx (drop (nat o1) b) o1 lines")
  with read_lines_ok [of io n "drop (nat o1) b" o1 mx lines] assms(3)
  have ok: "read_ok (drop (nat o1) b) o1 (nat mx) lines (o2, lines', r)" by simp
  then obtain eof where r: "r = Inr eof" by (cases r) (auto simp: read_ok_def)
  have o2: "o1 \<le> o2" "o2 \<le> int (length b)" using ok o1 by (auto simp: read_ok_def)
  have "nat o1 + nat (o2 - o1) = nat o2" using o1 o2 by linarith
  then have "drop (nat (o2 - o1)) (drop (nat o1) b) = drop (nat o2) b" by (simp add: add.commute)
  moreover have "events_at d n o2 = line_events (drop (nat o2) b)"
    using assms(4) o2 by (simp add: events_at_def file_bytes_def)
  ultimately have "events_at d n o2 = drop (nat mx - length lines) (events_at d n off)"
    using ok by (simp add: read_ok_def ev)
  moreover have "read_from io d mx \<lparr>po_file = n, po_offset = off\<rparr> lines
      = (\<lparr>po_file = n, po_offset = o2\<rparr>, lines', Inr eof)"
    using assms run r by (cases "int (length b) < off") (simp_all add: read_from_def open_read_def file_bytes_def o1_def)
  ultimately show ?thesis using that [of o2 lines' eof] ok r o1 o2 ev by (cases eof) (auto simp: read_ok_def)
qed

section \<open>All files\<close>

lemma pending_from_none:
  assumes "sorted_wrt (<) ns" "search_strings ns (po_file pos) = length ns"
  shows "pending_from d ns pos = []"
  using search_strings_spec(2) [OF assms(1), of "po_file pos"] assms(2) by (simp add: pending_from_def)

text \<open>The events of the files from the \<open>i\<close>-th on.\<close>

definition events_after :: "dir \<Rightarrow> string list \<Rightarrow> nat \<Rightarrow> bytes list" where
  "events_after d ns i = concat (map (\<lambda>n. events_at d n 0) (drop i ns))"

lemma pending_from_at:
  assumes "sorted_wrt (<) ns" "search_strings ns (po_file pos) = i" "i < length ns"
  shows "pending_from d ns pos =
    events_at d (ns ! i) (if ns ! i = po_file pos then po_offset pos else 0) @ events_after d ns (i + 1)"
proof -
  have f: "filter (\<lambda>n. po_file pos \<le> n) ns = ns ! i # drop (i + 1) ns"
    using search_strings_spec(2) [OF assms(1), of "po_file pos"] assms(2,3)
    by (metis Cons_nth_drop_Suc Suc_eq_plus1)
  have "n \<noteq> po_file pos" if "n \<in> set (drop (i + 1) ns)" for n
  proof -
    have "ns ! i \<in> set (filter (\<lambda>n. po_file pos \<le> n) ns)" by (simp add: f)
    then have "po_file pos \<le> ns ! i" by simp
    moreover have "sorted_wrt (<) (ns ! i # drop (i + 1) ns)"
      using assms(1) f by (metis sorted_wrt_filter)
    ultimately show ?thesis using that by auto
  qed
  then have e: "map (\<lambda>n. events_at d n (if n = po_file pos then po_offset pos else 0)) (drop (i + 1) ns)
      = map (\<lambda>n. events_at d n 0) (drop (i + 1) ns)" by simp
  show ?thesis
    by (simp only: pending_from_def f list.map concat.simps e events_after_def)
qed

lemma search_nth:
  assumes "sorted_wrt (<) ns" "i < length ns"
  shows "search_strings ns (ns ! i) = i"
proof -
  let ?k = "search_strings ns (ns ! i)"
  have "take ?k ns = filter (\<lambda>n. n < ns ! i) ns" using search_strings_spec(1) [OF assms(1)] .
  moreover have "filter (\<lambda>n. n < ns ! i) ns = take i ns"
  proof -
    have "filter (\<lambda>n. n < ns ! i) (take i ns) = take i ns"
      using assms by (auto simp: filter_id_conv in_set_conv_nth sorted_wrt_nth_less)
    moreover have "filter (\<lambda>n. n < ns ! i) (drop i ns) = []"
      using assms by (auto simp: filter_empty_conv in_set_conv_nth leD sorted_wrt_nth_less
          strict_sorted_imp_sorted sorted_nth_mono)
    ultimately show ?thesis by (metis append_Nil2 append_take_drop_id filter_append)
  qed
  ultimately have "length (take ?k ns) = length (take i ns)" by simp
  then show ?thesis using search_strings_spec(3) [OF assms(1), of "ns ! i"] assms(2) by simp
qed

lemma pending_from_nth:
  assumes "sorted_wrt (<) ns" "i < length ns"
  shows "pending_from d ns \<lparr>po_file = ns ! i, po_offset = off\<rparr> = events_at d (ns ! i) off @ events_after d ns (i + 1)"
  using pending_from_at [OF assms(1), of "\<lparr>po_file = ns ! i, po_offset = off\<rparr>" i] search_nth [OF assms] assms(2)
  by simp

lemma events_after_nth:
  assumes "sorted_wrt (<) ns" "i < length ns"
  shows "pending_from d ns \<lparr>po_file = ns ! i, po_offset = 0\<rparr> = events_after d ns i"
  using assms by (simp add: pending_from_nth events_after_def flip: Cons_nth_drop_Suc)

section \<open>The batch\<close>

text \<open>Faults that leave the plain files readable.\<close>

definition readable :: "faults \<Rightarrow> string list \<Rightarrow> bool" where
  "readable io ns \<longleftrightarrow>
     (\<forall>n\<in>set ns. io (OpenFile n) = None \<and> io (StatFile n) = None \<and> (\<forall>k. io (ReadFile n k) = None))"

lemma readableD:
  "readable io ns \<Longrightarrow> i < length ns \<Longrightarrow>
   io (OpenFile (ns ! i)) = None \<and> io (StatFile (ns ! i)) = None \<and> (\<forall>k. io (ReadFile (ns ! i) k) = None)"
  by (simp add: readable_def)

definition batch_ok ::
  "dir \<Rightarrow> string list \<Rightarrow> position \<Rightarrow> nat \<Rightarrow> bytes list \<Rightarrow> position \<times> bytes list \<times> syscall option \<Rightarrow> bool" where
  "batch_ok d ns pos mx lines res \<longleftrightarrow>
     (case res of (pos', lines', e) \<Rightarrow>
        e = None \<and> lines' = lines @ take (mx - length lines) (pending_from d ns pos)
        \<and> pending_from d ns pos' = drop (mx - length lines) (pending_from d ns pos)
        \<and> 0 \<le> po_offset pos')"

lemma batch_ok_next:
  assumes "batch_ok d ns p mx (lines @ e) res" and "pending_from d ns pos = e @ pending_from d ns p"
    and "length lines + length e \<le> mx"
  shows "batch_ok d ns pos mx lines res"
  using assms by (auto simp: batch_ok_def)

lemmas read_files_Suc = read_files.simps(2)

declare read_files_Suc [simp del]

lemma read_files_step:
  assumes "\<And>i. i < length ns \<Longrightarrow> \<exists>b. look d (ns ! i) = Some (Reg b)" "sorted_wrt (<) ns" "readable io ns"
    and "0 \<le> po_offset pos" "int (length lines) < mx" "search_strings ns (po_file pos) = i" "i < length ns"
  obtains pos' lines' where
    "read_files (Suc fuel) io d ns mx pos lines = Some (pos', lines', None)"
    "batch_ok d ns pos (nat mx) lines (pos', lines', None)"
  | lines' where "i + 1 < length ns" "lines' = lines @ take (nat mx - length lines) (events_at d (ns ! i) (if ns ! i = po_file pos then po_offset pos else 0))"
    "length (events_at d (ns ! i) (if ns ! i = po_file pos then po_offset pos else 0)) < nat mx - length lines"
    "read_files (Suc fuel) io d ns mx pos lines
       = read_files fuel io d ns mx \<lparr>po_file = ns ! (i + 1), po_offset = 0\<rparr> lines'"
proof -
  let ?off = "if ns ! i = po_file pos then po_offset pos else 0"
  have pos: "(if ns ! i \<noteq> po_file pos then \<lparr>po_file = ns ! i, po_offset = 0\<rparr> else pos)
      = \<lparr>po_file = ns ! i, po_offset = ?off\<rparr>" by (cases pos) auto
  obtain b where b: "look d (ns ! i) = Some (Reg b)" using assms(1,7) by blast
  have off: "0 \<le> ?off" using assms(4) by simp
  from readableD [OF assms(3,7)] have io: "io (OpenFile (ns ! i)) = None" "io (StatFile (ns ! i)) = None"
    "\<And>k. io (ReadFile (ns ! i) k) = None" by auto
  obtain off' lines' eof where r:
    "read_from io d mx \<lparr>po_file = ns ! i, po_offset = ?off\<rparr> lines = (\<lparr>po_file = ns ! i, po_offset = off'\<rparr>, lines', Inr eof)"
    "0 \<le> off'" "lines' = lines @ take (nat mx - length lines) (events_at d (ns ! i) ?off)"
    "events_at d (ns ! i) off' = drop (nat mx - length lines) (events_at d (ns ! i) ?off)"
    "eof \<Longrightarrow> length (events_at d (ns ! i) ?off) < nat mx - length lines"
    "\<not> eof \<Longrightarrow> nat mx \<le> length lines'"
    using read_from_ok [OF io b off] by metis
  have run: "read_files (Suc fuel) io d ns mx pos lines =
      (if \<not> eof \<or> i = length ns - 1 then Some (\<lparr>po_file = ns ! i, po_offset = off'\<rparr>, lines', None)
       else read_files fuel io d ns mx \<lparr>po_file = ns ! (i + 1), po_offset = 0\<rparr> lines')"
    using assms(5,6,7) by (simp add: read_files_Suc Let_def pos r(1))
  have at: "pending_from d ns pos = events_at d (ns ! i) ?off @ events_after d ns (i + 1)"
    using pending_from_at [OF assms(2,6,7)] .
  have at': "pending_from d ns \<lparr>po_file = ns ! i, po_offset = off'\<rparr>
      = drop (nat mx - length lines) (events_at d (ns ! i) ?off) @ events_after d ns (i + 1)"
    using pending_from_nth [OF assms(2,7)] r(4) by simp
  show ?thesis
  proof (cases "\<not> eof \<or> i = length ns - 1")
    case True
    have "batch_ok d ns pos (nat mx) lines (\<lparr>po_file = ns ! i, po_offset = off'\<rparr>, lines', None)"
    proof (cases eof)
      case True
      with \<open>\<not> eof \<or> i = length ns - 1\<close> have "events_after d ns (i + 1) = []" by (simp add: events_after_def)
      then show ?thesis using at at' r(2,3) by (simp add: batch_ok_def)
    next
      case False
      then have "nat mx - length lines \<le> length (events_at d (ns ! i) ?off)"
        using r(3,6) assms(5) by simp
      then show ?thesis using at at' r(2,3) by (simp add: batch_ok_def)
    qed
    with True show ?thesis using that(1) run by simp
  next
    case False
    then have "eof" "i + 1 < length ns" using assms(7) by auto
    with False show ?thesis using that(2) [of lines'] run r(3,5) by simp
  qed
qed

lemma read_files_ok:
  assumes "\<And>i. i < length ns \<Longrightarrow> \<exists>b. look d (ns ! i) = Some (Reg b)" "sorted_wrt (<) ns" "readable io ns"
    and "0 \<le> po_offset pos" "length ns - search_strings ns (po_file pos) < fuel"
  shows "\<exists>res. read_files fuel io d ns mx pos lines = Some res \<and> batch_ok d ns pos (nat mx) lines res"
  using assms(4,5)
proof (induction fuel arbitrary: pos lines)
  case (Suc fuel)
  let ?i = "search_strings ns (po_file pos)"
  show ?case
  proof (cases "int (length lines) < mx")
    case False
    then have "nat mx - length lines = 0" by simp
    with False Suc.prems show ?thesis by (simp add: read_files_Suc batch_ok_def)
  next
    case more: True
    show ?thesis
    proof (cases "?i = length ns")
      case True
      then have "pending_from d ns pos = []" using pending_from_none [OF assms(2)] by simp
      with True more Suc.prems show ?thesis by (simp add: read_files_Suc batch_ok_def)
    next
      case False
      then have i: "?i < length ns" using search_strings_spec(3) [OF assms(2), of "po_file pos"] by simp
      let ?ev = "events_at d (ns ! ?i) (if ns ! ?i = po_file pos then po_offset pos else 0)"
      from assms(1-3) Suc.prems(1) more refl i show ?thesis
      proof (rule read_files_step [where fuel = fuel])
        fix pos' lines'
        assume "read_files (Suc fuel) io d ns mx pos lines = Some (pos', lines', None)"
          "batch_ok d ns pos (nat mx) lines (pos', lines', None)"
        then show ?thesis by auto
      next
        fix lines'
        let ?next = "\<lparr>po_file = ns ! (?i + 1), po_offset = 0\<rparr>"
        assume a: "?i + 1 < length ns" "lines' = lines @ take (nat mx - length lines) ?ev"
          "length ?ev < nat mx - length lines"
          "read_files (Suc fuel) io d ns mx pos lines = read_files fuel io d ns mx ?next lines'"
        have "length ns - search_strings ns (po_file ?next) < fuel"
          using Suc.prems(2) search_nth [OF assms(2) a(1)] i by simp
        from Suc.IH [OF _ this, of lines'] obtain res where res:
          "read_files fuel io d ns mx ?next lines' = Some res" "batch_ok d ns ?next (nat mx) lines' res" by auto
        have "pending_from d ns pos = ?ev @ pending_from d ns ?next"
          using pending_from_at [OF assms(2) refl i] events_after_nth [OF assms(2) a(1)] by simp
        with res a show ?thesis by (auto intro: batch_ok_next)
      qed
    qed
  qed
qed simp

section \<open>Properties of the reader\<close>

text \<open>The loop over the files ends, whatever fails.\<close>

lemma read_files_total:
  assumes "sorted_wrt (<) ns" "length ns - search_strings ns (po_file pos) < fuel"
  shows "read_files fuel io d ns mx pos lines \<noteq> None"
  using assms(2)
proof (induction fuel arbitrary: pos lines)
  case (Suc fuel)
  let ?i = "search_strings ns (po_file pos)"
  have "?i \<le> length ns" by (rule search_strings_spec(3) [OF assms(1)])
  have next_total: "read_files fuel io d ns mx \<lparr>po_file = ns ! (?i + 1), po_offset = 0\<rparr> l \<noteq> None"
    if "?i \<noteq> length ns" "?i \<noteq> length ns - 1" for l
  proof (rule Suc.IH)
    have i: "?i + 1 < length ns" using that \<open>?i \<le> length ns\<close> by linarith
    then show "length ns - search_strings ns (po_file \<lparr>po_file = ns ! (?i + 1), po_offset = 0\<rparr>) < fuel"
      using Suc.prems search_nth [OF assms(1) i] by simp
  qed
  then show ?case
    by (auto simp: read_files_Suc Let_def split: prod.split sum.split)
qed simp

text \<open>
  C10: Reading a batch always comes back, whatever system call fails; it moves neither the committed
  position nor a file, and with an error it hands out no line and no new position.
\<close>

theorem read_batch_safe:
  assumes "dir_ok (sp_files s)"
  shows "\<exists>s' lines pos err. read_batch io mx allow s = Some (s', lines, pos, err)
    \<and> sp_committed s' = sp_committed s \<and> sp_files s' = sp_files s
    \<and> (err \<noteq> None \<longrightarrow> lines = [] \<and> pos = sp_committed s \<and> s' = s)"
proof -
  let ?ns = "plain_names io (sp_files s)"
  have "read_files (Suc (length ?ns)) io (sp_files s) ?ns mx (sp_committed s) [] \<noteq> None"
    by (rule read_files_total [OF plain_names_sorted [OF assms]]) simp
  then obtain pos lines err where
    "read_files (Suc (length ?ns)) io (sp_files s) ?ns mx (sp_committed s) [] = Some (pos, lines, err)" by auto
  then show ?thesis by (cases err) (simp_all add: read_batch_def Let_def)
qed

theorem read_batch_safe_witness:
  "\<exists>s' lines pos err. read_batch (\<lambda>c. if c = OpenFile ''spool-2024-02-29.jsonl'' then Some 0 else None) 5 True
      example_spool = Some (s', lines, pos, err) \<and> sp_files s' = example_dir"
  using read_batch_safe [of example_spool "\<lambda>c. if c = OpenFile ''spool-2024-02-29.jsonl'' then Some 0 else None" 5 True]
  by auto

lemma readable_no_faults [simp]: "readable no_faults ns"
  by (simp add: readable_def)

lemma plain_files_exist:
  "dir_ok d \<Longrightarrow> i < length (plain_names io d) \<Longrightarrow> \<exists>b. look d (plain_names io d ! i) = Some (Reg b)"
  using plain_names_mem [of d "plain_names io d ! i" io] by simp

lemma read_batch_result:
  assumes "dir_ok (sp_files s)" and "0 \<le> po_offset (sp_committed s)"
  shows "\<exists>s' lines pos. read_batch no_faults mx allow s = Some (s', lines, pos, None)
    \<and> (if int (length (pending s)) < mx \<and> \<not> allow
        then lines = [] \<and> pos = sp_committed s \<and> s' = s
        else lines = take (nat mx) (pending s)
          \<and> pending_at (sp_files s) pos = drop (nat mx) (pending s) \<and> 0 \<le> po_offset pos
          \<and> s' = (if lines = [] then s else s\<lparr>sp_inflight := pos\<rparr>))"
proof -
  let ?d = "sp_files s"
  let ?ns = "plain_names no_faults ?d"
  have "length ?ns - search_strings ?ns (po_file (sp_committed s)) < Suc (length ?ns)" by simp
  from read_files_ok [OF plain_files_exist [OF assms(1)] plain_names_sorted [OF assms(1)]
      readable_no_faults assms(2) this, of mx "[]"]
  obtain pos lines where
    r: "read_files (Suc (length ?ns)) no_faults ?d ?ns mx (sp_committed s) [] = Some (pos, lines, None)"
    and ok: "batch_ok ?d ?ns (sp_committed s) (nat mx) [] (pos, lines, None)"
    by (auto simp: batch_ok_def)
  from ok have l: "lines = take (nat mx) (pending s)" "0 \<le> po_offset pos"
    "pending_at ?d pos = drop (nat mx) (pending s)"
    by (simp_all add: batch_ok_def pending_def pending_at_def)
  have "int (length lines) < mx \<longleftrightarrow> int (length (pending s)) < mx" using l(1) by auto
  with r l show ?thesis by (auto simp: read_batch_def Let_def)
qed

text \<open>
  C9: \<open>readBatch\<close> is the specification's queue read: it returns the next events after the
  committed position, in order, over all files, as many as asked for or as there are, and a
  position after which exactly the remaining events are pending. Where a partial batch is not
  allowed and fewer events are pending, it returns nothing and reserves nothing.
\<close>

theorem read_batch_next_events:
  assumes "dir_ok (sp_files s)" and "0 \<le> po_offset (sp_committed s)"
  shows "\<exists>s' lines pos. read_batch no_faults mx allow s = Some (s', lines, pos, None)
    \<and> (if int (length (pending s)) < mx \<and> \<not> allow
        then lines = [] \<and> pos = sp_committed s \<and> s' = s
        else lines = take (nat mx) (pending s)
          \<and> pending_at (sp_files s) pos = drop (nat mx) (pending s) \<and> 0 \<le> po_offset pos
          \<and> s' = (if lines = [] then s else s\<lparr>sp_inflight := pos\<rparr>))"
  using read_batch_result [OF assms] .

theorem read_batch_next_events_witness:
  "\<exists>s' lines pos. read_batch no_faults 2 True example_spool = Some (s', lines, pos, None)
     \<and> lines = take 2 (pending example_spool)"
  using read_batch_next_events [of example_spool 2 True] by (auto simp: numeral_2_eq_2)

end
