(* ===== verification/Json_Decode.thy ===== *)
theory Json_Decode
  imports Json_Facts
begin

text \<open>
  \<open>json.Unmarshal\<close>: a valid text as a tree of values, the unquoting of strings, and the rules by
  which a value is stored in a field: an exact or case-folded name, later members over earlier
  ones, null leaves a field alone, a value of another type leaves it alone and is an error that
  is reported at the end.
\<close>

section \<open>Strings\<close>

text \<open>The UTF-8 encoding of a code point that is no surrogate.\<close>

definition encode_rune :: "nat \<Rightarrow> bytes" where
  "encode_rune r =
     (if r < 128 then [char_of r]
      else if r < 2048 then [char_of (192 + r div 64), char_of (128 + r mod 64)]
      else if r < 65536
      then [char_of (224 + r div 4096), char_of (128 + r div 64 mod 64), char_of (128 + r mod 64)]
      else [char_of (240 + r div 262144), char_of (128 + r div 4096 mod 64),
            char_of (128 + r div 64 mod 64), char_of (128 + r mod 64)])"

definition hex_val :: "char \<Rightarrow> nat" where
  "hex_val c =
     (let n = of_char c in if is_digit c then n - 48 else if byte_in c 0x61 0x66 then n - 87 else n - 55)"

definition hex4 :: "bytes \<Rightarrow> nat" where
  "hex4 s = foldl (\<lambda>n c. n * 16 + hex_val c) 0 (take 4 s)"

text \<open>\<open>getu4\<close>: the value of an escape \<open>\\uXXXX\<close> at the start.\<close>

definition getu4 :: "bytes \<Rightarrow> nat option" where
  "getu4 s =
     (if 6 \<le> length s \<and> s ! 0 = CHR 0x5C \<and> s ! 1 = CHR ''u'' \<and> list_all is_hex (take 4 (drop 2 s))
      then Some (hex4 (drop 2 s)) else None)"

definition surrogate :: "nat \<Rightarrow> bool" where
  "surrogate r \<longleftrightarrow> 0xD800 \<le> r \<and> r < 0xE000"

definition surrogate_pair :: "nat \<Rightarrow> nat option \<Rightarrow> nat option" where
  "surrogate_pair hi lo =
     (case lo of None \<Rightarrow> None
      | Some l \<Rightarrow> if hi < 0xDC00 \<and> 0xDC00 \<le> l \<and> l < 0xE000
                  then Some ((hi - 0xD800) * 1024 + (l - 0xDC00) + 0x10000) else None)"

text \<open>One escape after its backslash: the bytes it stands for and what follows; \<open>None\<close> cannot
  occur in a valid text.\<close>

definition unescape :: "bytes \<Rightarrow> (bytes \<times> bytes) option" where
  "unescape s =
     (case s of
        [] \<Rightarrow> None
      | c # r \<Rightarrow>
          if c = CHR 0x22 \<or> c = CHR 0x5C \<or> c = CHR ''/'' then Some ([c], r)
          else if c = CHR ''b'' then Some ([CHR 0x08], r)
          else if c = CHR ''f'' then Some ([CHR 0x0C], r)
          else if c = CHR ''n'' then Some ([CHR 0x0A], r)
          else if c = CHR ''r'' then Some ([CHR 0x0D], r)
          else if c = CHR ''t'' then Some ([CHR 0x09], r)
          else if c = CHR ''u'' then
            (case getu4 (CHR 0x5C # s) of
               None \<Rightarrow> None
             | Some rr \<Rightarrow>
                 let r = drop 5 s
                 in if surrogate rr
                    then case surrogate_pair rr (getu4 r) of
                           Some p \<Rightarrow> Some (encode_rune p, drop 6 r)
                         | None \<Rightarrow> Some (replacement_char, r)
                    else Some (encode_rune rr, r))
          else None)"

lemma unescape_shorter: "unescape s = Some (b, r) \<Longrightarrow> length r < length s"
  by (auto simp: unescape_def Let_def getu4_def split: list.splits if_splits option.splits)

text \<open>The characters between the quotes.\<close>

function unquote_body :: "bytes \<Rightarrow> bytes option" where
  "unquote_body s =
     (case s of
        [] \<Rightarrow> Some []
      | c # r \<Rightarrow>
          if c = CHR 0x5C
          then (case unescape r of
                  None \<Rightarrow> None
                | Some (b, r') \<Rightarrow> map_option ((@) b) (unquote_body r'))
          else case rune_size s of
                 None \<Rightarrow> map_option ((@) replacement_char) (unquote_body r)
               | Some n \<Rightarrow> map_option ((@) (take n s)) (unquote_body (drop n s)))"
  by pat_completeness auto
termination
  by (relation "measure length") (auto dest: unescape_shorter rune_size_bounds)

declare unquote_body.simps [simp del]

text \<open>Up to the closing quote; an escaped quote is skipped.\<close>

fun string_end :: "bytes \<Rightarrow> (bytes \<times> bytes) option" where
  "string_end [] = None"
| "string_end (c # r) =
     (if c = CHR 0x22 then Some ([], r)
      else if c = CHR 0x5C
      then (case r of
              [] \<Rightarrow> None
            | d # r' \<Rightarrow> map_option (\<lambda>(b, q). (c # d # b, q)) (string_end r'))
      else map_option (\<lambda>(b, q). (c # b, q)) (string_end r))"

lemma string_end_shorter: "string_end s = Some (b, r) \<Longrightarrow> length r < length s"
  by (induction s arbitrary: b rule: string_end.induct)
     (auto split: if_splits list.splits, fastforce)

section \<open>Values\<close>

datatype json =
    JNull | JBool bool | JNum bytes | JStr bytes | JArr "json list" | JObj "(bytes \<times> json) list"

definition skip_space :: "bytes \<Rightarrow> bytes" where
  "skip_space s = dropWhile json_space s"

definition number_char :: "char \<Rightarrow> bool" where
  "number_char c \<longleftrightarrow> is_digit c \<or> c \<in> set [CHR ''-'', CHR ''+'', CHR ''.'', CHR ''e'', CHR ''E'']"

text \<open>
  Recursive descent over a text: a value, the elements of an array, the members of an object. A
  rest that were not shorter would be refused, so the recursion ends by its definition.
\<close>

function parse_value :: "bytes \<Rightarrow> (json \<times> bytes) option"
  and parse_elements :: "bytes \<Rightarrow> (json list \<times> bytes) option"
  and parse_members :: "bytes \<Rightarrow> ((bytes \<times> json) list \<times> bytes) option" where
  "parse_value s =
     (case s of
        [] \<Rightarrow> None
      | c # r \<Rightarrow>
          if c = CHR ''{'' then
            (case skip_space r of
               [] \<Rightarrow> None
             | d # q \<Rightarrow>
                 if d = CHR ''}'' then Some (JObj [], q)
                 else if \<not> length (skip_space r) < length s then None
                 else map_option (\<lambda>(ms, q). (JObj ms, q)) (parse_members (skip_space r)))
          else if c = CHR ''['' then
            (case skip_space r of
               [] \<Rightarrow> None
             | d # q \<Rightarrow>
                 if d = CHR '']'' then Some (JArr [], q)
                 else if \<not> length (skip_space r) < length s then None
                 else map_option (\<lambda>(vs, q). (JArr vs, q)) (parse_elements (skip_space r)))
          else if c = CHR 0x22 then
            (case string_end r of
               None \<Rightarrow> None
             | Some (b, q) \<Rightarrow> map_option (\<lambda>u. (JStr u, q)) (unquote_body b))
          else if has_prefix s ''null'' then Some (JNull, drop 4 s)
          else if has_prefix s ''true'' then Some (JBool True, drop 4 s)
          else if has_prefix s ''false'' then Some (JBool False, drop 5 s)
          else let n = takeWhile number_char s
               in if n = [] then None else Some (JNum n, drop (length n) s))"
| "parse_elements s =
     (case parse_value s of
        None \<Rightarrow> None
      | Some (v, r) \<Rightarrow>
          (case skip_space r of
             [] \<Rightarrow> None
           | d # q \<Rightarrow>
               if d = CHR '']'' then Some ([v], q)
               else if d = CHR '','' \<and> length (skip_space q) < length s
               then map_option (\<lambda>(vs, z). (v # vs, z)) (parse_elements (skip_space q))
               else None))"
| "parse_members s =
     (case s of
        [] \<Rightarrow> None
      | c # r \<Rightarrow>
          if c \<noteq> CHR 0x22 then None
          else case string_end r of
            None \<Rightarrow> None
          | Some (b, q) \<Rightarrow>
              (case (unquote_body b, skip_space q) of
                 (Some k, d # q') \<Rightarrow>
                   if d \<noteq> CHR '':'' \<or> \<not> length (skip_space q') < length s then None
                   else (case parse_value (skip_space q') of
                           None \<Rightarrow> None
                         | Some (v, z) \<Rightarrow>
                             (case skip_space z of
                                [] \<Rightarrow> None
                              | e # z' \<Rightarrow>
                                  if e = CHR ''}'' then Some ([(k, v)], z')
                                  else if e = CHR '','' \<and> length (skip_space z') < length s
                                  then map_option (\<lambda>(ms, y). ((k, v) # ms, y)) (parse_members (skip_space z'))
                                  else None))
               | _ \<Rightarrow> None))"
  by pat_completeness auto
termination
  by (relation "measures [\<lambda>x. case x of Inl s \<Rightarrow> length s | Inr (Inl s) \<Rightarrow> length s | Inr (Inr s) \<Rightarrow> length s,
      \<lambda>x. case x of Inl s \<Rightarrow> 0 | Inr (Inl s) \<Rightarrow> 1 | Inr (Inr s) \<Rightarrow> 0]") auto

declare parse_value.simps [simp del] parse_elements.simps [simp del] parse_members.simps [simp del]

text \<open>The tree of a valid text.\<close>

definition json_parse :: "bytes \<Rightarrow> json option" where
  "json_parse s = (if json_valid s then map_option fst (parse_value (skip_space s)) else None)"

section \<open>Storing\<close>

text \<open>
  A member's name selects a field: the field of exactly this name, or the one that agrees after
  case folding. Two runes outside ASCII fold to ASCII letters, the long s and the Kelvin sign.
\<close>

fun fold_name :: "bytes \<Rightarrow> bytes" where
  "fold_name [] = []"
| "fold_name (c # s) =
     (if c = CHR 0xC5 \<and> has_prefix s [CHR 0xBF] then CHR ''S'' # fold_name (drop 1 s)
      else if c = CHR 0xE2 \<and> has_prefix s [CHR 0x84, CHR 0xAA] then CHR ''K'' # fold_name (drop 2 s)
      else (if byte_in c 0x61 0x7A then char_of (of_char c - 32 :: nat) else c) # fold_name s)"

definition match_field :: "string list \<Rightarrow> bytes \<Rightarrow> string option" where
  "match_field fields key =
     (case find (\<lambda>f. f = key) fields of
        Some f \<Rightarrow> Some f
      | None \<Rightarrow> find (\<lambda>f. fold_name f = fold_name key) fields)"

text \<open>The stored value and whether a type error was recorded.\<close>

definition store_string :: "json \<Rightarrow> bytes \<Rightarrow> bytes \<times> bool" where
  "store_string v old =
     (case v of JStr s \<Rightarrow> (s, False) | JNull \<Rightarrow> (old, False) | _ \<Rightarrow> (old, True))"

definition store_int64 :: "json \<Rightarrow> int \<Rightarrow> int \<times> bool" where
  "store_int64 v old =
     (case v of
        JNum b \<Rightarrow> (case parse_int b of (n, None) \<Rightarrow> (n, False) | (_, Some e) \<Rightarrow> (old, True))
      | JNull \<Rightarrow> (old, False)
      | _ \<Rightarrow> (old, True))"

text \<open>An object is stored member by member; another value but null is a type error.\<close>

definition store_struct ::
  "string list \<Rightarrow> (string \<Rightarrow> json \<Rightarrow> 'a \<Rightarrow> 'a \<times> bool) \<Rightarrow> json \<Rightarrow> 'a \<Rightarrow> 'a \<times> bool" where
  "store_struct fields store v x =
     (case v of
        JObj ms \<Rightarrow>
          foldl (\<lambda>(x, err) (k, w).
              case match_field fields k of
                None \<Rightarrow> (x, err)
              | Some f \<Rightarrow> let (x', e) = store f w x in (x', err \<or> e)) (x, False) ms
      | JNull \<Rightarrow> (x, False)
      | _ \<Rightarrow> (x, True))"

text \<open>The result of \<open>Unmarshal\<close>: \<open>None\<close> for an error.\<close>

definition unmarshal :: "(json \<Rightarrow> 'a \<Rightarrow> 'a \<times> bool) \<Rightarrow> bytes \<Rightarrow> 'a \<Rightarrow> 'a option" where
  "unmarshal store data x =
     (case json_parse data of
        None \<Rightarrow> None
      | Some v \<Rightarrow> case store v x of (x', err) \<Rightarrow> if err then None else Some x')"

end
