(* ===== verification/Json_Roundtrip.thy ===== *)
theory Json_Roundtrip
  imports Json_Decode
begin

text \<open>
  What the decoder reads back of what the encoder prints: strings, integers, and the members of an
  object with white space nowhere, in named rules for the components that store JSON on disk.
\<close>

named_theorems parse_simps "parsing printed JSON"

section \<open>Strings\<close>

lemma hex_val_all: "list_all (\<lambda>n. hex_val (hex_digit n) = n) [0..<16]"
  by code_simp

lemma hex_val_digit [simp]: "n < 16 \<Longrightarrow> hex_val (hex_digit n) = n"
  using hex_val_all by (simp add: list_all_iff)

lemma getu4_escape [simp]:
  "getu4 (CHR 0x5C # CHR ''u'' # a # b # c # d # r) =
     (if is_hex a \<and> is_hex b \<and> is_hex c \<and> is_hex d then Some (hex4 [a, b, c, d]) else None)"
  by (simp add: getu4_def hex4_def)

lemma hex_val_zero [simp]: "hex_val CHR ''0'' = 0"
  by code_simp

lemma unescape_u00:
  assumes "byte_in b 0 0x1F"
  shows "unescape (''u00'' @ [hex_digit (of_char b div 16), hex_digit (of_char b mod 16)] @ r) = Some ([b], r)"
proof -
  define n :: nat where "n = of_char b"
  have n: "n < 32" "b = char_of n" using assms by (simp_all add: byte_in_def n_def)
  then have d: "n div 16 < 16" "n mod 16 < 16" by auto
  then have "hex4 [CHR ''0'', CHR ''0'', hex_digit (n div 16), hex_digit (n mod 16)] = n"
    by (simp add: hex4_def)
  moreover have "encode_rune n = [b]" using n by (simp add: encode_rune_def)
  ultimately show ?thesis
    using n d by (simp add: unescape_def n_def [symmetric] hex_digit_is_hex surrogate_def)
qed

lemma unescape_u2028:
  "unescape (''u2028'' @ r) = Some ([CHR 0xE2, CHR 0x80, CHR 0xA8], r)"
  "unescape (''u2029'' @ r) = Some ([CHR 0xE2, CHR 0x80, CHR 0xA9], r)"
proof -
  have v: "hex4 ''2028'' = 8232" "hex4 ''2029'' = 8233"
    by (simp_all add: hex4_def hex_val_def is_digit_of_char byte_in_def)
  have e: "encode_rune 8232 = [CHR 0xE2, CHR 0x80, CHR 0xA8]" "encode_rune 8233 = [CHR 0xE2, CHR 0x80, CHR 0xA9]"
    by (simp_all add: encode_rune_def char_of_def bit_iff_odd)
  show "unescape (''u2028'' @ r) = Some ([CHR 0xE2, CHR 0x80, CHR 0xA8], r)"
    "unescape (''u2029'' @ r) = Some ([CHR 0xE2, CHR 0x80, CHR 0xA9], r)"
    by (simp_all add: unescape_def v e surrogate_def)
qed

lemma unquote_escape:
  "unquote_body (CHR 0x5C # s) = (case unescape s of None \<Rightarrow> None | Some (b, r) \<Rightarrow> map_option ((@) b) (unquote_body r))"
  by (simp add: unquote_body.simps [of "CHR 0x5C # s"])

lemma unquote_rune:
  assumes "rune_size s = Some n" "hd s \<noteq> CHR 0x5C"
  shows "unquote_body (s @ r) = map_option ((@) (take n s)) (unquote_body (drop n s @ r))"
proof -
  have n: "0 < n" "n \<le> length s" using rune_size_bounds [OF assms(1)] by auto
  then obtain c t where s: "s = c # t" by (cases s) auto
  have "rune_size (s @ r) = Some n" by (rule rune_size_append [OF assms(1)])
  moreover have "take n (s @ r) = take n s" "drop n (s @ r) = drop n s @ r" using n by simp_all
  ultimately show ?thesis using assms(2) s by (simp add: unquote_body.simps [of "c # t @ r"])
qed

lemma append_single [simp]: "(@) [b] = (#) b"
  by (rule ext) simp

lemma unquote_byte:
  assumes "rune_size (b # s) = Some 1"
  shows "unquote_body (quote_byte b @ r) = map_option ((#) b) (unquote_body r)"
proof (cases "quote_byte b = [b]")
  case True
  then have "b \<noteq> CHR 0x5C" by (auto simp: quote_byte_def)
  have "rune_size [b] = Some 1" using rune_size_take [OF assms] by simp
  then show ?thesis using unquote_rune [of "[b]" 1 r] True \<open>b \<noteq> CHR 0x5C\<close> by simp
next
  case False
  then obtain q where q: "quote_byte b = CHR 0x5C # q" "unescape (q @ r) = Some ([b], r)"
    using unescape_u00 [of b r] by (auto simp: quote_byte_def unescape_def split: if_splits)
  then show ?thesis by (simp add: unquote_escape)
qed

lemma unquote_quote:
  assumes "utf8_valid s"
  shows "unquote_body (quote_body s) = Some s"
  using assms
proof (induction s rule: quote_body.induct)
  case (1 s)
  show ?case
  proof (cases "s = []")
    case True
    then show ?thesis by (simp add: quote_body.simps [of "[]"] unquote_body.simps [of "[]"])
  next
    case False
    then obtain n where n: "rune_size s = Some n" "utf8_valid (drop n s)"
      using "1.prems" by (auto simp: utf8_valid.simps [of s] split: option.splits)
    have b: "0 < n" "n \<le> length s" using rune_size_bounds [OF n(1)] by auto
    obtain c t where s: "s = c # t" using False by (cases s) auto
    have IH: "unquote_body (quote_body (drop n s)) = Some (drop n s)" by (rule "1.IH"(2) [OF False n])
    show ?thesis
    proof (cases "n = 1")
      case True
      with n s have "rune_size (c # t) = Some 1" by simp
      from unquote_byte [OF this] True n s IH show ?thesis
        by (simp add: quote_body.simps [of "c # t"])
    next
      case False
      have q: "quote_body s = quote_rune (take n s) @ quote_body (drop n s)"
        using False \<open>s \<noteq> []\<close> n(1) by (simp add: quote_body.simps [of s])
      consider "take n s = [CHR 0xE2, CHR 0x80, CHR 0xA8]" | "take n s = [CHR 0xE2, CHR 0x80, CHR 0xA9]"
        | "quote_rune (take n s) = take n s" by (metis quote_rune_def)
      then have "unquote_body (quote_body s) = map_option ((@) (take n s)) (unquote_body (quote_body (drop n s)))"
      proof cases
        case 3
        have "c \<noteq> CHR 0x5C" using n(1) s False by (auto simp: byte_in_def rune_size.simps)
        moreover have "rune_size (take n s) = Some n" by (rule rune_size_take [OF n(1)])
        ultimately show ?thesis
          using unquote_rune [of "take n s" n "quote_body (drop n s)"] q 3 b s by (cases n) auto
      qed (use q unescape_u2028 in \<open>simp_all add: quote_rune_def unquote_escape\<close>)
      then show ?thesis using IH by simp
    qed
  qed
qed

lemma string_end_step [simp]:
  "c \<noteq> CHR 0x22 \<Longrightarrow> c \<noteq> CHR 0x5C \<Longrightarrow>
   string_end (c # r) = map_option (\<lambda>(b, q). (c # b, q)) (string_end r)"
  "string_end (CHR 0x5C # d # r) = map_option (\<lambda>(b, q). (CHR 0x5C # d # b, q)) (string_end r)"
  by simp_all

lemma string_end_plain:
  "\<forall>c\<in>set p. c \<noteq> CHR 0x22 \<and> c \<noteq> CHR 0x5C \<Longrightarrow>
   string_end (p @ r) = map_option (\<lambda>x. (p @ fst x, snd x)) (string_end r)"
  by (induction p) (simp_all add: option.map_comp comp_def case_prod_unfold option.map_ident)

lemma hex_digit_plain: "n < 16 \<Longrightarrow> hex_digit n \<noteq> CHR 0x22 \<and> hex_digit n \<noteq> CHR 0x5C"
  using hex_digit_is_hex [of n] by (auto simp: is_hex_def is_digit_of_char byte_in_def)

lemma string_end_byte:
  "string_end (quote_byte b @ r) = map_option (\<lambda>x. (quote_byte b @ fst x, snd x)) (string_end r)"
proof -
  have d: "of_char b div 16 < (16 :: nat)" "of_char b mod 16 < (16 :: nat)" by (simp_all add: less_mult_imp_div_less)
  show ?thesis
    using hex_digit_plain [OF d(1)] hex_digit_plain [OF d(2)]
    by (auto simp: quote_byte_def option.map_comp comp_def case_prod_unfold simp del: string_end.simps(2))
qed

lemma rune_bytes_above:
  assumes "rune_size s = Some n" "n \<noteq> 1" "c \<in> set (take n s)"
  shows "c \<noteq> CHR 0x22 \<and> c \<noteq> CHR 0x5C"
  using assms
  by (cases s rule: rune_size.cases)
     (auto simp: byte_in_def rune_size.simps split: if_splits list.splits)

lemma string_end_rune:
  assumes "rune_size s = Some n" "n \<noteq> 1"
  shows "string_end (quote_rune (take n s) @ r) = map_option (\<lambda>x. (quote_rune (take n s) @ fst x, snd x)) (string_end r)"
proof (cases "quote_rune (take n s) = take n s")
  case True
  then show ?thesis using string_end_plain [of "take n s" r] rune_bytes_above [OF assms] by simp
next
  case False
  then show ?thesis
    by (auto simp: quote_rune_def option.map_comp comp_def case_prod_unfold simp del: string_end.simps(2))
qed

lemma string_end_quote: "string_end (quote_body s @ CHR 0x22 # r) = Some (quote_body s, r)"
proof (induction s rule: quote_body.induct)
  case (1 s)
  show ?case
  proof (cases "s = []")
    case True
    then show ?thesis by (simp add: quote_body.simps [of "[]"])
  next
    case False
    then show ?thesis
      using 1 string_end_rune [of s]
      by (auto simp: quote_body.simps [of s] string_end_byte split: option.split simp del: string_end.simps(2))
  qed
qed

section \<open>Values\<close>

lemmas parse_value_Cons = parse_value.simps [of "c # s" for c s]

lemmas parse_members_Cons = parse_members.simps [of "c # s" for c s]

lemma parse_quoted [parse_simps]:
  "utf8_valid s \<Longrightarrow> parse_value (json_quote s @ r) = Some (JStr s, r)"
  by (simp add: parse_value_Cons json_quote_def string_end_quote unquote_quote)

lemma number_char_digit: "is_digit c \<Longrightarrow> number_char c"
  by (simp add: number_char_def)

lemma takeWhile_int_dec:
  assumes "r = [] \<or> \<not> number_char (hd r)"
  shows "takeWhile number_char (int_dec i @ r) = int_dec i"
proof -
  have "\<forall>c\<in>set (int_dec i). number_char c"
    by (auto simp: int_dec_def number_char_def dest: nat_dec_digits)
  moreover have "takeWhile number_char r = []" using assms by (cases r) auto
  ultimately show ?thesis by simp
qed

lemma int_dec_head: "\<exists>c t. int_dec i = c # t \<and> (is_digit c \<or> c = CHR ''-'')"
proof (cases "i < 0")
  case False
  obtain c t where "nat_dec (nat i) = c # t" using nat_dec_nonempty [of "nat i"] by (cases "nat_dec (nat i)") auto
  with False nat_dec_digits [of c "nat i"] show ?thesis by (simp add: int_dec_def)
qed (simp add: int_dec_def)

lemma parse_int_dec [parse_simps]:
  assumes "r = [] \<or> \<not> number_char (hd r)"
  shows "parse_value (int_dec i @ r) = Some (JNum (int_dec i), r)"
proof -
  obtain c t where c: "int_dec i = c # t" "is_digit c \<or> c = CHR ''-''" using int_dec_head by blast
  have "\<not> has_prefix (int_dec i @ r) ''null''" "\<not> has_prefix (int_dec i @ r) ''true''"
    "\<not> has_prefix (int_dec i @ r) ''false''" "c \<noteq> CHR ''{''" "c \<noteq> CHR ''[''" "c \<noteq> CHR 0x22"
    using c by (auto simp: has_prefix_Cons is_digit_of_char)
  then show ?thesis
    using c takeWhile_int_dec [OF assms, of i]
    by (simp add: parse_value_Cons split: if_splits)
qed

lemma skip_space_start [simp]:
  "skip_space (CHR 0x22 # r) = CHR 0x22 # r" "skip_space (CHR '','' # r) = CHR '','' # r"
  "skip_space (CHR '':'' # r) = CHR '':'' # r" "skip_space (CHR ''}'' # r) = CHR ''}'' # r"
  "skip_space (CHR ''{'' # r) = CHR ''{'' # r" "skip_space (json_quote s @ r) = json_quote s @ r"
  "skip_space (int_dec i @ r) = int_dec i @ r"
proof -
  obtain c t where "int_dec i = c # t" "is_digit c \<or> c = CHR ''-''" using int_dec_head by blast
  then show "skip_space (int_dec i @ r) = int_dec i @ r"
    by (auto simp: skip_space_def json_space_def is_digit_of_char)
qed (simp_all add: skip_space_def json_space_def json_quote_def)

text \<open>A member whose value stands before a comma or the closing brace.\<close>

lemma string_end_safe: "\<forall>c\<in>set k. safe_byte c \<Longrightarrow> string_end (k @ CHR 0x22 # r) = Some (k, r)"
  using string_end_quote [of k r] by (simp add: quote_body_safe)

lemma unquote_safe: "\<forall>c\<in>set k. safe_byte c \<Longrightarrow> unquote_body k = Some k"
  using unquote_quote [of k] by (simp add: quote_body_safe utf8_valid_safe)

lemma parse_members_last [parse_simps]:
  assumes "\<forall>c\<in>set k. safe_byte c" "parse_value (v @ CHR ''}'' # r) = Some (x, CHR ''}'' # r)"
    "skip_space (v @ CHR ''}'' # r) = v @ CHR ''}'' # r"
  shows "parse_members (json_key k @ v @ CHR ''}'' # r) = Some ([(k, x)], r)"
  using assms by (simp add: parse_members_Cons json_key_def string_end_safe unquote_safe)

lemma parse_members_next [parse_simps]:
  assumes "\<forall>c\<in>set k. safe_byte c" "parse_value (v @ CHR '','' # r) = Some (x, CHR '','' # r)"
    "skip_space (v @ CHR '','' # r) = v @ CHR '','' # r" "skip_space r = r"
  shows "parse_members (json_key k @ v @ CHR '','' # r) =
    map_option (\<lambda>(ms, y). ((k, x) # ms, y)) (parse_members r)"
  using assms by (simp add: parse_members_Cons json_key_def string_end_safe unquote_safe)

lemma parse_object [parse_simps]:
  "parse_value (CHR ''{'' # json_key k @ r) =
     map_option (\<lambda>(ms, q). (JObj ms, q)) (parse_members (json_key k @ r))"
  by (simp add: parse_value_Cons) (simp add: json_key_def)

lemma skip_space_key [simp]: "skip_space (json_key k @ r) = json_key k @ r"
  by (simp add: json_key_def)

end
