(* ===== verification/Spool_Open_Facts.thy ===== *)
theory Spool_Open_Facts
  imports Spool_Open
begin

text \<open>
  Facts on opening and committing: the states a crash can leave behind, the position read back
  after a restart, and the repaired tails.
\<close>

section \<open>Atomic replacement\<close>

lemma tmp_suffix_nonempty [simp]: "tmp_suffix \<noteq> []" "[] \<noteq> tmp_suffix"
  by (simp_all add: tmp_suffix_def)

lemma look_append_other [dir_simps]: "m \<noteq> n \<Longrightarrow> look (append_bytes d n bs) m = look d m"
  by (simp add: append_bytes_def look_put split: option.split node.split)

lemma open_trunc_ok: "open_trunc io d n = Some d' \<Longrightarrow> d' = put d n (Reg [])"
  by (auto simp: open_trunc_def split: if_splits option.splits node.splits)

text \<open>Every state of the trace has, under the target's name, what was there or all the new data,
  and differs from the old state only in the target and the temporary file.\<close>

definition atomic_state :: "string \<Rightarrow> bytes \<Rightarrow> dir \<Rightarrow> dir \<Rightarrow> bool" where
  "atomic_state path data d d' \<longleftrightarrow>
     (look d' path = look d path \<or> look d' path = Some (Reg data))
     \<and> (\<forall>n. n \<noteq> path \<and> n \<noteq> path @ tmp_suffix \<longrightarrow> look d' n = look d n)"

lemma append_put: "append_bytes (put d n (Reg a)) n b = put (put d n (Reg a)) n (Reg (a @ b))"
  by (simp add: append_bytes_def look_put)

lemma write_bytes_ok: "write_sync_close io n = None \<Longrightarrow> write_bytes io d n data = append_bytes d n data"
  by (auto simp: write_sync_close_def write_bytes_def call_error_def Let_def split: if_splits)

text \<open>The states of the trace: only the temporary file changes, but for a rename of all the data.\<close>

definition tmp_state :: "string \<Rightarrow> dir \<Rightarrow> dir \<Rightarrow> bool" where
  "tmp_state path d d' \<longleftrightarrow> (dir_ok d \<longrightarrow> dir_ok d') \<and> (\<forall>n. n \<noteq> path @ tmp_suffix \<longrightarrow> look d' n = look d n)"

definition new_state :: "string \<Rightarrow> bytes \<Rightarrow> dir \<Rightarrow> dir \<Rightarrow> bool" where
  "new_state path data d d' \<longleftrightarrow>
     (dir_ok d \<longrightarrow> dir_ok d') \<and> look d' path = Some (Reg data)
     \<and> (\<forall>n. n \<noteq> path \<and> n \<noteq> path @ tmp_suffix \<longrightarrow> look d' n = look d n)"

lemma write_atomic_trace_cases:
  assumes "write_atomic_trace io path data d = (ds, e)"
  shows "(e \<noteq> None \<and> (\<forall>d'\<in>set ds. tmp_state path d d'))
    \<or> (e = None \<and> (\<exists>d1 d2 d3. ds = [d1, d2, d3] \<and> tmp_state path d d1 \<and> tmp_state path d d2 \<and> new_state path data d d3))"
proof (cases "open_trunc io d (path @ tmp_suffix)")
  case None
  with assms show ?thesis by (auto simp: write_atomic_trace_def)
next
  case (Some d1)
  let ?tmp = "path @ tmp_suffix"
  define d2 where "d2 = write_bytes io d1 ?tmp data"
  have d1: "d1 = put d ?tmp (Reg [])" using open_trunc_ok [OF Some] .
  have t1: "tmp_state path d d1" by (simp add: tmp_state_def d1 look_put)
  have t2: "tmp_state path d d2"
    by (simp add: tmp_state_def d2_def write_bytes_def d1 append_put look_put)
  show ?thesis
  proof (cases "write_sync_close io ?tmp = None \<and> rename io d2 ?tmp path \<noteq> None")
    case True
    then obtain d3 where d3: "rename io d2 ?tmp path = Some d3" by auto
    have "d2 = put d1 ?tmp (Reg data)" using True by (simp add: d2_def write_bytes_ok d1 append_put)
    with rename_ok [OF d3] have "d3 = put (del d2 ?tmp) path (Reg data)" by (auto simp: look_put)
    with t2 have "new_state path data d d3" by (simp add: new_state_def tmp_state_def look_put look_del)
    moreover have "(ds, e) = ([d1, d2, d3], None)"
      using True assms Some d3 by (simp add: write_atomic_trace_def Let_def d2_def [symmetric])
    ultimately show ?thesis using t1 t2 by auto
  next
    case False
    then obtain c where "(ds, e) = ([d1, d2, d2, case remove io d2 ?tmp of None \<Rightarrow> d2 | Some d' \<Rightarrow> d'], Some c)"
      using assms Some by (cases "write_sync_close io ?tmp"; cases e)
        (auto simp: write_atomic_trace_def Let_def d2_def [symmetric])
    moreover have "tmp_state path d (case remove io d2 ?tmp of None \<Rightarrow> d2 | Some d' \<Rightarrow> d')"
      using t2 remove_ok [of io d2 ?tmp] by (auto simp: tmp_state_def look_del split: option.split)
    ultimately show ?thesis using t1 t2 by auto
  qed
qed

lemma write_atomic_trace_states:
  assumes "write_atomic_trace io path data d = (ds, e)" "d' \<in> set (d # ds)"
  shows "atomic_state path data d d'"
  using write_atomic_trace_cases [OF assms(1)] assms(2)
  by (auto simp: atomic_state_def tmp_state_def new_state_def)

lemma write_file_atomic_ok:
  assumes "write_file_atomic io path data d = (d', None)"
  shows "look d' path = Some (Reg data) \<and> (\<forall>n. n \<noteq> path \<and> n \<noteq> path @ tmp_suffix \<longrightarrow> look d' n = look d n)"
proof -
  obtain ds where ds: "write_atomic_trace io path data d = (ds, None)" "d' = last (d # ds)"
    using assms by (auto simp: write_file_atomic_def split: prod.splits)
  from write_atomic_trace_cases [OF ds(1)] ds(2) show ?thesis by (auto simp: new_state_def)
qed

lemma write_file_atomic_state:
  assumes "write_file_atomic io path data d = (d', e)"
  shows "atomic_state path data d d'"
proof -
  obtain ds where ds: "write_atomic_trace io path data d = (ds, e)" "d' = last (d # ds)"
    using assms by (auto simp: write_file_atomic_def split: prod.splits)
  show ?thesis by (rule write_atomic_trace_states [OF ds(1)]) (simp add: ds(2))
qed

lemma write_file_atomic_dir_ok:
  assumes "dir_ok d" "write_file_atomic io path data d = (d', e)"
  shows "dir_ok d'"
proof -
  obtain ds where ds: "write_atomic_trace io path data d = (ds, e)" "d' = last (d # ds)"
    using assms by (auto simp: write_file_atomic_def split: prod.splits)
  have "last (d # ds) \<in> set (d # ds)" by (rule last_in_set) simp
  with write_atomic_trace_cases [OF ds(1)] ds(2) assms(1) show ?thesis
    by (auto simp: tmp_state_def new_state_def split: if_splits)
qed

section \<open>The committed position\<close>

lemma html_safe: "\<forall>c\<in>set s. safe_byte c \<Longrightarrow> concat (map html_byte s) = s"
  by (induction s) (auto simp: html_byte_def safe_byte_def)

lemma json_quote_html_safe: "\<forall>c\<in>set s. safe_byte c \<Longrightarrow> json_quote_html s = json_quote s"
  by (simp add: json_quote_html_def json_quote_def quote_body_safe html_safe) (simp add: html_byte_def)

lemma plain_name_safe: "is_spool_plain_name n \<Longrightarrow> \<forall>c\<in>set n. safe_byte c"
  using valid_dateD
  by (fastforce simp: is_spool_plain_name_iff plain_of_def spool_prefix_def jsonl_suffix_def safe_byte_def
      byte_in_def is_digit_of_char)

lemma position_keys [simp]:
  "\<forall>c\<in>set ''file''. safe_byte c" "\<forall>c\<in>set ''offset''. safe_byte c"
  "\<forall>c\<in>set ''file''. plain_byte c" "\<forall>c\<in>set ''offset''. plain_byte c"
  by (simp_all add: safe_byte_def byte_in_def plain_byte_def)

lemma marshal_position_safe:
  "\<forall>c\<in>set (po_file p). safe_byte c \<Longrightarrow> marshal_position p =
     CHR ''{'' # json_key ''file'' @ json_quote (po_file p) @ CHR '','' # json_key ''offset'' @ int_dec (po_offset p) @ ''}''"
  by (simp add: marshal_position_def json_quote_html_safe)

lemma json_valid_marshal_position:
  assumes "\<forall>c\<in>set (po_file p). safe_byte c"
  shows "json_valid (marshal_position p)"
proof -
  have "length [] < max_nesting_depth" by (simp add: max_nesting_depth_def)
  then have "scan_run scan_init (marshal_position p) = Some (marshal_position p, EndTop, [])"
    by (simp add: marshal_position_safe [OF assms] scan_init_def scan_simps del: scan_run.simps)
  then show ?thesis by (simp add: json_valid_def json_compact_def scan_eof_def)
qed

lemma parse_marshal_position:
  assumes "\<forall>c\<in>set (po_file p). safe_byte c"
  shows "json_parse (marshal_position p) =
    Some (JObj [(''file'', JStr (po_file p)), (''offset'', JNum (int_dec (po_offset p)))])"
proof -
  have "parse_value (json_quote (po_file p) @ CHR '','' # r) = Some (JStr (po_file p), CHR '','' # r)" for r
    using parse_quoted utf8_valid_safe [OF assms] by simp
  moreover have "parse_value (int_dec (po_offset p) @ [CHR ''}'']) = Some (JNum (int_dec (po_offset p)), [CHR ''}''])"
    by (rule parse_int_dec) (simp add: number_char_def is_digit_of_char)
  ultimately show ?thesis
    using json_valid_marshal_position [OF assms]
    by (simp add: json_parse_def marshal_position_safe [OF assms] parse_object parse_members_next
        parse_members_last [of _ _ "[]", simplified])
qed

definition position_ok :: "position \<Rightarrow> bool" where
  "position_ok p \<longleftrightarrow> is_spool_plain_name (po_file p) \<and> 0 \<le> po_offset p \<and> po_offset p < 2 ^ 63"

lemma match_position_fields [simp]:
  "match_field [''file'', ''offset''] ''file'' = Some ''file''"
  "match_field [''file'', ''offset''] ''offset'' = Some ''offset''"
  by (simp_all add: match_field_def)

lemma unmarshal_marshal_position:
  assumes "position_ok p"
  shows "unmarshal store_position (marshal_position p) q = Some p"
proof -
  have safe: "\<forall>c\<in>set (po_file p). safe_byte c" using assms plain_name_safe [of "po_file p"] by (simp add: position_ok_def)
  have "parse_int (int_dec (po_offset p)) = (po_offset p, None)"
    using atoi_int_dec [of "po_offset p"] assms by (simp add: atoi_def position_ok_def)
  then show ?thesis
    by (simp add: unmarshal_def parse_marshal_position [OF safe] store_position_def store_struct_def
        store_string_def store_int64_def)
qed

lemma load_offset_written:
  assumes "look d offset_file_name = Some (Reg (marshal_position p))" "position_ok p"
  shows "load_offset no_faults d = p"
  using assms by (simp add: load_offset_def open_read_def file_bytes_def unmarshal_marshal_position position_ok_def)

section \<open>Tails\<close>

definition complete_prefix :: "bytes \<Rightarrow> bytes" where
  "complete_prefix b = rev (dropWhile (\<lambda>c. c \<noteq> nl) (rev b))"

lemma complete_prefix_line: "nl \<notin> set y \<Longrightarrow> complete_prefix (x @ nl # y) = x @ [nl]"
proof -
  assume "nl \<notin> set y"
  then have "dropWhile (\<lambda>c. c \<noteq> nl) (rev y @ nl # rev x) = nl # rev x"
    by (subst dropWhile_append2) auto
  then show ?thesis by (simp add: complete_prefix_def)
qed

lemma complete_prefix_none: "nl \<notin> set b \<Longrightarrow> complete_prefix b = []"
  by (auto simp: complete_prefix_def dropWhile_eq_Nil_conv)

lemma complete_prefix_split: "\<exists>y. b = complete_prefix b @ y \<and> nl \<notin> set y"
proof -
  have "b = complete_prefix b @ rev (takeWhile (\<lambda>c. c \<noteq> nl) (rev b))"
    by (metis complete_prefix_def rev_append rev_rev_ident takeWhile_dropWhile_id)
  moreover have "nl \<notin> set (rev (takeWhile (\<lambda>c. c \<noteq> nl) (rev b)))"
    by (auto dest: set_takeWhileD)
  ultimately show ?thesis by blast
qed

lemma complete_complete_prefix [simp]: "complete (complete_prefix b)"
  using hd_dropWhile [of "\<lambda>c. c \<noteq> nl" "rev b"] by (auto simp: complete_def complete_prefix_def last_rev)

lemma complete_prefix_id: "complete b \<Longrightarrow> complete_prefix b = b"
proof (cases "b = []")
  case False
  assume "complete b"
  with False obtain x where "b = x @ [nl]" by (metis append_butlast_last_id complete_def)
  then show ?thesis using complete_prefix_line [of "[]" x] by simp
qed (simp add: complete_prefix_def)

lemma complete_prefix_take: "complete_prefix b = take (length (complete_prefix b)) b"
  using complete_prefix_split [of b] by (metis append_eq_conv_conj)

lemma length_complete_prefix: "length (complete_prefix b) \<le> length b"
  using complete_prefix_split [of b] by (metis length_append le_add1)

lemma complete_prefix_eq_iff: "length (complete_prefix b) = length b \<longleftrightarrow> complete_prefix b = b"
  using complete_prefix_take [of b] by auto

lemma line_events_complete_prefix: "line_events (complete_prefix b) = line_events b"
proof -
  obtain y where y: "b = complete_prefix b @ y" "nl \<notin> set y" using complete_prefix_split by blast
  have "line_events b = line_events (complete_prefix b) @ line_events y"
    using line_events_append [of "complete_prefix b" y] y(1) by simp
  then show ?thesis using y(2) by (simp add: line_events_None cut_line_None_iff)
qed

text \<open>The last newline of a chunk.\<close>

lemma last_index_byte_cases:
  obtains "c \<notin> set s" "last_index_byte s c = -1"
  | x y where "s = x @ c # y" "c \<notin> set y" "last_index_byte s c = int (length x)"
proof (cases "c \<in> set s")
  case False
  then have "takeWhile (\<lambda>x. x \<noteq> c) (rev s) = rev s" by (auto simp: takeWhile_eq_all_conv)
  then have "length (takeWhile (\<lambda>x. x \<noteq> c) (rev s)) = length s" by (simp only: length_rev)
  then show ?thesis using that(1) False by (simp add: last_index_byte_def)
next
  case True
  then obtain x y where s: "s = x @ c # y" "c \<notin> set y" by (metis split_list_last)
  then have "takeWhile (\<lambda>x. x \<noteq> c) (rev y @ c # rev x) = rev y"
    by (subst takeWhile_append2) auto
  then show ?thesis using that(2) s by (simp add: last_index_byte_def)
qed

text \<open>The chunked scan finds the last newline, where no read fails.\<close>

lemma complete_length_loop_ok:
  assumes "\<And>k. io (ReadFile n k) = None" "0 \<le> stop" "stop \<le> int (length b)" "nl \<notin> set (drop (nat stop) b)"
  shows "complete_length_loop io n b stop =
    Inr (if complete_prefix b = b then -1 else int (length (complete_prefix b)))"
  using assms
proof (induction io n b stop rule: complete_length_loop.induct)
  case (1 io n b stop)
  note step = complete_length_loop.simps [of io n b stop]
  show ?case
  proof (cases "0 < stop")
    case False
    with "1.prems" have "nl \<notin> set b" by simp
    then have "complete_prefix b = []" by (rule complete_prefix_none)
    with False show ?thesis by (auto simp: step)
  next
    case True
    define start where "start = max (stop - chunk_size) 0"
    define chunk where "chunk = take_int (stop - start) (drop_int start b)"
    have chunk: "chunk = take (nat (stop - start)) (drop (nat start) b)" by (simp add: chunk_def)
    have st: "0 \<le> start" "start < stop" using True by (auto simp: start_def chunk_size_def)
    have len: "nat start + nat (stop - start) = nat stop" using st by linarith
    have b: "b = take (nat start) b @ chunk @ drop (nat stop) b"
    proof -
      have "drop (nat (stop - start)) (drop (nat start) b) = drop (nat stop) b"
        using len by (simp add: add.commute)
      then show ?thesis unfolding chunk by (metis append_take_drop_id)
    qed
    have eq: "complete_length_loop io n b stop =
        (let i = last_index_byte chunk nl
         in if 0 \<le> i then let keep = start + i + 1 in Inr (if keep \<noteq> int (length b) then keep else -1)
            else complete_length_loop io n b start)"
      using True "1.prems"(1) by (simp add: step start_def [symmetric] chunk [symmetric] Let_def)
    show ?thesis
    proof (rule last_index_byte_cases [of nl chunk])
      assume no: "nl \<notin> set chunk" "last_index_byte chunk nl = -1"
      have "drop (nat start) b = chunk @ drop (nat stop) b"
        using len unfolding chunk by (metis append_take_drop_id drop_drop add.commute)
      then have "nl \<notin> set (drop (nat start) b)" using no "1.prems"(4) by simp
      then show ?thesis
        using "1.IH" [OF True start_def chunk_def _ refl] no st "1.prems" by (simp add: eq)
    next
      fix x y
      assume c: "chunk = x @ nl # y" "nl \<notin> set y" "last_index_byte chunk nl = int (length x)"
      have "b = (take (nat start) b @ x) @ nl # (y @ drop (nat stop) b)" using b c(1) by simp
      then have p: "complete_prefix b = (take (nat start) b @ x) @ [nl]"
        using complete_prefix_line [of "y @ drop (nat stop) b" "take (nat start) b @ x"] c(2) "1.prems"(4) by simp
      then have "int (length (complete_prefix b)) = start + int (length x) + 1"
        using st "1.prems"(3) by simp
      moreover from this have "start + int (length x) + 1 = int (length b) \<longleftrightarrow> complete_prefix b = b"
        using complete_prefix_eq_iff [of b] by (metis of_nat_eq_iff)
      ultimately show ?thesis using c(3) by (simp add: eq Let_def)
    qed
  qed
qed

lemma complete_length_no_faults:
  "look d n = Some (Reg b) \<Longrightarrow> complete_length no_faults d n =
     Inr (if complete_prefix b = b then -1 else int (length (complete_prefix b)))"
  using complete_length_loop_ok [of no_faults n "int (length b)" b]
  by (simp add: complete_length_def open_read_def file_bytes_def)

lemma repair_tail_look:
  assumes "look d n = Some (Reg b)"
  shows "look (repair_tail no_faults d n) m = (if m = n then Some (Reg (complete_prefix b)) else look d m)"
proof -
  have "resize (int (length (complete_prefix b))) b = complete_prefix b"
    using length_complete_prefix [of b] complete_prefix_take [of b] by (simp add: resize_def)
  then show ?thesis
    using assms by (auto simp: repair_tail_def complete_length_no_faults truncate_file_def look_put)
qed

lemma repair_tail_other: "m \<noteq> n \<Longrightarrow> look (repair_tail io d n) m = look d m"
  by (simp add: repair_tail_def truncate_file_def look_put split: sum.split option.split node.split)

lemma repair_tail_dir_ok: "dir_ok d \<Longrightarrow> dir_ok (repair_tail io d n)"
  by (simp add: repair_tail_def split: sum.split)

lemma repair_fold_dir_ok: "dir_ok d \<Longrightarrow> dir_ok (foldl (repair_tail io) d ns)"
  by (induction ns arbitrary: d) (simp_all add: repair_tail_dir_ok)

lemma repair_tails_dir_ok [simp]: "dir_ok d \<Longrightarrow> dir_ok (repair_tails io d)"
  by (simp add: repair_tails_def repair_fold_dir_ok)

lemma repair_fold_look:
  assumes "distinct ns" "\<forall>n\<in>set ns. \<exists>b. look d n = Some (Reg b)"
  shows "look (foldl (repair_tail no_faults) d ns) m =
    (if m \<in> set ns then map_option (\<lambda>b. Reg (complete_prefix b)) (file_bytes d m) else look d m)"
  using assms
proof (induction ns arbitrary: d)
  case (Cons n ns)
  from Cons.prems obtain b where b: "look d n = Some (Reg b)" by auto
  let ?d = "repair_tail no_faults d n"
  have l: "look ?d k = (if k = n then Some (Reg (complete_prefix b)) else look d k)" for k
    by (rule repair_tail_look [OF b])
  have "\<forall>k\<in>set ns. \<exists>b. look ?d k = Some (Reg b)" using Cons.prems l by auto
  from Cons.IH [OF _ this] Cons.prems have "look (foldl (repair_tail no_faults) ?d ns) m =
      (if m \<in> set ns then map_option (\<lambda>b. Reg (complete_prefix b)) (file_bytes ?d m) else look ?d m)" by simp
  then show ?case using l [of m] b Cons.prems(1) by (auto simp: file_bytes_def)
qed simp

lemma repair_tails_look:
  assumes "dir_ok d"
  shows "look (repair_tails no_faults d) m =
    (case look d m of
       Some (Reg b) \<Rightarrow> Some (Reg (if is_spool_plain_name m then complete_prefix b else b))
     | x \<Rightarrow> x)"
proof -
  let ?ns = "plain_names no_faults d"
  have mem: "k \<in> set ?ns \<longleftrightarrow> is_spool_plain_name k \<and> (\<exists>b. look d k = Some (Reg b))" for k
    using plain_names_mem [OF assms, of k no_faults] by simp
  have "distinct ?ns" using plain_names_sorted [OF assms] strict_sorted_iff by blast
  from repair_fold_look [OF this, of d m] mem show ?thesis
    by (auto simp: repair_tails_def file_bytes_def split: option.split node.split)
qed

text \<open>Equal sorted lists with the same members.\<close>

lemma plain_names_cong:
  assumes "dir_ok d" "dir_ok d'"
    "\<And>n. is_spool_plain_name n \<Longrightarrow> (\<exists>b. look d n = Some (Reg b)) \<longleftrightarrow> (\<exists>b. look d' n = Some (Reg b))"
  shows "plain_names no_faults d = plain_names no_faults d'"
proof (rule strict_sorted_equal)
  show "set (plain_names no_faults d) = set (plain_names no_faults d')"
  proof (rule set_eqI)
    fix n
    show "n \<in> set (plain_names no_faults d) \<longleftrightarrow> n \<in> set (plain_names no_faults d')"
      using assms(3) [of n] by (cases "is_spool_plain_name n") (simp_all add: plain_names_mem assms(1,2))
  qed
qed (use assms plain_names_sorted in auto)

lemma repair_tails_names: "dir_ok d \<Longrightarrow> plain_names no_faults (repair_tails no_faults d) = plain_names no_faults d"
  by (rule plain_names_cong) (auto simp: repair_tails_look split: option.splits node.splits)

lemma file_bytes_repair:
  "dir_ok d \<Longrightarrow> file_bytes (repair_tails no_faults d) m =
     map_option (\<lambda>b. if is_spool_plain_name m then complete_prefix b else b) (file_bytes d m)"
  by (auto simp: file_bytes_def repair_tails_look split: option.split node.split)

section \<open>Properties\<close>

text \<open>
  C12: The offset file is replaced atomically: whatever system call fails, and wherever a crash
  stops \<open>Commit\<close>, the directory holds the old offset file or the complete new one, and no
  other file has changed but the temporary one; without an error the new one is in place.
\<close>

theorem write_file_atomic_crash_safe:
  "(\<forall>d'\<in>set (d # fst (write_atomic_trace io path data d)).
      (look d' path = look d path \<or> look d' path = Some (Reg data))
      \<and> (\<forall>n. n \<noteq> path \<and> n \<noteq> path @ tmp_suffix \<longrightarrow> look d' n = look d n))
   \<and> (snd (write_file_atomic io path data d) = None \<longrightarrow>
        look (fst (write_file_atomic io path data d)) path = Some (Reg data))"
proof -
  obtain ds e where t: "write_atomic_trace io path data d = (ds, e)" by (cases "write_atomic_trace io path data d")
  obtain d' e' where w: "write_file_atomic io path data d = (d', e')" by (cases "write_file_atomic io path data d")
  have "\<forall>d'\<in>set (d # ds). atomic_state path data d d'"
    using write_atomic_trace_states [OF t] by blast
  then show ?thesis
    using w write_file_atomic_ok [of io path data d d'] by (auto simp: t atomic_state_def)
qed

theorem write_file_atomic_crash_safe_witness:
  "look (hd (fst (write_atomic_trace (\<lambda>c. if c = RenameFile ''.offset.tmp'' then Some 0 else None) ''.offset'' ''{}''
       [(''.offset'', Reg ''old'')]))) ''.offset'' = Some (Reg ''old'')
   \<or> look (hd (fst (write_atomic_trace (\<lambda>c. if c = RenameFile ''.offset.tmp'' then Some 0 else None) ''.offset'' ''{}''
       [(''.offset'', Reg ''old'')]))) ''.offset'' = Some (Reg ''{}'')"
proof -
  let ?ds = "fst (write_atomic_trace (\<lambda>c. if c = RenameFile ''.offset.tmp'' then Some 0 else None) ''.offset'' ''{}''
       [(''.offset'', Reg ''old'')])"
  have "?ds \<noteq> []" by (simp add: write_atomic_trace_def open_trunc_def tmp_suffix_def Let_def split: prod.split option.split)
  then have "hd ?ds \<in> set ?ds" by simp
  then show ?thesis
    using write_file_atomic_crash_safe [of "[(''.offset'', Reg ''old'')]"
      "\<lambda>c. if c = RenameFile ''.offset.tmp'' then Some 0 else None" "''.offset''" "''{}''"] by auto
qed

text \<open>
  C11: A position that was committed without an error is the position that the next start of the
  program reads: the offset file is parsed back exactly, after the repair of the spool's tails.
\<close>

theorem commit_survives_restart:
  assumes "dir_ok (sp_files s)" and "position_ok p" and "commit io p s = (s', None)"
  shows "\<exists>s2. open_spool no_faults (sp_files s') = Inr s2 \<and> sp_committed s2 = p \<and> sp_inflight s2 = p"
proof -
  define s1 where "s1 = (let s = s\<lparr>sp_committed := p\<rparr> in if pos_less (sp_inflight s) p then s\<lparr>sp_inflight := p\<rparr> else s)"
  have f1: "sp_files s1 = sp_files s" by (simp add: s1_def Let_def)
  obtain d e where w: "write_file_atomic io offset_file_name (marshal_position p) (sp_files s) = (d, e)"
    by (cases "write_file_atomic io offset_file_name (marshal_position p) (sp_files s)")
  have "e = None" "sp_files s' = d"
    using assms(3) w by (auto simp: commit_def Let_def split: if_splits)
  with w write_file_atomic_ok have l: "look d offset_file_name = Some (Reg (marshal_position p))" by blast
  have d: "dir_ok d" by (rule write_file_atomic_dir_ok [OF assms(1) w])
  have "\<not> is_spool_plain_name offset_file_name"
    by (auto simp: is_spool_plain_name_iff plain_of_def name_defs)
  then have "look (repair_tails no_faults d) offset_file_name = Some (Reg (marshal_position p))"
    using l repair_tails_look [OF d] by simp
  then have "load_offset no_faults (repair_tails no_faults d) = p" using assms(2) by (rule load_offset_written)
  with \<open>sp_files s' = d\<close> show ?thesis by (simp add: open_spool_def Let_def new_spool_def)
qed

theorem commit_survives_restart_witness:
  "\<exists>s2. open_spool no_faults (sp_files (fst (commit no_faults \<lparr>po_file = ''spool-2024-02-29.jsonl'', po_offset = 4\<rparr> example_spool)))
      = Inr s2 \<and> sp_committed s2 = \<lparr>po_file = ''spool-2024-02-29.jsonl'', po_offset = 4\<rparr>"
proof -
  let ?p = "\<lparr>po_file = ''spool-2024-02-29.jsonl'', po_offset = 4\<rparr>"
  have "is_spool_plain_name ''spool-2024-02-29.jsonl''" by code_simp
  then have p: "position_ok ?p" by (simp add: position_ok_def)
  have "snd (commit no_faults ?p example_spool) = None" by code_simp
  then obtain s' where c: "commit no_faults ?p example_spool = (s', None)"
    by (cases "commit no_faults ?p example_spool") simp
  from commit_survives_restart [OF _ p c] c show ?thesis by auto
qed

text \<open>
  C13: The repair at start makes every spool file end at a line boundary, keeps every other file,
  and loses no event: reading from the start of the files yields the same events as before.
\<close>

theorem repair_tails_keeps_events:
  assumes "dir_ok d"
  shows "(\<forall>n b. is_spool_plain_name n \<and> file_bytes (repair_tails no_faults d) n = Some b \<longrightarrow> complete b)
    \<and> (\<forall>n. \<not> is_spool_plain_name n \<longrightarrow> look (repair_tails no_faults d) n = look d n)
    \<and> pending_at (repair_tails no_faults d) zero_position = pending_at d zero_position"
proof -
  have "events_at (repair_tails no_faults d) n 0 = events_at d n 0" for n
    by (auto simp: events_at_def file_bytes_repair [OF assms] line_events_complete_prefix
        split: option.split simp del: file_bytes_Some)
  then have "pending_at (repair_tails no_faults d) zero_position = pending_at d zero_position"
    by (simp add: pending_at_def pending_from_def zero_position_def repair_tails_names [OF assms] cong: if_cong)
  moreover have "complete b" if "is_spool_plain_name n" "file_bytes (repair_tails no_faults d) n = Some b" for n b
    using that by (auto simp: file_bytes_repair [OF assms] simp del: file_bytes_Some)
  moreover have "look (repair_tails no_faults d) n = look d n" if "\<not> is_spool_plain_name n" for n
    using that by (simp add: repair_tails_look [OF assms] split: option.split node.split)
  ultimately show ?thesis by blast
qed

theorem repair_tails_keeps_events_witness:
  "pending_at (repair_tails no_faults [(''spool-2024-02-29.jsonl'', Reg (''{}'' @ [nl] @ ''{''))]) zero_position
     = pending_at [(''spool-2024-02-29.jsonl'', Reg (''{}'' @ [nl] @ ''{''))] zero_position"
  using repair_tails_keeps_events [of "[(''spool-2024-02-29.jsonl'', Reg (''{}'' @ [nl] @ ''{''))]"]
  by (simp add: dir_ok_def)

end
