(* ===== verification/Spool_Append.thy ===== *)
theory Spool_Append
  imports Spool_Open_Facts Syslog_Facts
begin

text \<open>
  The writer's side of the spool: the invariant of the open file, and what \<open>Append\<close> does to the
  pending events on each of its branches.
\<close>

section \<open>Growing a file\<close>

lemma complete_drop: "complete b \<Longrightarrow> complete (drop k b)"
  by (cases "k < length b") (auto simp: complete_def last_drop)

lemma events_at_append:
  assumes "look d n = Some (Reg b)" "complete b" "look d' n = Some (Reg (b @ x))"
    and "x = [] \<or> off \<le> int (length b)"
  shows "events_at d' n off = events_at d n off @ line_events x"
proof (cases "x = []")
  case False
  with assms(4) have "nat off \<le> length b" by simp
  then have "line_events (drop (nat off) (b @ x)) = line_events (drop (nat off) b) @ line_events x"
    using line_events_append [OF complete_drop [OF assms(2)]] by simp
  with assms False show ?thesis by (simp add: events_at_def file_bytes_def)
qed (use assms in \<open>simp add: events_at_def file_bytes_def\<close>)

lemma events_at_new:
  "look d n = None \<Longrightarrow> look d' n = Some (Reg x) \<Longrightarrow> x = [] \<or> off \<le> 0 \<Longrightarrow>
   events_at d' n off = events_at d n off @ line_events x"
  by (auto simp: events_at_def file_bytes_def)

lemma events_at_cong: "look d' n = look d n \<Longrightarrow> events_at d' n off = events_at d n off"
  by (simp add: events_at_def file_bytes_def)

lemma pending_from_snoc:
  "pending_from d (ns @ [n]) pos =
     pending_from d ns pos @ (if po_file pos \<le> n then events_at d n (if n = po_file pos then po_offset pos else 0) else [])"
  by (simp add: pending_from_def)

lemma pending_from_cong:
  "(\<And>m. m \<in> set ns \<Longrightarrow> look d' m = look d m) \<Longrightarrow> pending_from d' ns pos = pending_from d ns pos"
  by (auto simp: pending_from_def intro!: arg_cong [of _ _ concat] events_at_cong)

text \<open>The last file grows, or a new last file appears: the new events come after all others, and
  are seen when the position is not past the file.\<close>

lemma pending_at_grow:
  assumes d: "dir_ok d" "dir_ok d'" and n: "is_spool_plain_name n" "\<forall>m\<in>set (plain_names no_faults d). m \<le> n"
    and old: "look d n = None \<and> b = [] \<or> look d n = Some (Reg b)" "complete b"
    and new: "look d' n = Some (Reg (b @ x))" "\<forall>m. m \<noteq> n \<longrightarrow> look d' m = look d m"
    and pos: "x = [] \<or> po_file pos \<noteq> n \<or> po_offset pos \<le> int (length b)"
  shows "pending_at d' pos = pending_at d pos @ (if po_file pos \<le> n then line_events x else [])"
proof -
  define ms where "ms = filter (\<lambda>m. m \<noteq> n) (plain_names no_faults d)"
  have srt: "sorted_wrt (<) (plain_names no_faults d)" "sorted_wrt (<) ms"
    using plain_names_sorted [OF d(1)] by (simp_all add: ms_def sorted_wrt_filter)
  have lt: "\<forall>m\<in>set ms. m < n" using n(2) by (auto simp: ms_def)
  have "plain_names no_faults d' = ms @ [n]"
  proof (rule strict_sorted_equal)
    show "set (plain_names no_faults d') = set (ms @ [n])"
      using n(1) new by (auto simp: ms_def plain_names_mem [OF d(1)] plain_names_mem [OF d(2)])
    show "sorted_wrt (<) (ms @ [n])" using srt(2) lt by (simp add: sorted_wrt_append)
  qed (rule plain_names_sorted [OF d(2)])
  moreover have "pending_from d' ms pos = pending_from d ms pos"
    using new(2) by (intro pending_from_cong) (simp add: ms_def)
  moreover have "pending_from d (plain_names no_faults d) pos =
      pending_from d ms pos @ (if po_file pos \<le> n then events_at d n (if n = po_file pos then po_offset pos else 0) else [])"
  proof (cases "n \<in> set (plain_names no_faults d)")
    case True
    have "plain_names no_faults d = ms @ [n]"
    proof (rule strict_sorted_equal)
      show "set (plain_names no_faults d) = set (ms @ [n])" using True by (auto simp: ms_def)
      show "sorted_wrt (<) (ms @ [n])" using srt(2) lt by (simp add: sorted_wrt_append)
    qed (rule srt(1))
    then show ?thesis using pending_from_snoc by metis
  next
    case False
    then have "ms = plain_names no_faults d" by (auto simp: ms_def filter_id_conv)
    moreover have "look d n = None" using False old(1) n(1) by (auto simp: plain_names_mem [OF d(1)])
    then have "events_at d n off = []" for off by (simp add: events_at_def file_bytes_def)
    ultimately show ?thesis by simp
  qed
  moreover have "events_at d' n off = events_at d n off @ line_events x"
    if "off = (if n = po_file pos then po_offset pos else 0)" for off
    using old(1)
  proof
    assume "look d n = None \<and> b = []"
    then show ?thesis using events_at_new [of d n d' x off] new(1) pos that by auto
  next
    assume "look d n = Some (Reg b)"
    then show ?thesis using events_at_append [OF _ old(2) new(1), of d off] pos that by auto
  qed
  ultimately show ?thesis by (simp add: pending_at_def pending_from_snoc)
qed

section \<open>The invariant\<close>

definition files_ok :: "dir \<Rightarrow> bool" where
  "files_ok d \<longleftrightarrow> dir_ok d \<and> (\<forall>n b. is_spool_plain_name n \<and> look d n = Some (Reg b) \<longrightarrow> complete b)"

definition writer_ok :: "spool \<Rightarrow> bool" where
  "writer_ok s \<longleftrightarrow>
     (sp_cur s \<longrightarrow>
        is_spool_plain_name (sp_cur_name s)
        \<and> (\<exists>b. look (sp_files s) (sp_cur_name s) = Some (Reg b) \<and> sp_cur_size s = int (length b))
        \<and> (\<forall>n\<in>set (plain_names no_faults (sp_files s)). n \<le> sp_cur_name s))
     \<and> 0 \<le> sp_unsynced s \<and> sp_unsynced s < sync_every_n"

definition spool_inv :: "spool \<Rightarrow> bool" where
  "spool_inv s \<longleftrightarrow> files_ok (sp_files s) \<and> writer_ok s
     \<and> 0 \<le> po_offset (sp_committed s)"

lemmas inv_defs = spool_inv_def files_ok_def writer_ok_def

text \<open>Faults that let directories be listed and a failed write be cut off.\<close>

definition listing_ok :: "faults \<Rightarrow> bool" where
  "listing_ok io \<longleftrightarrow> io ReadDirectory = None \<and> (\<forall>n. io (StatFile n) = None)"

definition truncate_ok :: "faults \<Rightarrow> bool" where
  "truncate_ok io \<longleftrightarrow> (\<forall>n. io (TruncateFile n) = None)"

lemma listing_ok_no_faults [simp]: "listing_ok no_faults" "truncate_ok no_faults"
  by (simp_all add: listing_ok_def truncate_ok_def)

lemma plain_names_listing:
  "listing_ok io \<Longrightarrow> dir_ok d \<Longrightarrow> plain_names io d = plain_names no_faults d"
  by (rule strict_sorted_equal) (auto simp: plain_names_sorted plain_names_mem listing_ok_def)

lemma new_spool_inv: "files_ok d \<Longrightarrow> 0 \<le> po_offset p \<Longrightarrow> spool_inv (new_spool d p)"
  by (simp add: inv_defs new_spool_def sync_every_n_def)

section \<open>Opening a file\<close>

definition opened :: "dir \<Rightarrow> string \<Rightarrow> dir \<Rightarrow> bool" where
  "opened d n d' \<longleftrightarrow> dir_ok d' \<and> (\<forall>m. m \<noteq> n \<longrightarrow> look d' m = look d m)
     \<and> (look d' n = look d n \<or> look d n = None \<and> look d' n = Some (Reg []))"

lemma open_append_opened:
  assumes "open_append io d n = Some d'" "dir_ok d"
  shows "opened d n d' \<and> (\<exists>b. look d' n = Some (Reg b))"
proof (cases "look d n")
  case None
  with assms have "d' = put d n (Reg [])" by (simp add: open_append_def split: if_splits)
  with assms(2) None show ?thesis by (simp add: opened_def look_put)
next
  case (Some x)
  with assms have "d' = d" "\<exists>b. x = Reg b" by (cases x; simp add: open_append_def split: if_splits)+
  with assms(2) Some show ?thesis by (auto simp: opened_def)
qed

lemma opened_files_ok:
  assumes "files_ok d" "opened d n d'"
  shows "files_ok d'"
proof -
  have "complete b" if "is_spool_plain_name m" "look d' m = Some (Reg b)" for m b
    using assms that by (cases "m = n") (auto simp: files_ok_def opened_def)
  with assms(2) show ?thesis by (auto simp: files_ok_def opened_def)
qed

lemma opened_pending:
  assumes "files_ok d" "opened d n d'" "is_spool_plain_name n" "\<forall>m\<in>set (plain_names no_faults d). m \<le> n"
  shows "pending_at d' pos = pending_at d pos"
proof (cases "look d' n = look d n")
  case True
  have d: "dir_ok d" "dir_ok d'" using assms(1,2) by (simp_all add: files_ok_def opened_def)
  have l: "look d' m = look d m" for m using True assms(2) by (cases "m = n") (simp_all add: opened_def)
  have "plain_names no_faults d' = plain_names no_faults d"
    by (rule plain_names_cong [OF d(2,1)]) (simp only: l)
  moreover have "pending_from d' ns pos = pending_from d ns pos" for ns
    by (rule pending_from_cong) (simp only: l)
  ultimately show ?thesis by (simp add: pending_at_def)
next
  case False
  with assms(2) have "look d n = None" "look d' n = Some (Reg ([] @ []))" by (auto simp: opened_def)
  then show ?thesis
    using pending_at_grow [of d d' n "[]" "[]" pos] assms by (simp add: files_ok_def opened_def)
qed

lemma opened_names:
  assumes "dir_ok d" "opened d n d'" "m \<in> set (plain_names no_faults d')"
  shows "m = n \<or> m \<in> set (plain_names no_faults d)"
  using assms by (auto simp: plain_names_mem opened_def)

text \<open>The name that is opened is not before any spool file.\<close>

lemma open_name_last:
  assumes "spool_inv s" "listing_ok io" "is_spool_plain_name name" "\<not> sp_cur s \<or> sp_cur_name s < name"
  shows "is_spool_plain_name (open_name io name s) \<and> name \<le> open_name io name s
    \<and> (\<forall>m\<in>set (plain_names no_faults (sp_files s)). m \<le> open_name io name s)"
proof (cases "sp_cur s")
  case True
  with assms show ?thesis by (force simp: open_name_def inv_defs)
next
  case False
  let ?ns = "plain_names no_faults (sp_files s)"
  have d: "dir_ok (sp_files s)" using assms(1) by (simp add: inv_defs)
  have ns: "plain_names io (sp_files s) = ?ns" by (rule plain_names_listing [OF assms(2) d])
  show ?thesis
  proof (cases "?ns = []")
    case True
    with False assms(3) ns show ?thesis by (simp add: open_name_def)
  next
    case nonempty: False
    have "is_spool_plain_name (last ?ns)"
      using last_in_set [OF nonempty] by (simp add: plain_names_mem [OF d])
    moreover have "\<forall>m\<in>set ?ns. m \<le> last ?ns"
    proof -
      have "sorted_wrt (<) (butlast ?ns @ [last ?ns])" using plain_names_sorted [OF d] nonempty by simp
      then have "\<forall>m\<in>set (butlast ?ns). m < last ?ns" by (simp add: sorted_wrt_append)
      moreover have "set ?ns = insert (last ?ns) (set (butlast ?ns))"
        using append_butlast_last_id [OF nonempty] by (metis Un_insert_right append_Nil2 list.simps(15) set_append)
      ultimately show ?thesis by (auto intro: less_imp_le)
    qed
    ultimately show ?thesis
      using False assms(3) ns nonempty by (auto simp: open_name_def Let_def intro: order.trans less_imp_le)
  qed
qed

lemma close_current_simps [simp]:
  "sp_files (close_current io s) = sp_files s" "\<not> sp_cur (close_current io s)"
  "sp_committed (close_current io s) = sp_committed s" "sp_inflight (close_current io s) = sp_inflight s"
  by (simp_all add: close_current_def sync_locked_def)

lemma close_current_inv: "spool_inv s \<Longrightarrow> spool_inv (close_current io s)"
  by (simp add: inv_defs close_current_def sync_locked_def sync_every_n_def)

lemma open_locked_result:
  assumes inv: "spool_inv s" and io: "listing_ok io" and name: "is_spool_plain_name name"
    and older: "\<not> sp_cur s \<or> sp_cur_name s < name" and run: "open_locked io name s = (s', e)"
  shows "spool_inv s' \<and> sp_committed s' = sp_committed s \<and> sp_inflight s' = sp_inflight s
    \<and> (\<forall>pos. pending_at (sp_files s') pos = pending_at (sp_files s) pos)
    \<and> (if e = None then sp_cur s' \<and> name \<le> sp_cur_name s'
          \<and> (look (sp_files s') (sp_cur_name s') = look (sp_files s) (sp_cur_name s')
             \<or> look (sp_files s) (sp_cur_name s') = None \<and> look (sp_files s') (sp_cur_name s') = Some (Reg []))
        else \<not> sp_cur s' \<and> (\<exists>n. e = Some (OpenFile n)))
    \<and> (\<forall>m. m \<noteq> sp_cur_name s' \<longrightarrow> look (sp_files s') m = look (sp_files s) m)"
proof -
  define n where "n = open_name io name s"
  define s0 where "s0 = close_current io s"
  have inv0: "spool_inv s0" by (simp add: s0_def close_current_inv inv)
  have files0: "files_ok (sp_files s)" using inv by (simp add: spool_inv_def)
  from open_name_last [OF inv io name older] have n: "is_spool_plain_name n" "name \<le> n"
    "\<forall>m\<in>set (plain_names no_faults (sp_files s)). m \<le> n" by (simp_all add: n_def)
  show ?thesis
  proof (cases "open_append io (sp_files s) n")
    case None
    then have "s' = s0" "e = Some (OpenFile n)"
      using run by (simp_all add: open_locked_def Let_def n_def [symmetric] s0_def)
    with inv0 show ?thesis by (simp add: s0_def)
  next
    case (Some d)
    then have s': "s' = s0\<lparr>sp_files := d, sp_cur := True, sp_cur_name := n, sp_cur_size := file_size d n, sp_unsynced := 0\<rparr>"
      and e: "e = None"
      using run io by (simp_all add: open_locked_def Let_def n_def [symmetric] s0_def listing_ok_def)
    from open_append_opened [OF Some] files0 obtain b where o: "opened (sp_files s) n d" "look d n = Some (Reg b)"
      by (auto simp: files_ok_def)
    have "\<forall>m\<in>set (plain_names no_faults d). m \<le> n"
      using opened_names [OF _ o(1)] n(3) files0 by (auto simp: files_ok_def)
    then have "spool_inv s'"
      using inv0 opened_files_ok [OF files0 o(1)] n(1) o(2)
      by (simp add: s' spool_inv_def writer_ok_def file_size_def sync_every_n_def)
    then show ?thesis
      using opened_pending [OF files0 o(1) n(1,3)] e n(2) o(1) by (auto simp: s' s0_def opened_def)
  qed
qed

section \<open>Writing a line\<close>

lemma sync_locked_simps [simp]:
  "sp_files (fst (sync_locked io s)) = sp_files s" "sp_cur (fst (sync_locked io s)) = sp_cur s"
  "sp_cur_name (fst (sync_locked io s)) = sp_cur_name s" "sp_cur_size (fst (sync_locked io s)) = sp_cur_size s"
  "sp_committed (fst (sync_locked io s)) = sp_committed s" "sp_inflight (fst (sync_locked io s)) = sp_inflight s"
  by (simp_all add: sync_locked_def)

text \<open>The position is not past the end of the file that is written.\<close>

definition behind :: "position \<Rightarrow> dir \<Rightarrow> string \<Rightarrow> bool" where
  "behind pos d n \<longleftrightarrow> po_file pos \<le> n \<and> (po_file pos = n \<longrightarrow> po_offset pos \<le> file_size d n)"

lemma write_locked_stored:
  assumes inv: "spool_inv s" and cur: "sp_cur s" and line: "complete line"
    and wr: "io (WriteFile (sp_cur_name s)) = None" and run: "write_locked io line s = (s', e)"
  shows "spool_inv s' \<and> sp_committed s' = sp_committed s \<and> sp_cur_name s' = sp_cur_name s
    \<and> (e = None \<or> e = Some (SyncFile (sp_cur_name s)))
    \<and> (behind pos (sp_files s) (sp_cur_name s) \<longrightarrow>
        pending_at (sp_files s') pos = pending_at (sp_files s) pos @ line_events line)"
proof -
  let ?n = "sp_cur_name s"
  let ?d = "append_bytes (sp_files s) ?n line"
  define s1 where "s1 = s\<lparr>sp_files := ?d, sp_cur_size := sp_cur_size s + int (length line), sp_unsynced := sp_unsynced s + 1\<rparr>"
  have s': "(if sync_every_n \<le> sp_unsynced s1 then sync_locked io s1 else (s1, None)) = (s', e)"
    using run wr by (auto simp: write_locked_def Let_def s1_def split: if_splits)
  from inv cur obtain b where w: "is_spool_plain_name ?n" "look (sp_files s) ?n = Some (Reg b)" "sp_cur_size s = int (length b)"
    "\<forall>m\<in>set (plain_names no_faults (sp_files s)). m \<le> ?n" "0 \<le> sp_unsynced s" "sp_unsynced s < sync_every_n"
    by (auto simp: spool_inv_def writer_ok_def)
  have fo: "files_ok (sp_files s)" "dir_ok (sp_files s)" "dir_ok ?d" using inv by (simp_all add: spool_inv_def files_ok_def)
  have b: "complete b" using fo(1) w(1,2) unfolding files_ok_def by blast
  have ln: "look ?d ?n = Some (Reg (b @ line))" using w(2) by (simp add: append_bytes_def look_put)
  have lo: "\<forall>m. m \<noteq> ?n \<longrightarrow> look ?d m = look (sp_files s) m" by (simp add: look_append_other)
  have "complete c" if "is_spool_plain_name m" "look ?d m = Some (Reg c)" for m c
    using that ln lo fo(1) complete_append [OF b line] by (cases "m = ?n") (auto simp: files_ok_def)
  then have fo': "files_ok ?d" using fo(3) by (auto simp: files_ok_def)
  have names: "\<forall>m\<in>set (plain_names no_faults ?d). m \<le> ?n"
  proof
    fix m
    assume "m \<in> set (plain_names no_faults ?d)"
    with lo have "m = ?n \<or> m \<in> set (plain_names no_faults (sp_files s))"
      by (auto simp: plain_names_mem [OF fo(2)] plain_names_mem [OF fo(3)])
    with w(4) show "m \<le> ?n" by auto
  qed
  have "sp_cur s'" "sp_cur_name s' = ?n" "sp_files s' = ?d" "sp_cur_size s' = int (length (b @ line))"
    "0 \<le> sp_unsynced s'" "sp_unsynced s' < sync_every_n" "sp_committed s' = sp_committed s" "sp_inflight s' = sp_inflight s"
    "e = None \<or> e = Some (SyncFile ?n)"
    using s' w(3,5,6) cur
    by (auto simp: s1_def sync_locked_def call_error_def sync_every_n_def split: if_splits)
  moreover have "pending_at ?d pos = pending_at (sp_files s) pos @ line_events line" if "behind pos (sp_files s) ?n"
  proof -
    have "line = [] \<or> po_file pos \<noteq> ?n \<or> po_offset pos \<le> int (length b)"
      using that w(2) by (auto simp: behind_def file_size_def)
    from pending_at_grow [OF fo(2,3) w(1,4) _ b ln lo this] w(2) that show ?thesis by (simp add: behind_def)
  qed
  ultimately show ?thesis
    using inv w(1) fo' ln names unfolding spool_inv_def writer_ok_def by auto
qed

lemma write_locked_failed:
  assumes inv: "spool_inv s" and cur: "sp_cur s" and io: "truncate_ok io"
    and wr: "io (WriteFile (sp_cur_name s)) \<noteq> None" and run: "write_locked io line s = (s', e)"
  shows "e = Some (WriteFile (sp_cur_name s)) \<and> s' = s"
proof -
  let ?n = "sp_cur_name s"
  from inv cur obtain b where w: "look (sp_files s) ?n = Some (Reg b)" "sp_cur_size s = int (length b)"
    by (auto simp: spool_inv_def writer_ok_def)
  have "dir_ok (sp_files s)" using inv by (simp add: spool_inv_def files_ok_def)
  then have "truncate_file (append_bytes (sp_files s) ?n x) ?n (sp_cur_size s) = sp_files s" for x
    using w by (simp add: append_bytes_def truncate_file_def look_put resize_append put_put put_same)
  then show ?thesis
    using run wr io by (auto simp: write_locked_def Let_def truncate_ok_def)
qed

section \<open>Properties of Append\<close>

lemma append_result:
  assumes inv: "spool_inv s" and t: "four_digit t" and io: "listing_ok io" "truncate_ok io"
    and line: "complete line" and run: "append_line io t line s = (s', e)"
  shows "spool_inv s' \<and> sp_committed s' = sp_committed s
    \<and> (if e = None \<or> (\<exists>n. e = Some (SyncFile n))
        then behind (sp_committed s) (sp_files s) (sp_cur_name s') \<longrightarrow> pending s' = pending s @ line_events line
        else pending s' = pending s)"
proof (cases "io WriteHook = None")
  case False
  with run inv show ?thesis by (auto simp: append_line_def)
next
  case True
  obtain s1 e1 where o: "(if \<not> sp_cur s \<or> sp_cur_name s < spool_name t then open_locked io (spool_name t) s else (s, None)) = (s1, e1)"
    by fastforce
  have opened: "spool_inv s1 \<and> sp_committed s1 = sp_committed s
    \<and> pending s1 = pending s
    \<and> (if e1 = None then sp_cur s1 \<and> file_size (sp_files s1) (sp_cur_name s1) = file_size (sp_files s) (sp_cur_name s1)
       else \<exists>n. e1 = Some (OpenFile n))"
  proof (cases "\<not> sp_cur s \<or> sp_cur_name s < spool_name t")
    case True
    with o have run1: "open_locked io (spool_name t) s = (s1, e1)" by simp
    from open_locked_result [OF inv io(1) spool_name_plain [OF t] True run1]
    show ?thesis by (auto simp: pending_def file_size_def split: if_splits)
  qed (use o inv in simp)
  show ?thesis
  proof (cases e1)
    case (Some c)
    with opened o True run show ?thesis by (auto simp: append_line_def)
  next
    case None
    with o True run have w: "write_locked io line s1 = (s', e)" by (simp add: append_line_def)
    show ?thesis
    proof (cases "io (WriteFile (sp_cur_name s1)) = None")
      case True
      from write_locked_stored [OF _ _ line True w, of "sp_committed s"] opened None
      show ?thesis by (auto simp: pending_def behind_def)
    next
      case False
      from write_locked_failed [OF _ _ io(2) False w] opened None show ?thesis by auto
    qed
  qed
qed

text \<open>
  C8: What \<open>Append\<close> does on every branch. The writer's invariant is kept: complete files, the
  open file last, its recorded size right, fewer than a hundred unsynced lines. Without an error,
  and also with an error of the periodic sync, the line's event is added at the end of the pending
  events, as long as the committed position is not past the end of the file that is written; with
  any other error the pending events are unchanged, so a failed write leaves no half line.
\<close>

theorem append_line_outcome:
  assumes inv: "spool_inv s" and t: "four_digit t" and io: "listing_ok io" "truncate_ok io"
    and line: "complete line" and run: "append_line io t line s = (s', e)"
  shows "spool_inv s' \<and> sp_committed s' = sp_committed s
    \<and> (if e = None \<or> (\<exists>n. e = Some (SyncFile n))
        then behind (sp_committed s) (sp_files s) (sp_cur_name s') \<longrightarrow> pending s' = pending s @ line_events line
        else pending s' = pending s)"
  using append_result [OF assms] .

lemma example_spool_inv [simp]: "spool_inv example_spool"
proof -
  have "complete (''{}'' @ [nl])" "complete (''[1]'' @ [nl] @ ''[2]'' @ [nl])" by (simp_all add: complete_def)
  moreover have "\<not> is_spool_plain_name ''.offset''" by code_simp
  ultimately have "files_ok example_dir"
    by (auto simp: files_ok_def example_dir_def dir_ok_def split: if_splits)
  then show ?thesis unfolding example_spool_def by (rule new_spool_inv) simp
qed

theorem append_line_outcome_witness:
  "spool_inv (fst (append_line (\<lambda>c. if c = WriteFile ''spool-2024-02-29.jsonl'' then Some 1 else None) 0 (''{}'' @ [nl]) example_spool))"
proof -
  let ?io = "\<lambda>c. if c = WriteFile ''spool-2024-02-29.jsonl'' then Some (1::nat) else None"
  obtain s' e where r: "append_line ?io 0 (''{}'' @ [nl]) example_spool = (s', e)"
    by (cases "append_line ?io 0 (''{}'' @ [nl]) example_spool")
  have "four_digit 0" by code_simp
  moreover have "listing_ok ?io" "truncate_ok ?io" by (simp_all add: listing_ok_def truncate_ok_def)
  moreover have "complete (''{}'' @ [nl])" by (simp add: complete_def)
  ultimately show ?thesis using append_line_outcome [OF example_spool_inv _ _ _ _ r] r by simp
qed

end
