(* ===== verification/Spool_Queue.thy ===== *)
theory Spool_Queue
  imports Spool_Append
begin

text \<open>
  The contract between the spool and the forwarder, as a queue: a batch is the front of the queue,
  advancing past it removes exactly the batch, and a new event goes to the end. What a client may
  conclude is proved once from the contract; the spool's operations are shown to fulfil it.
\<close>

section \<open>The interface\<close>

locale batch_queue =
  fixes ok :: "'q \<Rightarrow> bool" and queued :: "'q \<Rightarrow> 'e list"
    and peek :: "nat \<Rightarrow> 'q \<Rightarrow> 'e list \<times> 'p" and advance :: "'p \<Rightarrow> 'q \<Rightarrow> 'q"
  assumes peek_front: "ok q \<Longrightarrow> fst (peek n q) = take n (queued q)"
    and advance_rest: "ok q \<Longrightarrow> queued (advance (snd (peek n q)) q) = drop n (queued q)"
    and advance_ok: "ok q \<Longrightarrow> ok (advance (snd (peek n q)) q)"
begin

text \<open>Batches of the given sizes, each acknowledged before the next is read.\<close>

fun drain :: "nat list \<Rightarrow> 'q \<Rightarrow> 'e list list \<times> 'q" where
  "drain [] q = ([], q)"
| "drain (n # ns) q =
     (let (es, p) = peek n q; (rest, q') = drain ns (advance p q) in (es # rest, q'))"

lemma drain_order:
  "ok q \<Longrightarrow> concat (fst (drain ns q)) @ queued (snd (drain ns q)) = queued q \<and> ok (snd (drain ns q))"
proof (induction ns arbitrary: q)
  case (Cons n ns)
  obtain es p where p: "peek n q = (es, p)" by (cases "peek n q")
  then have "queued (advance p q) = drop n (queued q)" "ok (advance p q)" "es = take n (queued q)"
    using advance_rest [OF Cons.prems, of n] advance_ok [OF Cons.prems, of n] peek_front [OF Cons.prems, of n] by simp_all
  with Cons.IH [of "advance p q"] p show ?case by (auto simp: case_prod_beta)
qed simp

lemma drain_sizes: "ok q \<Longrightarrow> concat (fst (drain ns q)) = take (sum_list ns) (queued q)"
proof (induction ns arbitrary: q)
  case (Cons n ns)
  obtain es p where p: "peek n q = (es, p)" by (cases "peek n q")
  then have "queued (advance p q) = drop n (queued q)" "ok (advance p q)" "es = take n (queued q)"
    using advance_rest [OF Cons.prems, of n] advance_ok [OF Cons.prems, of n] peek_front [OF Cons.prems, of n] by simp_all
  with Cons.IH [of "advance p q"] p show ?case by (simp add: case_prod_beta take_add)
qed simp

text \<open>A batch that was not acknowledged is read again.\<close>

lemma peek_again: "ok q \<Longrightarrow> fst (peek n q) = fst (peek n q) \<and> take n (fst (peek (n + k) q)) = fst (peek n q)"
  by (simp add: peek_front min_def)

end

locale event_queue = batch_queue ok queued peek advance
  for ok :: "'q \<Rightarrow> bool" and queued :: "'q \<Rightarrow> 'e list"
    and peek :: "nat \<Rightarrow> 'q \<Rightarrow> 'e list \<times> 'p" and advance :: "'p \<Rightarrow> 'q \<Rightarrow> 'q" +
  fixes accepts :: "'x \<Rightarrow> 'q \<Rightarrow> bool" and event :: "'x \<Rightarrow> 'e" and enqueue :: "'x \<Rightarrow> 'q \<Rightarrow> 'q"
  assumes enqueue_end: "ok q \<Longrightarrow> accepts x q \<Longrightarrow> queued (enqueue x q) = queued q @ [event x]"
    and enqueue_ok: "ok q \<Longrightarrow> accepts x q \<Longrightarrow> ok (enqueue x q)"
begin

text \<open>An event that was accepted is read after all that were there before, and not earlier.\<close>

lemma enqueued_is_read:
  "ok q \<Longrightarrow> accepts x q \<Longrightarrow>
   concat (fst (drain [length (queued q), 1] (enqueue x q))) = queued q @ [event x]"
  using drain_sizes [OF enqueue_ok, of q x "[length (queued q), 1]"] by (simp add: enqueue_end)

lemma enqueue_keeps_front:
  "ok q \<Longrightarrow> accepts x q \<Longrightarrow> n \<le> length (queued q) \<Longrightarrow> fst (peek n (enqueue x q)) = fst (peek n q)"
  by (simp add: peek_front enqueue_ok enqueue_end)

end

section \<open>Committing\<close>

lemma offset_names_not_plain [simp]:
  "\<not> is_spool_plain_name offset_file_name" "\<not> is_spool_plain_name (offset_file_name @ tmp_suffix)"
  by (auto simp: is_spool_plain_name_iff plain_of_def name_defs tmp_suffix_def)

text \<open>A change that touches no plain file keeps the names, the events and the invariant.\<close>

definition plain_same :: "dir \<Rightarrow> dir \<Rightarrow> bool" where
  "plain_same d d' \<longleftrightarrow> dir_ok d' \<and> (\<forall>n. is_spool_plain_name n \<longrightarrow> look d' n = look d n)"

lemma plain_same_names: "dir_ok d \<Longrightarrow> plain_same d d' \<Longrightarrow> plain_names no_faults d' = plain_names no_faults d"
  by (rule plain_names_cong) (auto simp: plain_same_def)

lemma plain_same_pending:
  assumes "dir_ok d" "plain_same d d'"
  shows "pending_at d' pos = pending_at d pos"
proof -
  have "pending_from d' (plain_names no_faults d) pos = pending_from d (plain_names no_faults d) pos"
    by (rule pending_from_cong) (use assms in \<open>auto simp: plain_same_def plain_names_mem\<close>)
  then show ?thesis by (simp add: pending_at_def plain_same_names [OF assms])
qed

lemma plain_same_inv:
  assumes "spool_inv s" "plain_same (sp_files s) d"
  shows "spool_inv (s\<lparr>sp_files := d\<rparr>)"
  using assms plain_same_names [of "sp_files s" d]
  by (auto simp: inv_defs plain_same_def)

lemma spool_inv_dir: "spool_inv s \<Longrightarrow> dir_ok (sp_files s)"
  by (simp add: inv_defs)

lemma commit_result:
  assumes inv: "spool_inv s" and p: "0 \<le> po_offset p" and run: "commit io p s = (s', e)"
  shows "spool_inv s' \<and> sp_committed s' = p \<and> plain_same (sp_files s) (sp_files s')
    \<and> sp_cur s' = sp_cur s \<and> sp_cur_name s' = sp_cur_name s"
proof -
  define s1 where "s1 = (let s = s\<lparr>sp_committed := p\<rparr> in if pos_less (sp_inflight s) p then s\<lparr>sp_inflight := p\<rparr> else s)"
  have i1: "spool_inv s1" using inv p by (simp add: s1_def Let_def inv_defs)
  have f1: "sp_files s1 = sp_files s" "sp_committed s1 = p" "sp_cur s1 = sp_cur s" "sp_cur_name s1 = sp_cur_name s"
    by (simp_all add: s1_def Let_def)
  obtain d e' where w: "write_file_atomic io offset_file_name (marshal_position p) (sp_files s) = (d, e')"
    by (cases "write_file_atomic io offset_file_name (marshal_position p) (sp_files s)")
  have s': "s' = s1\<lparr>sp_files := d\<rparr>"
    using run w by (auto simp: commit_def s1_def Let_def split: if_splits)
  have "dir_ok d" using write_file_atomic_dir_ok [OF _ w] inv by (simp add: inv_defs)
  moreover have "n \<noteq> offset_file_name \<and> n \<noteq> offset_file_name @ tmp_suffix" if "is_spool_plain_name n" for n
    using that offset_names_not_plain by metis
  ultimately have "plain_same (sp_files s) d"
    using write_file_atomic_state [OF w] by (simp add: plain_same_def atomic_state_def)
  with plain_same_inv [of s1 d] i1 f1 show ?thesis by (simp add: s')
qed

lemma commit_pending:
  assumes "spool_inv s" "0 \<le> po_offset p" "commit io p s = (s', e)"
  shows "spool_inv s'" "sp_committed s' = p" "pending s' = pending_at (sp_files s) p"
  using commit_result [OF assms] plain_same_pending [OF spool_inv_dir [OF assms(1)], of "sp_files s'" p]
  by (simp_all add: pending_def)

section \<open>The spool is a queue\<close>

definition spool_peek :: "nat \<Rightarrow> spool \<Rightarrow> bytes list \<times> position" where
  "spool_peek n s =
     (case ReadBatch no_faults (int n) s of
        Some (s', lines, pos, e) \<Rightarrow> (lines, pos)
      | None \<Rightarrow> ([], sp_committed s))"

definition spool_advance :: "position \<Rightarrow> spool \<Rightarrow> spool" where
  "spool_advance p s = fst (commit no_faults p s)"

lemma spool_peek_result:
  assumes "spool_inv s"
  shows "fst (spool_peek n s) = take n (pending s)"
    and "pending_at (sp_files s) (snd (spool_peek n s)) = drop n (pending s)"
    and "0 \<le> po_offset (snd (spool_peek n s))"
proof -
  let ?ns = "plain_names no_faults (sp_files s)"
  from assms have d: "dir_ok (sp_files s)" and o: "0 \<le> po_offset (sp_committed s)" by (simp_all add: inv_defs)
  obtain s' lines pos where r: "ReadBatch no_faults (int n) s = Some (s', lines, pos, None)"
    "lines = take n (pending s)" "pending_at (sp_files s) pos = drop n (pending s)" "0 \<le> po_offset pos"
    using read_batch_result [OF d o, of "int n" True] by (auto simp: ReadBatch_def)
  then show "fst (spool_peek n s) = take n (pending s)"
    "pending_at (sp_files s) (snd (spool_peek n s)) = drop n (pending s)"
    "0 \<le> po_offset (snd (spool_peek n s))"
    by (simp_all add: spool_peek_def)
qed

lemma spool_advance_result:
  assumes "spool_inv s" "0 \<le> po_offset p"
  shows "spool_inv (spool_advance p s)" "pending (spool_advance p s) = pending_at (sp_files s) p"
proof -
  obtain s' e where c: "commit no_faults p s = (s', e)" by (cases "commit no_faults p s")
  from commit_pending [OF assms c] c
  show "spool_inv (spool_advance p s)" "pending (spool_advance p s) = pending_at (sp_files s) p"
    by (simp_all add: spool_advance_def)
qed

text \<open>An event as it is handed to \<open>Append\<close>: the time and the body of the line.\<close>

definition spool_accepts :: "gtime \<times> bytes \<Rightarrow> spool \<Rightarrow> bool" where
  "spool_accepts x s \<longleftrightarrow>
     four_digit (fst x) \<and> line_events (snd x @ [nl]) = [snd x] \<and> nl \<notin> set (snd x)
     \<and> snd (append_line no_faults (fst x) (snd x @ [nl]) s) = None
     \<and> behind (sp_committed s) (sp_files s) (sp_cur_name (fst (append_line no_faults (fst x) (snd x @ [nl]) s)))"

definition spool_enqueue :: "gtime \<times> bytes \<Rightarrow> spool \<Rightarrow> spool" where
  "spool_enqueue x s = fst (append_line no_faults (fst x) (snd x @ [nl]) s)"

lemma spool_enqueue_result:
  assumes "spool_inv s" "spool_accepts x s"
  shows "spool_inv (spool_enqueue x s)" "pending (spool_enqueue x s) = pending s @ [snd x]"
proof -
  obtain s' where a: "append_line no_faults (fst x) (snd x @ [nl]) s = (s', None)"
    using assms(2) by (cases "append_line no_faults (fst x) (snd x @ [nl]) s") (simp add: spool_accepts_def)
  from append_result [OF assms(1) _ _ _ _ a] assms(2) a
  show "spool_inv (spool_enqueue x s)" "pending (spool_enqueue x s) = pending s @ [snd x]"
    by (simp_all add: spool_accepts_def spool_enqueue_def)
qed

interpretation spq: event_queue spool_inv pending spool_peek spool_advance spool_accepts snd spool_enqueue
  by unfold_locales (simp_all add: spool_peek_result spool_advance_result spool_enqueue_result)

text \<open>
  C7: Delivery in order, each event once: reading batches of any sizes and committing each before
  the next hands out exactly the pending events from the front, and leaves exactly the rest.
\<close>

theorem spool_drain_exactly_once:
  assumes "spool_inv s"
  shows "concat (fst (spq.drain ns s)) = take (sum_list ns) (pending s)
    \<and> concat (fst (spq.drain ns s)) @ pending (snd (spq.drain ns s)) = pending s"
  using spq.drain_sizes [OF assms] spq.drain_order [OF assms] by simp

theorem spool_drain_exactly_once_witness:
  "concat (fst (spq.drain [1, 2] example_spool)) = take 3 (pending example_spool)"
  using spool_drain_exactly_once [OF example_spool_inv, of "[1, 2]"] by (simp add: numeral_3_eq_3)

end
