(* ===== verification/Spool_Clean.thy ===== *)
theory Spool_Clean
  imports Spool_Queue
begin

text \<open>
  The janitor's side of \<open>internal/agent/spool.go\<close>: counting the lines of a file, removing files
  by age and by total size (\<open>Cleanup\<close>, \<open>removeLocked\<close>), compressing forwarded files
  (\<open>compress\<close>), and the dead-letter files (\<open>WriteDeadLetter\<close>, \<open>cleanupDeadLetters\<close>). The
  compression itself, \<open>compress/gzip\<close>, is a parameter \<open>gz\<close>.
\<close>

section \<open>countLines\<close>

text \<open>A chunk at a time; the count so far is returned also with an error.\<close>

function count_loop :: "faults \<Rightarrow> string \<Rightarrow> bytes \<Rightarrow> int \<Rightarrow> int \<Rightarrow> int \<times> syscall option" where
  "count_loop io n rest off k =
     (if io (ReadFile n off) \<noteq> None then (k, Some (ReadFile n off))
      else
        let chunk = take_int chunk_size rest
        in if chunk = [] then (k, None)
           else count_loop io n (drop_int chunk_size rest) (off + int (length chunk))
                  (k + int (length (filter (\<lambda>c. c = nl) chunk))))"
  by pat_completeness auto
termination
  by (relation "measure (\<lambda>(io, n, rest, off, k). length rest)") (auto simp: chunk_size_def)

declare count_loop.simps [simp del]

definition count_lines :: "faults \<Rightarrow> dir \<Rightarrow> string \<Rightarrow> int \<Rightarrow> int \<times> syscall option" where
  "count_lines io d n start =
     (case open_read io d n of
        None \<Rightarrow> (0, Some (OpenFile n))
      | Some b \<Rightarrow> count_loop io n (drop_int start b) start 0)"

section \<open>Removing files\<close>

text \<open>The later of the committed position and the end of the batch in flight.\<close>

definition effective_position :: "spool \<Rightarrow> position" where
  "effective_position s =
     (if pos_less (sp_committed s) (sp_inflight s) then sp_inflight s else sp_committed s)"

definition unforwarded_lines :: "faults \<Rightarrow> spool_file \<Rightarrow> spool \<Rightarrow> int" where
  "unforwarded_lines io f s =
     (let eff = effective_position s
      in if \<not> sf_gz f \<and> po_file eff \<le> sf_name f
         then fst (count_lines io (sp_files s) (sf_name f) (if sf_name f = po_file eff then po_offset eff else 0))
         else 0)"

definition remove_locked :: "faults \<Rightarrow> spool_file \<Rightarrow> spool \<Rightarrow> spool \<times> int \<times> bool" where
  "remove_locked io f s =
     (let dropped = unforwarded_lines io f s
      in case remove io (sp_files s) (sf_name f) of
           None \<Rightarrow> (s, 0, False)
         | Some d \<Rightarrow> (s\<lparr>sp_files := d\<rparr>, dropped, True))"

text \<open>The first loop: files past the retention; the second: oldest first while over the limit.\<close>

fun remove_old ::
  "faults \<Rightarrow> string \<Rightarrow> string \<Rightarrow> spool_file list \<Rightarrow> spool \<Rightarrow> spool \<times> int \<times> spool_file list" where
  "remove_old io cutoff current [] s = (s, 0, [])"
| "remove_old io cutoff current (f # fs) s =
     (if sf_date f < cutoff \<and> sf_name f \<noteq> current
      then case remove_locked io f s of
             (s, n, True) \<Rightarrow> (case remove_old io cutoff current fs s of (s, m, kept) \<Rightarrow> (s, n + m, kept))
           | (s, n, False) \<Rightarrow> (case remove_old io cutoff current fs s of (s, m, kept) \<Rightarrow> (s, m, f # kept))
      else case remove_old io cutoff current fs s of (s, m, kept) \<Rightarrow> (s, m, f # kept))"

fun remove_excess ::
  "faults \<Rightarrow> string \<Rightarrow> int \<Rightarrow> spool_file list \<Rightarrow> int \<Rightarrow> spool \<Rightarrow> spool \<times> int \<times> spool_file list" where
  "remove_excess io current mx [] tot s = (s, 0, [])"
| "remove_excess io current mx (f # fs) tot s =
     (if tot \<le> mx then (s, 0, f # fs)
      else if sf_name f = current then (s, 0, f # fs)
      else case remove_locked io f s of
             (s, n, False) \<Rightarrow> (s, 0, f # fs)
           | (s, n, True) \<Rightarrow>
               (case remove_excess io current mx fs (tot - sf_size f) s of (s, m, kept) \<Rightarrow> (s, n + m, kept)))"

definition total_size :: "spool_file list \<Rightarrow> int" where
  "total_size fs = sum_list (map sf_size fs)"

section \<open>Compressing\<close>

text \<open>
  The error of copying the source into the archive. Then the directory after each system call that
  changes it: removing the source comes last, after the
  archive is in place.
\<close>

definition compress_error :: "faults \<Rightarrow> string \<Rightarrow> string \<Rightarrow> syscall option" where
  "compress_error io name tmp =
     (if io (ReadFile name 0) \<noteq> None then Some (ReadFile name 0) else write_sync_close io tmp)"

definition compress_trace :: "(bytes \<Rightarrow> bytes) \<Rightarrow> faults \<Rightarrow> string \<Rightarrow> dir \<Rightarrow> dir list" where
  "compress_trace gz io name d =
     (let dst = name @ gz_suffix; tmp = dst @ tmp_suffix
      in case open_read io d name of
           None \<Rightarrow> (case remove io d tmp of None \<Rightarrow> [] | Some d' \<Rightarrow> [d'])
         | Some b \<Rightarrow>
             (case open_trunc io d tmp of
                None \<Rightarrow> (case remove io d tmp of None \<Rightarrow> [] | Some d' \<Rightarrow> [d'])
              | Some d1 \<Rightarrow>
                  let d2 = write_bytes io d1 tmp (gz b);
                      e = compress_error io name tmp;
                      (d3, e) = (if e = None
                                 then case rename io d2 tmp dst of
                                        None \<Rightarrow> (d2, Some (RenameFile tmp))
                                      | Some d' \<Rightarrow> (d', None)
                                 else (d2, e))
                  in if e \<noteq> None
                     then [d1, d2, d3, case remove io d3 tmp of None \<Rightarrow> d3 | Some d' \<Rightarrow> d']
                     else [d1, d2, d3, case remove io d3 name of None \<Rightarrow> d3 | Some d' \<Rightarrow> d']))"

definition compress :: "(bytes \<Rightarrow> bytes) \<Rightarrow> faults \<Rightarrow> string \<Rightarrow> dir \<Rightarrow> dir" where
  "compress gz io name d = last (d # compress_trace gz io name d)"

section \<open>Dead letters\<close>

definition dead_letter_name :: "gtime \<Rightarrow> string" where
  "dead_letter_name t = dead_letter_prefix @ format_date t @ jsonl_suffix"

definition write_dead_letter :: "faults \<Rightarrow> gtime \<Rightarrow> bytes \<Rightarrow> dir \<Rightarrow> dir \<times> syscall option" where
  "write_dead_letter io now entry d =
     (let n = dead_letter_name now
      in case open_append io d n of
           None \<Rightarrow> (d, Some (OpenFile n))
         | Some d \<Rightarrow> (write_bytes io d n entry, write_sync_close io n))"

text \<open>Old dead-letter files are removed, by the date in their names.\<close>

definition dead_letter_old :: "string \<Rightarrow> string \<Rightarrow> bool" where
  "dead_letter_old cutoff name \<longleftrightarrow>
     has_prefix name dead_letter_prefix \<and> has_suffix name jsonl_suffix
     \<and> trim_suffix (trim_prefix name dead_letter_prefix) jsonl_suffix < cutoff"

definition cleanup_dead_letters :: "faults \<Rightarrow> string \<Rightarrow> dir \<Rightarrow> dir" where
  "cleanup_dead_letters io cutoff d =
     (if io ReadDirectory \<noteq> None then d
      else foldl (\<lambda>d name.
             if dead_letter_old cutoff name
             then (case remove io d name of None \<Rightarrow> d | Some d' \<Rightarrow> d')
             else d) d (names d))"

section \<open>Cleanup\<close>

definition to_compress :: "string \<Rightarrow> position \<Rightarrow> spool_file list \<Rightarrow> string list" where
  "to_compress current c kept =
     map sf_name (filter (\<lambda>f. \<not> sf_gz f \<and> sf_name f < po_file c \<and> sf_name f \<noteq> current) kept)"

text \<open>
  The name of the file being written is taken before the reader's lock, so it is an argument:
  \<open>cleanup\<close> is the call without a file switch in between.
\<close>

definition cleanup_from ::
  "(bytes \<Rightarrow> bytes) \<Rightarrow> faults \<Rightarrow> string \<Rightarrow> gtime \<Rightarrow> int \<Rightarrow> int \<Rightarrow> spool \<Rightarrow> spool \<times> int" where
  "cleanup_from gz io current now retention_days max_bytes s =
     (let cutoff = format_date (add_days now (- retention_days));
          (s, n, kept) = remove_old io cutoff current (list_spool_files io (sp_files s)) s;
          (s, m, kept) = remove_excess io current max_bytes kept (total_size kept) s;
          d = foldl (\<lambda>d name. compress gz io name d) (sp_files s) (to_compress current (sp_committed s) kept)
      in (s\<lparr>sp_files := cleanup_dead_letters io cutoff d\<rparr>, n + m))"

definition cleanup :: "(bytes \<Rightarrow> bytes) \<Rightarrow> faults \<Rightarrow> gtime \<Rightarrow> int \<Rightarrow> int \<Rightarrow> spool \<Rightarrow> spool \<times> int" where
  "cleanup gz io now retention_days max_bytes s =
     cleanup_from gz io (sp_cur_name s) now retention_days max_bytes s"

end
