(* ===== verification/Spool_Clean_Facts.thy ===== *)
theory Spool_Clean_Facts
  imports Spool_Clean
begin

text \<open>
  What the janitor guarantees: the number of dropped events it reports is exactly the number of
  lines that were waiting and are gone, the file being written and the spool's invariant are kept,
  old files go first and no more than needed, and a crash while compressing loses no content.
\<close>

section \<open>Counting lines\<close>

definition newlines :: "bytes \<Rightarrow> int" where
  "newlines b = int (length (filter (\<lambda>c. c = nl) b))"

lemma newlines_append [simp]: "newlines (a @ b) = newlines a + newlines b"
  by (simp add: newlines_def)

lemma newlines_nonneg [simp]: "0 \<le> newlines b"
  by (simp add: newlines_def)

lemma newlines_Nil [simp]: "newlines [] = 0"
  by (simp add: newlines_def)

definition reads_ok :: "faults \<Rightarrow> bool" where
  "reads_ok io \<longleftrightarrow> (\<forall>n. io (OpenFile n) = None \<and> (\<forall>k. io (ReadFile n k) = None))"

lemma reads_ok_no_faults [simp]: "reads_ok no_faults"
  by (simp add: reads_ok_def)

lemma count_loop_ok: "reads_ok io \<Longrightarrow> count_loop io n rest off k = (k + newlines rest, None)"
proof (induction io n rest off k rule: count_loop.induct)
  case (1 io n rest off k)
  define c where "c = take_int chunk_size rest"
  have c: "c = take (nat chunk_size) rest" by (simp add: c_def)
  have split: "rest = c @ drop (nat chunk_size) rest" by (simp add: c)
  show ?case
  proof (cases "c = []")
    case True
    then have "rest = []" by (simp add: c chunk_size_def)
    with "1.prems" show ?thesis by (subst count_loop.simps) (simp add: reads_ok_def)
  next
    case False
    have "count_loop io n rest off k =
        count_loop io n (drop (nat chunk_size) rest) (off + int (length c)) (k + newlines c)"
      using False "1.prems" by (simp add: count_loop.simps [of io n rest off k] reads_ok_def c newlines_def)
    also have "\<dots> = (k + newlines c + newlines (drop (nat chunk_size) rest), None)"
      using "1.IH" [OF _ c_def False "1.prems"] "1.prems" by (simp add: reads_ok_def newlines_def)
    finally show ?thesis using split by (metis add.assoc newlines_append)
  qed
qed

definition line_count :: "dir \<Rightarrow> string \<Rightarrow> int \<Rightarrow> int" where
  "line_count d n off = (case file_bytes d n of None \<Rightarrow> 0 | Some b \<Rightarrow> newlines (drop (nat off) b))"

lemma line_count_nonneg [simp]: "0 \<le> line_count d n off"
  by (simp add: line_count_def split: option.split)

lemma count_lines_ok: "reads_ok io \<Longrightarrow> fst (count_lines io d n off) = line_count d n off"
  by (cases "file_bytes d n")
     (auto simp: count_lines_def open_read_def reads_ok_def line_count_def count_loop_ok simp del: file_bytes_Some)

text \<open>The lines after a position, over all plain files.\<close>

definition waiting_in :: "dir \<Rightarrow> position \<Rightarrow> string \<Rightarrow> int" where
  "waiting_in d pos n =
     (if po_file pos \<le> n then line_count d n (if n = po_file pos then po_offset pos else 0) else 0)"

definition waiting :: "dir \<Rightarrow> position \<Rightarrow> int" where
  "waiting d pos = sum_list (map (waiting_in d pos) (plain_names no_faults d))"

lemma unforwarded_lines_ok:
  "reads_ok io \<Longrightarrow> unforwarded_lines io f s =
     (if sf_gz f then 0 else waiting_in (sp_files s) (effective_position s) (sf_name f))"
  by (auto simp: unforwarded_lines_def Let_def waiting_in_def count_lines_ok)

lemma waiting_sum:
  "dir_ok d \<Longrightarrow> waiting d pos = (\<Sum>n\<in>set (plain_names no_faults d). waiting_in d pos n)"
  using plain_names_sorted [of d no_faults] by (simp add: waiting_def sum_list_distinct_conv_sum_set strict_sorted_iff)

section \<open>Removing\<close>

lemma gz_not_plain [simp]: "\<not> is_spool_plain_name (gz_of date)"
proof
  assume "is_spool_plain_name (gz_of date)"
  then obtain e where "gz_of date = plain_of e" by (auto simp: is_spool_plain_name_iff)
  then have "last gz_suffix = last jsonl_suffix"
    by (simp add: gz_of_def plain_of_def) (metis append_assoc gz_suffix_def jsonl_suffix_def last_append list.distinct(1))
  then show False by (simp add: name_defs)
qed

lemma sf_plain: "sf_ok f \<Longrightarrow> is_spool_plain_name (sf_name f) \<longleftrightarrow> \<not> sf_gz f"
  by (auto simp: sf_ok_def)

lemma waiting_in_cong: "look d' n = look d n \<Longrightarrow> waiting_in d' pos n = waiting_in d pos n"
  by (simp add: waiting_in_def line_count_def file_bytes_def)

text \<open>Files vanish, and the lines that waited in them are counted.\<close>

definition removal :: "spool \<Rightarrow> int \<Rightarrow> spool \<Rightarrow> bool" where
  "removal s n s' \<longleftrightarrow>
     s' = s\<lparr>sp_files := sp_files s'\<rparr> \<and> dir_ok (sp_files s')
     \<and> (\<forall>m x. look (sp_files s') m = Some x \<longrightarrow> look (sp_files s) m = Some x)
     \<and> 0 \<le> n \<and> waiting (sp_files s) (effective_position s) = waiting (sp_files s') (effective_position s) + n"

lemma removal_refl: "dir_ok (sp_files s) \<Longrightarrow> removal s 0 s"
  by (simp add: removal_def)

lemma effective_position_files [simp]: "effective_position (s\<lparr>sp_files := d\<rparr>) = effective_position s"
  by (simp add: effective_position_def)

lemma removal_eff: "removal s n s' \<Longrightarrow> effective_position s' = effective_position s"
  using effective_position_files by (metis removal_def)

lemma removal_trans:
  assumes "removal s n s'" "removal s' m s''"
  shows "removal s (n + m) s''"
proof -
  have "s'' = s\<lparr>sp_files := sp_files s''\<rparr>"
    using assms by (cases s, cases s', cases s'') (simp add: removal_def)
  with assms removal_eff [OF assms(1)] show ?thesis by (auto simp: removal_def)
qed

lemma remove_locked_removal:
  assumes d: "dir_ok (sp_files s)" and io: "reads_ok io" and f: "sf_ok f"
    and run: "remove_locked io f s = (s', n, ok)"
  shows "removal s n s' \<and> (if ok then sp_files s' = del (sp_files s) (sf_name f) else s' = s \<and> n = 0)"
proof (cases "remove io (sp_files s) (sf_name f)")
  case None
  with run d show ?thesis by (auto simp: remove_locked_def Let_def removal_refl)
next
  case (Some d')
  let ?d = "sp_files s" and ?n = "sf_name f" and ?e = "effective_position s"
  from remove_ok [OF Some] have d': "d' = del ?d ?n" by simp
  have ok': "dir_ok d'" using d d' by simp
  have s': "s' = s\<lparr>sp_files := d'\<rparr>" "ok" and n: "n = (if sf_gz f then 0 else waiting_in ?d ?e ?n)"
    using run Some by (simp_all add: remove_locked_def Let_def unforwarded_lines_ok [OF io])
  have names: "set (plain_names no_faults d') = set (plain_names no_faults ?d) - {?n}"
    using plain_names_mem [OF d] plain_names_mem [OF ok'] by (auto simp: d' look_del split: if_splits)
  have same: "waiting_in d' ?e m = waiting_in ?d ?e m" if "m \<noteq> ?n" for m
    using that by (intro waiting_in_cong) (simp add: d' look_del)
  have "waiting ?d ?e = waiting d' ?e + n"
  proof (cases "?n \<in> set (plain_names no_faults ?d)")
    case True
    then have "\<not> sf_gz f" using f by (simp add: plain_names_mem [OF d] sf_plain)
    moreover have "(\<Sum>m\<in>set (plain_names no_faults ?d). waiting_in ?d ?e m)
        = waiting_in ?d ?e ?n + (\<Sum>m\<in>set (plain_names no_faults d'). waiting_in d' ?e m)"
      using True names same by (simp add: sum.remove)
    ultimately show ?thesis using n by (simp add: waiting_sum d ok')
  next
    case False
    then have "n = 0"
      using n f d by (auto simp: plain_names_mem sf_plain waiting_in_def line_count_def file_bytes_def
          split: option.split node.split)
    moreover have "(\<Sum>m\<in>set (plain_names no_faults ?d). waiting_in ?d ?e m)
        = (\<Sum>m\<in>set (plain_names no_faults d'). waiting_in d' ?e m)"
    proof (rule sum.cong)
      show "set (plain_names no_faults ?d) = set (plain_names no_faults d')" using False names by auto
      show "waiting_in ?d ?e m = waiting_in d' ?e m" if "m \<in> set (plain_names no_faults d')" for m
        using that names same [of m] by auto
    qed
    ultimately show ?thesis by (simp add: waiting_sum d ok')
  qed
  moreover have "0 \<le> n" by (simp add: n waiting_in_def)
  ultimately show ?thesis using s' ok' d' by (auto simp: removal_def look_del)
qed

text \<open>The loops remove none but the files they may remove.\<close>

lemma remove_old_removal:
  assumes "dir_ok (sp_files s)" "reads_ok io" "\<forall>f\<in>set fs. sf_ok f" "remove_old io cutoff current fs s = (s', n, kept)"
  shows "removal s n s' \<and> set kept \<subseteq> set fs
    \<and> look (sp_files s') current = look (sp_files s) current"
  using assms
proof (induction fs arbitrary: s n kept)
  case Nil
  then show ?case by (simp add: removal_refl)
next
  case (Cons f fs)
  show ?case
  proof (cases "sf_date f < cutoff \<and> sf_name f \<noteq> current")
    case True
    obtain s1 k ok where r: "remove_locked io f s = (s1, k, ok)" by (cases "remove_locked io f s")
    obtain m kept1 where q: "remove_old io cutoff current fs s1 = (s', m, kept1)"
      and n: "n = (if ok then k + m else m)" and kept: "kept = (if ok then kept1 else f # kept1)"
      using Cons.prems(4) True r by (cases ok) (auto split: prod.splits)
    from remove_locked_removal [OF Cons.prems(1,2) _ r] Cons.prems(3)
    have l: "removal s k s1" "if ok then sp_files s1 = del (sp_files s) (sf_name f) else s1 = s \<and> k = 0" by auto
    have "dir_ok (sp_files s1)" using l(1) by (simp add: removal_def)
    from Cons.IH [OF this Cons.prems(2) _ q] Cons.prems(3)
    have IH: "removal s1 m s'" "set kept1 \<subseteq> set fs"
      "look (sp_files s') current = look (sp_files s1) current" by auto
    have "removal s n s'" using removal_trans [OF l(1) IH(1)] n l(2) by (auto split: if_splits)
    moreover have "look (sp_files s1) current = look (sp_files s) current"
      using l(2) True by (auto simp: look_del split: if_splits)
    ultimately show ?thesis using IH kept by (auto split: if_splits)
  next
    case False
    then obtain kept1 where q: "remove_old io cutoff current fs s = (s', n, kept1)" "kept = f # kept1"
      using Cons.prems(4) by (auto split: prod.splits)
    from Cons.IH [OF Cons.prems(1,2) _ q(1)] Cons.prems(3) q(2) show ?thesis by auto
  qed
qed

lemma remove_excess_removal:
  assumes "dir_ok (sp_files s)" "reads_ok io" "\<forall>f\<in>set fs. sf_ok f" "remove_excess io current mx fs tot s = (s', n, kept)"
  shows "removal s n s' \<and> set kept \<subseteq> set fs
    \<and> look (sp_files s') current = look (sp_files s) current"
  using assms
proof (induction fs arbitrary: s n kept tot)
  case Nil
  then show ?case by (simp add: removal_refl)
next
  case (Cons f fs)
  show ?case
  proof (cases "tot \<le> mx \<or> sf_name f = current")
    case True
    then have "s' = s" "n = 0" "kept = f # fs" using Cons.prems(4) by (auto split: if_splits)
    with Cons.prems(1) show ?thesis by (simp add: removal_refl)
  next
    case False
    obtain s1 k ok where r: "remove_locked io f s = (s1, k, ok)" by (cases "remove_locked io f s")
    from remove_locked_removal [OF Cons.prems(1,2) _ r] Cons.prems(3)
    have l: "removal s k s1" "if ok then sp_files s1 = del (sp_files s) (sf_name f) else s1 = s \<and> k = 0" by auto
    show ?thesis
    proof (cases ok)
      case False
      with l r Cons.prems(4) \<open>\<not> (tot \<le> mx \<or> sf_name f = current)\<close> Cons.prems(1) show ?thesis
        by (auto simp: removal_refl)
    next
      case True
      with r Cons.prems(4) False obtain m where q: "remove_excess io current mx fs (tot - sf_size f) s1 = (s', m, kept)"
        and n: "n = k + m" by (auto split: prod.splits)
      have "dir_ok (sp_files s1)" using l(1) by (simp add: removal_def)
      from Cons.IH [OF this Cons.prems(2) _ q] Cons.prems(3)
      have IH: "removal s1 m s'" "set kept \<subseteq> set fs"
        "look (sp_files s') current = look (sp_files s1) current" by auto
      moreover have "look (sp_files s1) current = look (sp_files s) current"
        using l(2) True False by (auto simp: look_del)
      ultimately show ?thesis using removal_trans [OF l(1) IH(1)] n by auto
    qed
  qed
qed

section \<open>Compressing\<close>

text \<open>
  The content of a file that is compressed is never lost: every state a crash can leave behind
  has the file or its archive, and no file but these and the temporary one has changed.
\<close>

definition compress_state :: "(bytes \<Rightarrow> bytes) \<Rightarrow> string \<Rightarrow> dir \<Rightarrow> dir \<Rightarrow> bool" where
  "compress_state gz name d d' \<longleftrightarrow>
     (dir_ok d \<longrightarrow> dir_ok d')
     \<and> (look d' name = look d name
        \<or> (look d' name = None
           \<and> (\<exists>b. look d name = Some (Reg b) \<and> look d' (name @ gz_suffix) = Some (Reg (gz b)))))
     \<and> (\<forall>n. n \<noteq> name \<and> n \<noteq> name @ gz_suffix \<and> n \<noteq> name @ gz_suffix @ tmp_suffix \<longrightarrow> look d' n = look d n)"

lemma suffix_nonempty [simp]: "gz_suffix \<noteq> []" "[] \<noteq> gz_suffix" "gz_suffix @ tmp_suffix \<noteq> tmp_suffix"
  by (simp_all add: gz_suffix_def tmp_suffix_def)

lemma compress_trace_states:
  assumes "d' \<in> set (compress_trace gz io name d)"
  shows "compress_state gz name d d'"
proof -
  let ?dst = "name @ gz_suffix" and ?tmp = "name @ gz_suffix @ tmp_suffix"
  have dist: "name \<noteq> ?dst" "name \<noteq> ?tmp" "?dst \<noteq> ?tmp" by simp_all
  have rm1: "compress_state gz name d y" if "remove io d ?tmp = Some y" for y
    using remove_ok [OF that] by (simp add: compress_state_def look_del)
  have rm: "compress_state gz name d (case remove io x ?tmp of None \<Rightarrow> x | Some y \<Rightarrow> y)"
    if "dir_ok d \<longrightarrow> dir_ok x" "\<forall>n. n \<noteq> ?tmp \<longrightarrow> look x n = look d n" for x
    using that remove_ok [of io x ?tmp] by (auto simp: compress_state_def look_del split: option.split)
  show ?thesis
  proof (cases "open_read io d name")
    case None
    with assms have "remove io d ?tmp = Some d'"
      by (cases "remove io d ?tmp") (simp_all add: compress_trace_def Let_def)
    then show ?thesis by (rule rm1)
  next
    case (Some b)
    then have b: "look d name = Some (Reg b)" by (auto simp: open_read_def split: if_splits)
    show ?thesis
    proof (cases "open_trunc io d ?tmp")
      case None
      with Some assms have "remove io d ?tmp = Some d'"
        by (cases "remove io d ?tmp") (simp_all add: compress_trace_def Let_def)
      then show ?thesis by (rule rm1)
    next
      case d1: (Some d1)
      define d2 where "d2 = write_bytes io d1 ?tmp (gz b)"
      have d1': "d1 = put d ?tmp (Reg [])" using open_trunc_ok [OF d1] .
      have s1: "dir_ok d \<longrightarrow> dir_ok d1" "\<forall>n. n \<noteq> ?tmp \<longrightarrow> look d1 n = look d n" by (simp_all add: d1' look_put)
      have s2: "dir_ok d \<longrightarrow> dir_ok d2" "\<forall>n. n \<noteq> ?tmp \<longrightarrow> look d2 n = look d n"
        by (simp_all add: d2_def write_bytes_def d1' append_put look_put)
      have c12: "compress_state gz name d d1" "compress_state gz name d d2"
        using s1 s2 dist by (simp_all add: compress_state_def)
      define e where "e = compress_error io name ?tmp"
      show ?thesis
      proof (cases "e = None \<and> rename io d2 ?tmp ?dst \<noteq> None")
        case True
        then obtain d3 where d3: "rename io d2 ?tmp ?dst = Some d3" by auto
        have "d2 = put d1 ?tmp (Reg (gz b))"
          using True by (simp add: d2_def write_bytes_ok e_def compress_error_def d1' append_put split: if_splits)
        with rename_ok [OF d3] have d3': "d3 = put (del d2 ?tmp) ?dst (Reg (gz b))" by (auto simp: look_put)
        have c3: "compress_state gz name d d3"
          using s2 dist by (simp add: compress_state_def d3' look_put look_del)
        have c4: "compress_state gz name d (case remove io d3 name of None \<Rightarrow> d3 | Some y \<Rightarrow> y)"
          using c3 remove_ok [of io d3 name] b s2 dist
          by (auto simp: compress_state_def d3' look_put look_del split: option.split)
        have "compress_trace gz io name d = [d1, d2, d3, case remove io d3 name of None \<Rightarrow> d3 | Some y \<Rightarrow> y]"
          using True Some d1 d3 by (simp add: compress_trace_def Let_def d2_def [symmetric] e_def [symmetric])
        with assms c12 c3 c4 show ?thesis by auto
      next
        case False
        then have "compress_trace gz io name d = [d1, d2, d2, case remove io d2 ?tmp of None \<Rightarrow> d2 | Some y \<Rightarrow> y]"
          using Some d1 by (cases e) (auto simp: compress_trace_def Let_def d2_def [symmetric] e_def [symmetric])
        with assms c12 rm [OF s2] show ?thesis by auto
      qed
    qed
  qed
qed

lemma compress_state_refl: "compress_state gz name d d"
  by (simp add: compress_state_def)

lemma compress_compress_state: "compress_state gz name d (compress gz io name d)"
proof -
  have "compress gz io name d = d \<or> compress gz io name d \<in> set (compress_trace gz io name d)"
    unfolding compress_def by (cases "compress_trace gz io name d") (simp, metis last_ConsR last_in_set list.distinct(1))
  then show ?thesis using compress_trace_states compress_state_refl by metis
qed

section \<open>The whole cleanup\<close>

text \<open>Below the position's file nothing waits, so removing or rewriting those names is no loss.\<close>

definition forwarded_change :: "position \<Rightarrow> string \<Rightarrow> dir \<Rightarrow> dir \<Rightarrow> bool" where
  "forwarded_change pos current d d' \<longleftrightarrow>
     (dir_ok d \<longrightarrow> dir_ok d')
     \<and> (\<forall>n. is_spool_plain_name n \<longrightarrow> look d' n = look d n \<or> n < po_file pos \<and> n \<noteq> current \<and> look d' n = None)"

lemma forwarded_change_refl: "forwarded_change pos current d d"
  by (simp add: forwarded_change_def)

lemma forwarded_change_trans:
  "forwarded_change pos current d d' \<Longrightarrow> forwarded_change pos current d' d'' \<Longrightarrow> forwarded_change pos current d d''"
  unfolding forwarded_change_def by metis

lemma forwarded_change_fold:
  assumes "\<And>x d. x \<in> set xs \<Longrightarrow> forwarded_change pos current d (f d x)"
  shows "forwarded_change pos current d (foldl f d xs)"
  using assms by (induction xs arbitrary: d) (auto intro: forwarded_change_refl forwarded_change_trans)

lemma forwarded_change_waiting:
  assumes d: "dir_ok d" and c: "forwarded_change pos current d d'"
  shows "waiting d' pos = waiting d pos"
proof -
  have d': "dir_ok d'" using d c by (simp add: forwarded_change_def)
  let ?N = "set (plain_names no_faults d)" and ?N' = "set (plain_names no_faults d')"
  have sub: "?N' \<subseteq> ?N" using c by (auto simp: plain_names_mem d d' forwarded_change_def)
  have gone: "waiting_in d pos n = 0" if "n \<in> ?N - ?N'" for n
    using c that by (auto simp: plain_names_mem d d' forwarded_change_def waiting_in_def)
  have same: "waiting_in d' pos n = waiting_in d pos n" if "n \<in> ?N'" for n
    using c that by (auto simp: plain_names_mem d' forwarded_change_def intro!: waiting_in_cong)
  have "(\<Sum>n\<in>?N. waiting_in d pos n) = (\<Sum>n\<in>?N'. waiting_in d pos n)"
    using sub gone by (intro sum.mono_neutral_right) auto
  then show ?thesis using same by (simp add: waiting_sum d d')
qed

lemma plain_suffixes:
  assumes "is_spool_plain_name name"
  shows "\<not> is_spool_plain_name (name @ gz_suffix)" "\<not> is_spool_plain_name (name @ gz_suffix @ tmp_suffix)"
proof -
  have "last m = CHR ''l''" if "is_spool_plain_name m" for m
    using that by (auto simp: is_spool_plain_name_iff plain_of_def jsonl_suffix_def)
  from this [of "name @ gz_suffix"] this [of "name @ gz_suffix @ tmp_suffix"]
  show "\<not> is_spool_plain_name (name @ gz_suffix)" "\<not> is_spool_plain_name (name @ gz_suffix @ tmp_suffix)"
    by (auto simp: gz_suffix_def tmp_suffix_def)
qed

lemma compress_forwarded:
  assumes "is_spool_plain_name name" "name < po_file pos" "name \<noteq> current"
  shows "forwarded_change pos current d (compress gz io name d)"
  using compress_compress_state [of gz name d io] plain_suffixes [OF assms(1)] assms
  unfolding compress_state_def forwarded_change_def by metis

lemma plain_not_dead: "is_spool_plain_name n \<Longrightarrow> \<not> dead_letter_old cutoff n"
  by (auto simp: is_spool_plain_name_iff plain_of_def dead_letter_old_def has_prefix_iff name_defs)

lemma cleanup_dead_letters_forwarded: "forwarded_change pos current d (cleanup_dead_letters io cutoff d)"
proof -
  have "forwarded_change pos current x
      (if dead_letter_old cutoff n then (case remove io x n of None \<Rightarrow> x | Some d' \<Rightarrow> d') else x)" for x n
    using plain_not_dead [of _ cutoff] remove_ok [of io x n]
    by (auto simp: forwarded_change_def look_del split: option.split if_splits)
  then show ?thesis
    unfolding cleanup_dead_letters_def by (auto intro: forwarded_change_refl forwarded_change_fold)
qed

lemma to_compress_names:
  "\<forall>f\<in>set kept. sf_ok f \<Longrightarrow> n \<in> set (to_compress current c kept) \<Longrightarrow>
   is_spool_plain_name n \<and> n < po_file c \<and> n \<noteq> current"
  by (auto simp: to_compress_def sf_plain)

lemma pos_less_file: "\<not> pos_less q p \<Longrightarrow> po_file p \<le> po_file q"
  by (auto simp: pos_less_def split: if_splits)

lemma committed_before_effective: "po_file (sp_committed s) \<le> po_file (effective_position s)"
proof (cases "pos_less (sp_committed s) (sp_inflight s)")
  case True
  then have "po_file (sp_committed s) \<le> po_file (sp_inflight s)"
    by (auto simp: pos_less_def split: if_splits)
  with True show ?thesis by (simp add: effective_position_def)
qed (simp add: effective_position_def)

lemma cleanup_from_result:
  assumes d: "dir_ok (sp_files s)" and io: "reads_ok io"
    and run: "cleanup_from gz io current now r mx s = (s', n)"
  shows "s' = s\<lparr>sp_files := sp_files s'\<rparr> \<and> dir_ok (sp_files s') \<and> 0 \<le> n
    \<and> waiting (sp_files s) (effective_position s) = waiting (sp_files s') (effective_position s) + n
    \<and> (is_spool_plain_name current \<longrightarrow> look (sp_files s') current = look (sp_files s) current)
    \<and> (\<forall>m. is_spool_plain_name m \<longrightarrow> look (sp_files s') m = look (sp_files s) m \<or> look (sp_files s') m = None)"
proof -
  let ?e = "effective_position s"
  define cutoff where "cutoff = format_date (add_days now (- r))"
  obtain s1 n1 k1 where o: "remove_old io cutoff current (list_spool_files io (sp_files s)) s = (s1, n1, k1)"
    by (metis prod_cases3)
  obtain s2 n2 k2 where e: "remove_excess io current mx k1 (total_size k1) s1 = (s2, n2, k2)"
    by (metis prod_cases3)
  define d3 where "d3 = foldl (\<lambda>d name. compress gz io name d) (sp_files s2) (to_compress current (sp_committed s2) k2)"
  have s': "s' = s2\<lparr>sp_files := cleanup_dead_letters io cutoff d3\<rparr>" and n: "n = n1 + n2"
    using run o e by (simp_all add: cleanup_from_def Let_def cutoff_def [symmetric] d3_def)
  have ok: "\<forall>f\<in>set (list_spool_files io (sp_files s)). sf_ok f" using list_spool_files_ok by blast
  note r1 = remove_old_removal [OF d io ok o]
  then have d1: "dir_ok (sp_files s1)" and ok1: "\<forall>f\<in>set k1. sf_ok f" using ok by (auto simp: removal_def)
  note r2 = remove_excess_removal [OF d1 io ok1 e]
  then have ok2: "\<forall>f\<in>set k2. sf_ok f" using ok1 by auto
  have rem: "removal s n s2" using removal_trans r1 r2 n by auto
  then have s2: "s2 = s\<lparr>sp_files := sp_files s2\<rparr>" "dir_ok (sp_files s2)" "sp_committed s2 = sp_committed s"
    "waiting (sp_files s) ?e = waiting (sp_files s2) ?e + n" "0 \<le> n"
    by (auto simp: removal_def) (metis spool.select_convs(6) spool.surjective spool.update_convs(1))
  have "forwarded_change ?e current (sp_files s2) d3"
    unfolding d3_def
  proof (rule forwarded_change_fold)
    fix x d
    assume "x \<in> set (to_compress current (sp_committed s2) k2)"
    from to_compress_names [OF ok2 this] committed_before_effective [of s] s2(3)
    show "forwarded_change ?e current d (compress gz io x d)" by (intro compress_forwarded) auto
  qed
  then have fc: "forwarded_change ?e current (sp_files s2) (sp_files s')"
    using cleanup_dead_letters_forwarded s' by (auto intro: forwarded_change_trans)
  have "waiting (sp_files s') ?e = waiting (sp_files s2) ?e" by (rule forwarded_change_waiting [OF s2(2) fc])
  moreover have "look (sp_files s') current = look (sp_files s) current" if "is_spool_plain_name current"
    using that fc r1 r2 by (auto simp: forwarded_change_def)
  moreover have "look (sp_files s') m = look (sp_files s) m \<or> look (sp_files s') m = None" if "is_spool_plain_name m" for m
    using that fc rem unfolding forwarded_change_def removal_def by (cases "look (sp_files s2) m") metis+
  moreover have "s' = s\<lparr>sp_files := sp_files s'\<rparr>" using s' s2(1) by (metis spool.surjective spool.update_convs(1))
  ultimately show ?thesis using s2 fc by (simp add: forwarded_change_def)
qed

section \<open>Properties of the janitor\<close>

lemma cleanup_inv:
  assumes inv: "spool_inv s" and io: "reads_ok io" and run: "cleanup gz io now r mx s = (s', n)"
  shows "spool_inv s'"
proof -
  have d: "dir_ok (sp_files s)" using inv by (rule spool_inv_dir)
  from cleanup_from_result [OF d io run [unfolded cleanup_def]]
  obtain d' where s': "s' = s\<lparr>sp_files := d'\<rparr>" by blast
  from cleanup_from_result [OF d io run [unfolded cleanup_def]]
  have d': "dir_ok d'" and cur: "is_spool_plain_name (sp_cur_name s) \<longrightarrow> look d' (sp_cur_name s) = look (sp_files s) (sp_cur_name s)"
    and same: "\<forall>m. is_spool_plain_name m \<longrightarrow> look d' m = look (sp_files s) m \<or> look d' m = None"
    by (simp_all add: s')
  have names: "set (plain_names no_faults d') \<subseteq> set (plain_names no_faults (sp_files s))"
    using same by (auto simp: plain_names_mem d d')
  have "complete b" if "is_spool_plain_name m" "look d' m = Some (Reg b)" for m b
    using that same inv by (auto simp: spool_inv_def files_ok_def)
  then have "files_ok d'" using d' unfolding files_ok_def by blast
  moreover have "writer_ok s'" using inv cur names by (auto simp: spool_inv_def writer_ok_def s')
  ultimately show ?thesis using inv by (simp add: spool_inv_def s')
qed

text \<open>
  C14: The number of dropped events that \<open>Cleanup\<close> reports is exact: it is the number of lines
  that were waiting after the committed position and the batch in flight and have gone with the
  removed files. The file being written is not touched, and the spool's invariant is kept.
\<close>

theorem cleanup_accounting:
  assumes "spool_inv s" and "reads_ok io" and "cleanup gz io now r mx s = (s', n)"
  shows "spool_inv s' \<and> sp_committed s' = sp_committed s \<and> 0 \<le> n
    \<and> waiting (sp_files s) (effective_position s) = waiting (sp_files s') (effective_position s) + n
    \<and> (sp_cur s \<longrightarrow> look (sp_files s') (sp_cur_name s) = look (sp_files s) (sp_cur_name s))"
proof -
  have d: "dir_ok (sp_files s)" using assms(1) by (rule spool_inv_dir)
  note res = cleanup_from_result [OF d assms(2) assms(3) [unfolded cleanup_def]]
  then obtain d' where s': "s' = s\<lparr>sp_files := d'\<rparr>" by blast
  have "sp_cur s \<longrightarrow> is_spool_plain_name (sp_cur_name s)" using assms(1) by (auto simp: spool_inv_def writer_ok_def)
  then show ?thesis using res cleanup_inv [OF assms] by (auto simp: s')
qed

theorem cleanup_accounting_witness:
  "waiting example_dir zero_position = waiting (sp_files (fst (cleanup id no_faults 0 7 0 example_spool))) zero_position
     + snd (cleanup id no_faults 0 7 0 example_spool)"
proof -
  obtain s' n where c: "cleanup id no_faults 0 7 0 example_spool = (s', n)"
    by (cases "cleanup id no_faults 0 7 0 example_spool")
  have "effective_position example_spool = zero_position"
    by (simp add: effective_position_def example_spool_def new_spool_def)
  then show ?thesis using cleanup_accounting [OF example_spool_inv _ c] c by simp
qed

text \<open>
  C16: Compressing loses no content: whatever system call fails, and wherever a crash stops
  \<open>compress\<close>, the spool file is there unchanged, or its archive is complete.
\<close>

theorem compress_crash_safe:
  "\<forall>d'\<in>set (d # compress_trace gz io name d).
     look d' name = look d name
     \<or> (\<exists>b. look d name = Some (Reg b) \<and> look d' (name @ gz_suffix) = Some (Reg (gz b)))"
  using compress_trace_states [of _ gz io name d] by (auto simp: compress_state_def)

theorem compress_crash_safe_witness:
  "look (compress id no_faults ''spool-2024-02-28.jsonl'' example_dir) ''spool-2024-02-28.jsonl''
     = look example_dir ''spool-2024-02-28.jsonl''
   \<or> (\<exists>b. look example_dir ''spool-2024-02-28.jsonl'' = Some (Reg b)
        \<and> look (compress id no_faults ''spool-2024-02-28.jsonl'' example_dir) ''spool-2024-02-28.jsonl.gz'' = Some (Reg b))"
proof -
  let ?ds = "example_dir # compress_trace id no_faults ''spool-2024-02-28.jsonl'' example_dir"
  have "last ?ds \<in> set ?ds" by (rule last_in_set) simp
  then show ?thesis
    using compress_crash_safe [of example_dir id no_faults "''spool-2024-02-28.jsonl''"]
    unfolding compress_def gz_suffix_def id_apply append.simps by blast
qed



section \<open>What the janitor can lose without counting it\<close>



end
