(* ===== verification/Patterns.thy ===== *)
theory Patterns
  imports Json_Facts
begin

text \<open>
  The regular expressions of the program as functions: identifiers (\<open>uuidRe\<close>, \<open>siteIDRe\<close> in
  \<open>internal/agent/config.go\<close>, with the same patterns in the collector and the mock server) and
  semantic versions (\<open>semverPattern\<close> in \<open>internal/collector/server.go\<close>).
\<close>

text \<open>Groups of hexadecimal digits of these lengths, with hyphens between them.\<close>

fun hex_groups :: "nat list \<Rightarrow> string \<Rightarrow> bool" where
  "hex_groups [] s \<longleftrightarrow> s = []"
| "hex_groups [n] s \<longleftrightarrow> length s = n \<and> list_all is_hex s"
| "hex_groups (n # m # ns) s \<longleftrightarrow>
     n < length s \<and> list_all is_hex (take n s) \<and> s ! n = CHR ''-'' \<and> hex_groups (m # ns) (drop (Suc n) s)"

definition is_uuid :: "string \<Rightarrow> bool" where
  "is_uuid s \<longleftrightarrow> hex_groups [8, 4, 4, 4, 12] s"

definition site_char :: "char \<Rightarrow> bool" where
  "site_char c \<longleftrightarrow> byte_in c 0x61 0x7A \<or> is_digit c"

definition is_site_id :: "string \<Rightarrow> bool" where
  "is_site_id s \<longleftrightarrow>
     (case s of
        [] \<Rightarrow> False
      | c # r \<Rightarrow> site_char c \<and> 2 \<le> length r \<and> length r \<le> 63
                 \<and> list_all (\<lambda>c. site_char c \<or> c = CHR ''-'') r)"

definition label_char :: "char \<Rightarrow> bool" where
  "label_char c \<longleftrightarrow> is_digit c \<or> byte_in c 0x41 0x5A \<or> byte_in c 0x61 0x7A \<or> c = CHR ''.'' \<or> c = CHR ''-''"

text \<open>A non-empty run of label characters: what follows it, if there is one.\<close>

definition skip_labels :: "string \<Rightarrow> string option" where
  "skip_labels s = (if s \<noteq> [] \<and> label_char (hd s) then Some (dropWhile label_char s) else None)"

definition skip_digits :: "string \<Rightarrow> string option" where
  "skip_digits s = (if s \<noteq> [] \<and> is_digit (hd s) then Some (dropWhile is_digit s) else None)"

definition skip_dot :: "string \<Rightarrow> string option" where
  "skip_dot s = (if s \<noteq> [] \<and> hd s = CHR ''.'' then Some (tl s) else None)"

definition build_suffix :: "string \<Rightarrow> bool" where
  "build_suffix s \<longleftrightarrow> s = [] \<or> hd s = CHR ''+'' \<and> skip_labels (tl s) = Some []"

definition is_semver :: "string \<Rightarrow> bool" where
  "is_semver s \<longleftrightarrow>
     (case Option.bind (skip_digits s) (\<lambda>s. Option.bind (skip_dot s) (\<lambda>s. Option.bind (skip_digits s)
             (\<lambda>s. Option.bind (skip_dot s) skip_digits))) of
        None \<Rightarrow> False
      | Some r \<Rightarrow>
          if r \<noteq> [] \<and> hd r = CHR ''-''
          then (case skip_labels (tl r) of None \<Rightarrow> False | Some q \<Rightarrow> build_suffix q)
          else build_suffix r)"

section \<open>Texts with nothing to trim\<close>

text \<open>A text of visible characters has nothing to trim.\<close>

definition visible :: "char \<Rightarrow> bool" where
  "visible c \<longleftrightarrow> byte_in c 0x21 0x7E"

lemma space_seqs_invisible:
  "w \<in> set space_seqs \<Longrightarrow> \<not> visible (hd w) \<and> \<not> visible (last w)"
  by (auto simp: space_seqs_def visible_def byte_in_def)

lemma trim_space_visible:
  assumes "s \<noteq> [] \<Longrightarrow> visible (hd s) \<and> visible (last s)"
  shows "trim_space s = s"
proof (cases "s = []")
  case True
  then show ?thesis
    by (simp add: trim_space_def trim_left_space.simps [of "[]"] trim_right_space.simps [of "[]"])
next
  case False
  have "w \<notin> set space_seqs" if "has_prefix s w" for w
    using that space_seqs_invisible [of w] space_seqs_nonempty [of w] has_prefixE [OF that] assms [OF False]
    by (metis hd_append2)
  then have l: "find (has_prefix s) space_seqs = None" by (auto simp: find_None_iff)
  have "w \<notin> set space_seqs" if "has_suffix s w" for w
    using that space_seqs_invisible [of w] space_seqs_nonempty [of w] has_suffixE [OF that] assms [OF False]
    by (metis last_appendR)
  then have r: "find (has_suffix s) space_seqs = None" by (auto simp: find_None_iff)
  from l r False show ?thesis
    by (simp add: trim_space_def trim_left_space.simps [of s] trim_right_space.simps [of s])
qed

lemma digit_visible: "is_digit c \<Longrightarrow> visible c"
  by (simp add: visible_def is_digit_of_char byte_in_def)

lemma nat_dec_no [simp]: "CHR ''.'' \<notin> set (nat_dec n)" "CHR ''-'' \<notin> set (nat_dec n)" "CHR ''+'' \<notin> set (nat_dec n)"
  by (auto dest!: nat_dec_digits simp: is_digit_of_char)

lemma hd_nat_dec_digit [simp]: "is_digit (hd (nat_dec n))"
  by (rule nat_dec_digits [of _ n]) simp

end
