(* ===== verification/Version.thy ===== *)
theory Version
  imports Patterns
begin

text \<open>
  \<open>internal/agent/version.go\<close>: the comparison of versions behind the upgrade notice. The lemmas
  show that it is the order of the three numbers, whatever follows them.
\<close>

definition index_any :: "string \<Rightarrow> string \<Rightarrow> int" where
  "index_any s cs =
     (let k = length (takeWhile (\<lambda>c. c \<notin> set cs) s) in if k < length s then int k else -1)"

text \<open>Missing numbers are 0; an ill-formed one counts as the value that comes with its error.\<close>

definition version_parts :: "string \<Rightarrow> int list" where
  "version_parts v =
     (let v = trim_prefix (trim_space v) ''v'';
          i = index_any v ''-+'';
          v = (if 0 \<le> i then take (nat i) v else v);
          nums = map (\<lambda>s. fst (atoi s)) (split_byte_n 3 CHR ''.'' v)
      in nums @ replicate (3 - length nums) 0)"

text \<open>The first difference decides.\<close>

fun parts_less :: "int list \<Rightarrow> int list \<Rightarrow> bool" where
  "parts_less (x # xs) (y # ys) = (if x \<noteq> y then x < y else parts_less xs ys)"
| "parts_less _ _ = False"

definition version_less :: "string \<Rightarrow> string \<Rightarrow> bool" where
  "version_less a b = parts_less (version_parts a) (version_parts b)"

section \<open>Facts\<close>

text \<open>Versions as they are printed: three numbers, and a pre-release or build label.\<close>

definition version_text :: "nat \<times> nat \<times> nat \<Rightarrow> string \<Rightarrow> string" where
  "version_text n label =
     (case n of (x, y, z) \<Rightarrow> nat_dec x @ ''.'' @ nat_dec y @ ''.'' @ nat_dec z @ label)"

definition label_ok :: "string \<Rightarrow> bool" where
  "label_ok l \<longleftrightarrow> (l \<noteq> [] \<longrightarrow> hd l = CHR ''-'' \<or> hd l = CHR ''+'') \<and> list_all visible l"

definition parts_ok :: "nat \<times> nat \<times> nat \<Rightarrow> bool" where
  "parts_ok n \<longleftrightarrow> (case n of (x, y, z) \<Rightarrow> int x < 2 ^ 63 \<and> int y < 2 ^ 63 \<and> int z < 2 ^ 63)"

lemma atoi_nat_dec: "int n < 2 ^ 63 \<Longrightarrow> fst (atoi (nat_dec n)) = int n"
  using atoi_int_dec [of "int n"] by (simp add: int_dec_def)

lemma split_at_dot:
  "CHR ''.'' \<notin> set a \<Longrightarrow> split_byte_n (Suc (Suc n)) CHR ''.'' (a @ CHR ''.'' # r) = a # split_byte_n (Suc n) CHR ''.'' r"
proof -
  assume "CHR ''.'' \<notin> set a"
  then have "dropWhile (\<lambda>x. x \<noteq> CHR ''.'') (a @ CHR ''.'' # r) = CHR ''.'' # r"
    by (subst dropWhile_append2) auto
  moreover from \<open>CHR ''.'' \<notin> set a\<close> have "\<forall>x\<in>set a. x \<noteq> CHR ''.''" by auto
  ultimately show ?thesis by (simp add: takeWhile_tail)
qed

lemma cut_at_any:
  "(if 0 \<le> index_any s cs then take (nat (index_any s cs)) s else s) = takeWhile (\<lambda>c. c \<notin> set cs) s"
proof (cases "length (takeWhile (\<lambda>c. c \<notin> set cs) s) < length s")
  case True
  then show ?thesis by (simp add: index_any_def flip: takeWhile_eq_take)
next
  case False
  then have "length (takeWhile (\<lambda>c. c \<notin> set cs) s) = length s"
    using length_takeWhile_le [of "\<lambda>c. c \<notin> set cs" s] by simp
  then have "takeWhile (\<lambda>c. c \<notin> set cs) s = s" by (metis append_Nil2 append_eq_append_conv takeWhile_dropWhile_id)
  with False show ?thesis by (simp only: index_any_def Let_def if_False) simp
qed

lemma version_parts_text:
  assumes "parts_ok (x, y, z)" and "label_ok l"
  shows "version_parts (version_text (x, y, z) l) = [int x, int y, int z]"
proof -
  let ?n = "nat_dec x @ CHR ''.'' # nat_dec y @ CHR ''.'' # nat_dec z"
  have v: "version_text (x, y, z) l = ?n @ l" by (simp add: version_text_def)
  have h: "is_digit (hd (?n @ l))" by simp
  have last: "visible (last (?n @ l))"
  proof (cases "l = []")
    case True
    then show ?thesis using nat_dec_digits [of "last (nat_dec z)" z] by (simp add: digit_visible)
  next
    case False
    with assms(2) show ?thesis by (auto simp: label_ok_def list_all_iff)
  qed
  have t: "trim_space (?n @ l) = ?n @ l"
    using h last by (intro trim_space_visible) (simp add: digit_visible)
  have nv: "trim_prefix (?n @ l) ''v'' = ?n @ l"
    using h by (cases "nat_dec x") (auto simp: trim_prefix_def has_prefix_Cons is_digit_of_char)
  have "\<forall>c\<in>set ?n. c \<notin> set ''-+''" by auto
  then have "takeWhile (\<lambda>c. c \<notin> set ''-+'') (?n @ l) = ?n @ takeWhile (\<lambda>c. c \<notin> set ''-+'') l"
    by (intro takeWhile_append2) blast
  also have "takeWhile (\<lambda>c. c \<notin> set ''-+'') l = []"
    using assms(2) by (cases l) (auto simp: label_ok_def)
  finally have "takeWhile (\<lambda>c. c \<notin> set ''-+'') (?n @ l) = ?n" by simp
  then have i: "(if 0 \<le> index_any (?n @ l) ''-+'' then take (nat (index_any (?n @ l) ''-+'')) (?n @ l) else ?n @ l) = ?n"
    by (simp only: cut_at_any)
  have "split_byte_n 3 CHR ''.'' ?n = [nat_dec x, nat_dec y, nat_dec z]"
    by (simp add: numeral_3_eq_3 split_at_dot del: split_byte_n.simps(3))
  then show ?thesis
    unfolding version_parts_def v t nv Let_def i using assms(1) by (simp add: parts_ok_def atoi_nat_dec)
qed

text \<open>
  The upgrade check compares the three numbers of two versions, major before minor before
  patch, and nothing else: not the labels, and not the digits as text.
\<close>

lemma version_less_numeric:
  assumes "parts_ok (x, y, z)" "parts_ok (x', y', z')" "label_ok l" "label_ok l'"
  shows "version_less (version_text (x, y, z) l) (version_text (x', y', z') l') \<longleftrightarrow>
    x < x' \<or> x = x' \<and> (y < y' \<or> y = y' \<and> z < z')"
  using assms by (auto simp: version_less_def version_parts_text)

lemma version_less_example:
  "version_less (version_text (1, 9, 0) []) (version_text (1, 10, 0) ''-rc1'')"
  using version_less_numeric [of 1 9 0 1 10 0 "[]" "''-rc1''"]
  by (simp add: parts_ok_def label_ok_def visible_def byte_in_def)

end
