(* ===== verification/Backoff.thy ===== *)
theory Backoff
  imports Go_Time_Parse Patterns
begin

text \<open>
  \<open>internal/agent/backoff.go\<close>: the delays between attempts (\<open>Backoff\<close>, \<open>jitter\<close>), the
  delay that a collector asks for (\<open>parseRetryAfter\<close>), and the batch identifiers
  (\<open>newUUIDv7\<close>). A duration is a number of nanoseconds. The lemmas bound every delay and show
  that the identifiers are well formed and ordered by time.
\<close>

section \<open>Delays\<close>

definition backoff_steps :: "duration list" where
  "backoff_steps = [1 * second, 5 * second, 15 * second, 30 * second, 60 * second]"

definition max_retry_after :: duration where "max_retry_after = 3600 * second"

text \<open>
  The float64 arithmetic of \<open>jitter\<close>. The random number is \<open>k / 2 ^ 53\<close> for an integer
  \<open>k\<close>, and 0.8 and 0.4 are \<open>m / 2 ^ 53\<close> and \<open>m / 2 ^ 54\<close> for the same mantissa. All exact
  intermediate values are integers in units of \<open>2 ^ -107\<close>; each operation rounds to 53 bits, to
  even on a tie (on a machine that does not fuse multiplication and addition).
\<close>

function ulp :: "int \<Rightarrow> int" where
  "ulp m = (if m < 2 ^ 53 then 1 else 2 * ulp (m div 2))"
  by pat_completeness auto
termination
  by (relation "measure nat") auto

declare ulp.simps [simp del]

definition round53 :: "int \<Rightarrow> int" where
  "round53 m =
     (let u = ulp m; q = m div u; r = m mod u
      in if 2 * r < u \<or> 2 * r = u \<and> even q then q * u else (q + 1) * u)"

definition mantissa_08 :: int where "mantissa_08 = 7205759403792794"

definition jitter :: "duration \<Rightarrow> int \<Rightarrow> duration" where
  "jitter d k =
     (let scaled = round53 (mantissa_08 * k); factor = round53 (mantissa_08 * 2 ^ 54 + scaled)
      in round53 (d * factor) div 2 ^ 107)"

text \<open>The state is the number of attempts since the last success; the result is the delay.\<close>

record backoff =
  bo_attempt :: nat

definition backoff_next :: "int \<Rightarrow> backoff \<Rightarrow> backoff \<times> duration" where
  "backoff_next k b =
     (b\<lparr>bo_attempt := bo_attempt b + 1\<rparr>,
      jitter (backoff_steps ! min (bo_attempt b) (length backoff_steps - 1)) k)"

definition backoff_reset :: "backoff \<Rightarrow> backoff" where
  "backoff_reset b = b\<lparr>bo_attempt := 0\<rparr>"

section \<open>Retry-After\<close>

text \<open>Machine integers: the result of an \<open>int64\<close> operation, and the saturating \<open>t.Sub(u)\<close>.\<close>

definition int64 :: "int \<Rightarrow> int" where
  "int64 n = (n + 2 ^ 63) mod 2 ^ 64 - 2 ^ 63"

definition time_sub :: "gtime \<Rightarrow> gtime \<Rightarrow> duration" where
  "time_sub t u = max (- (2 ^ 63)) (min (2 ^ 63 - 1) (t - u))"

definition parse_retry_after :: "string \<Rightarrow> gtime \<Rightarrow> duration option" where
  "parse_retry_after v now =
     (let v = trim_space v
      in if v = [] then None
         else case atoi v of
           (secs, None) \<Rightarrow>
             if secs < 0 then None else Some (min (int64 (secs * second)) max_retry_after)
         | (_, Some e) \<Rightarrow>
             (case http_parse_time v of
                None \<Rightarrow> None
              | Some t \<Rightarrow> Some (min (max (time_sub t now) 0) max_retry_after)))"

section \<open>Batch identifiers\<close>

text \<open>
  Six bytes of milliseconds and ten random ones, with the version and the variant in their fixed
  bits: \<open>c \<and> 0x0f \<or> 0x70\<close> and \<open>c \<and> 0x3f \<or> 0x80\<close> on disjoint bits.
\<close>

definition unix_milli :: "gtime \<Rightarrow> int" where
  "unix_milli t = t div 1000000"

definition hex_bytes :: "nat list \<Rightarrow> string" where
  "hex_bytes bs = concat (map (\<lambda>b. [hex_digit (b div 16), hex_digit (b mod 16)]) bs)"

definition new_uuid_v7 :: "gtime \<Rightarrow> nat list \<Rightarrow> string" where
  "new_uuid_v7 now random =
     (let ms = nat (unix_milli now mod 2 ^ 64);
          time = map (\<lambda>i. ms div 2 ^ (40 - 8 * i) mod 256) [0..<6];
          b = time @ random;
          b = b[6 := b ! 6 mod 16 + 112];
          b = b[8 := b ! 8 mod 64 + 128]
      in hex_bytes (take 4 b) @ ''-'' @ hex_bytes (take 2 (drop 4 b)) @ ''-'' @ hex_bytes (take 2 (drop 6 b))
         @ ''-'' @ hex_bytes (take 2 (drop 8 b)) @ ''-'' @ hex_bytes (drop 10 b))"

section \<open>Bounds of the delays\<close>

lemma ulp_pos: "0 < ulp m"
  by (induction m rule: ulp.induct) (subst ulp.simps, auto)

lemma ulp_le: "2 ^ 53 \<le> m \<Longrightarrow> ulp m * 2 ^ 52 \<le> m"
proof (induction m rule: ulp.induct)
  case (1 m)
  show ?case
  proof (cases "m div 2 < 2 ^ 53")
    case True
    with 1 show ?thesis by (simp add: ulp.simps [of m] ulp.simps [of "m div 2"])
  next
    case False
    with 1 have "ulp (m div 2) * 2 ^ 52 \<le> m div 2" by simp
    with 1 show ?thesis by (simp add: ulp.simps [of m])
  qed
qed

lemma round53_error: "0 \<le> m \<Longrightarrow> (round53 m - m) * 2 ^ 53 \<le> m \<and> (m - round53 m) * 2 ^ 53 \<le> m"
proof -
  assume m: "0 \<le> m"
  let ?u = "ulp m"
  define p r where "p = m div ?u * ?u" and "r = m mod ?u"
  have r: "m = p + r" "0 \<le> r" "r < ?u" using ulp_pos [of m] by (simp_all add: p_def r_def)
  have "round53 m = p \<and> 2 * r \<le> ?u \<or> round53 m = p + ?u \<and> ?u \<le> 2 * r"
    by (auto simp: round53_def Let_def p_def r_def algebra_simps)
  with r have e: "2 * (round53 m - m) \<le> ?u" "2 * (m - round53 m) \<le> ?u" by auto
  show ?thesis
  proof (cases "2 ^ 53 \<le> m")
    case True
    with ulp_le [of m] e show ?thesis by simp
  next
    case False
    then have "?u = 1" by (simp add: ulp.simps [of m])
    with e have "round53 m = m" by presburger
    with m show ?thesis by simp
  qed
qed

lemma jitter_bounds:
  assumes d: "d \<in> set backoff_steps" and k: "0 \<le> k" "k < 2 ^ 53"
  shows "4 * d \<le> 5 * (jitter d k + 1) \<and> 5 * (jitter d k - 1) \<le> 6 * d"
proof -
  define a where "a = round53 (mantissa_08 * k)"
  define b where "b = round53 (mantissa_08 * 2 ^ 54 + a)"
  define c where "c = round53 (d * b)"
  have a: "(a - mantissa_08 * k) * 2 ^ 53 \<le> mantissa_08 * k" "(mantissa_08 * k - a) * 2 ^ 53 \<le> mantissa_08 * k"
    using k using round53_error [of "mantissa_08 * k"] by (simp_all add: a_def mantissa_08_def)
  then have a_range: "0 \<le> a \<and> a \<le> mantissa_08 * 2 ^ 53 + mantissa_08"
    using k by (simp add: mantissa_08_def)
  then have b: "(b - (mantissa_08 * 2 ^ 54 + a)) * 2 ^ 53 \<le> mantissa_08 * 2 ^ 54 + a" "((mantissa_08 * 2 ^ 54 + a) - b) * 2 ^ 53 \<le> mantissa_08 * 2 ^ 54 + a"
    using round53_error [of "mantissa_08 * 2 ^ 54 + a"] by (simp_all add: b_def mantissa_08_def)
  with a_range have b_range: "0 \<le> b \<and> mantissa_08 * 2 ^ 54 \<le> b + 4 * mantissa_08
      \<and> b \<le> mantissa_08 * 2 ^ 54 + mantissa_08 * 2 ^ 53 + 8 * mantissa_08"
    by (simp add: mantissa_08_def)
  from d have d_cases: "d \<in> {1 * second, 5 * second, 15 * second, 30 * second, 60 * second}"
    by (simp add: backoff_steps_def)
  then have "0 \<le> d * b" using b_range by (auto simp: second_def)
  then have c: "(c - d * b) * 2 ^ 53 \<le> d * b" "(d * b - c) * 2 ^ 53 \<le> d * b" using round53_error [of "d * b"] by (simp_all add: c_def)
  have "jitter d k = c div 2 ^ 107" by (simp add: jitter_def a_def b_def c_def Let_def)
  with c b_range d_cases show ?thesis
    by (auto simp: mantissa_08_def second_def)
qed

text \<open>
  C22: Every backoff delay is within one nanosecond of 80 to 120 percent of its step, whatever the
  random number and the number of attempts, so it is between 0.8 and 72 seconds; the step grows
  with the attempts, and a reset starts over.
\<close>

theorem backoff_next_bounds:
  assumes "0 \<le> k" "k < 2 ^ 53"
  shows "bo_attempt (fst (backoff_next k b)) = bo_attempt b + 1
    \<and> (\<exists>d\<in>set backoff_steps. d = backoff_steps ! min (bo_attempt b) 4
          \<and> 4 * d \<le> 5 * (snd (backoff_next k b) + 1) \<and> 5 * (snd (backoff_next k b) - 1) \<le> 6 * d)
    \<and> snd (backoff_next k (backoff_reset b)) = jitter second k"
proof -
  let ?d = "backoff_steps ! min (bo_attempt b) 4"
  have "?d \<in> set backoff_steps" by (rule nth_mem) (simp add: backoff_steps_def)
  moreover have "snd (backoff_next k b) = jitter ?d k"
    by (simp add: backoff_next_def backoff_steps_def numeral_eq_Suc)
  moreover have "snd (backoff_next k (backoff_reset b)) = jitter second k"
    by (simp add: backoff_next_def backoff_reset_def backoff_steps_def)
  ultimately show ?thesis
    using jitter_bounds [OF _ assms] by (auto simp: backoff_next_def)
qed

theorem backoff_next_bounds_witness:
  "\<exists>d\<in>set backoff_steps. 4 * d \<le> 5 * (snd (backoff_next 12345 \<lparr>bo_attempt = 7\<rparr>) + 1)"
  using backoff_next_bounds [of 12345 "\<lparr>bo_attempt = 7\<rparr>"] by auto

section \<open>Bounds of Retry-After\<close>

lemma int64_id: "- (2 ^ 63) \<le> n \<Longrightarrow> n < 2 ^ 63 \<Longrightarrow> int64 n = n"
  by (simp add: int64_def)

text \<open>
  A delay asked for by the collector is never more than an hour, and it is not negative, for a
  date and for a number of seconds up to 9223372036.
\<close>

lemma parse_retry_after_bounds:
  assumes "parse_retry_after v now = Some d"
  shows "d \<le> max_retry_after
    \<and> (fst (atoi (trim_space v)) \<le> 9223372036 \<or> snd (atoi (trim_space v)) \<noteq> None \<longrightarrow> 0 \<le> d)"
proof (cases "snd (atoi (trim_space v))")
  case None
  then obtain n where n: "atoi (trim_space v) = (n, None)" by (cases "atoi (trim_space v)") auto
  with assms have d: "0 \<le> n" "d = min (int64 (n * second)) max_retry_after"
    by (auto simp: parse_retry_after_def Let_def split: if_splits)
  moreover have "n \<le> 9223372036 \<Longrightarrow> int64 (n * second) = n * second"
    using d(1) by (intro int64_id) (simp_all add: second_def)
  ultimately show ?thesis using n by (auto simp: second_def max_retry_after_def)
next
  case (Some e)
  then obtain n where n: "atoi (trim_space v) = (n, Some e)" by (cases "atoi (trim_space v)") auto
  with assms show ?thesis
    by (auto simp: parse_retry_after_def Let_def max_retry_after_def second_def split: if_splits option.splits)
qed

lemma parse_retry_after_example:
  "\<exists>d. parse_retry_after ''Sun, 06 Nov 1994 08:49:37 GMT'' 784111767000000000 = Some d \<and> d \<le> max_retry_after"
proof -
  have "parse_retry_after ''Sun, 06 Nov 1994 08:49:37 GMT'' 784111767000000000 = Some 10000000000" by code_simp
  from parse_retry_after_bounds [OF this] this show ?thesis by blast
qed


section \<open>Identifiers\<close>

text \<open>The \<open>k\<close> hexadecimal digits of a number.\<close>

fun hexn :: "nat \<Rightarrow> nat \<Rightarrow> string" where
  "hexn 0 n = []"
| "hexn (Suc k) n = hexn k (n div 16) @ [hex_digit (n mod 16)]"

lemma length_hexn [simp]: "length (hexn k n) = k"
  by (induction k arbitrary: n) simp_all

lemma hex_digits_ordered: "list_all (\<lambda>n. list_all (\<lambda>m. hex_digit m < hex_digit n) [0..<n]) [0..<16]"
  by code_simp

lemma hex_digit_less: "m < n \<Longrightarrow> n < 16 \<Longrightarrow> hex_digit m < hex_digit n"
  using hex_digits_ordered by (simp add: list_all_iff)

lemma hexn_less: "m < n \<Longrightarrow> n < 16 ^ k \<Longrightarrow> hexn k m < hexn k n"
proof (induction k arbitrary: m n)
  case (Suc k)
  have n: "n div 16 < 16 ^ k" using Suc.prems(2) by (simp add: less_mult_imp_div_less mult.commute)
  consider "m div 16 < n div 16" | "m div 16 = n div 16" "m mod 16 < n mod 16"
    using Suc.prems(1) by (metis div_le_mono div_mult_mod_eq le_neq_implies_less less_imp_le_nat nat_add_left_cancel_less)
  then show ?case
  proof cases
    case 1
    with Suc.IH [OF 1 n] show ?thesis by (simp add: append_less_iff)
  next
    case 2
    then show ?thesis by (simp add: append_less_iff hex_digit_less)
  qed
qed simp

lemma hexn_hex: "list_all is_hex (hexn k n)"
  by (induction k arbitrary: n) (simp_all add: hex_digit_is_hex)

lemma byte_digits: "n mod 256 div 16 = n div 16 mod (16::nat)" "n mod 256 mod 16 = n mod (16::nat)"
  using mod_mult2_eq [of n 16 16] by (simp_all add: mod_mod_cancel)

lemma hexn_byte: "hexn (Suc (Suc k)) n = hexn k (n div 256) @ hex_bytes [n mod 256]"
  by (simp add: hex_bytes_def byte_digits div_mult2_eq [symmetric])

lemma hexn_Suc2: "hexn 2 n = hex_bytes [n mod 256]"
  using hexn_byte [of 0 n] by (simp add: numeral_2_eq_2)

lemma hex_byte [simp]: "b < 256 \<Longrightarrow> is_hex (hex_digit (b div 16))" "is_hex (hex_digit (b mod 16))"
  by (simp_all add: hex_digit_is_hex less_mult_imp_div_less)

lemma ten_bytes: "length r = 10 \<Longrightarrow> \<exists>a b c d e f g h i j. r = [a, b, c, d, e, f, g, h, i, j]"
  by (auto simp: length_Suc_conv numeral_eq_Suc)

lemma hex_bytes_Cons: "hex_bytes (b # bs) = hex_digit (b div 16) # hex_digit (b mod 16) # hex_bytes bs"
  by (simp add: hex_bytes_def)

lemma hexn_4: "hexn 4 (n mod 65536) = hex_bytes [n div 256 mod 256, n mod 256]"
proof -
  have "n mod 65536 div 256 = n div 256 mod 256" using mod_mult2_eq [of n 256 256] by simp
  moreover have "n mod 65536 mod 256 = n mod 256" by (simp add: mod_mod_cancel)
  ultimately show ?thesis
    using hexn_byte [of 2 "n mod 65536"] hexn_Suc2 [of "n div 256 mod 256"] by (simp add: hex_bytes_def)
qed

lemma hexn_8: "hexn 8 (n div 65536) = hex_bytes [n div 2 ^ 40 mod 256, n div 2 ^ 32 mod 256, n div 2 ^ 24 mod 256, n div 65536 mod 256]"
proof -
  let ?m = "n div 65536"
  have d: "?m div 256 = n div 2 ^ 24" "n div 2 ^ 24 div 256 = n div 2 ^ 32" "n div 2 ^ 32 div 256 = n div 2 ^ 40"
    by (simp_all add: div_mult2_eq [symmetric])
  have "hexn 8 ?m = hexn 2 (?m div 256 div 256 div 256) @ hex_bytes [?m div 256 div 256 mod 256]
      @ hex_bytes [?m div 256 mod 256] @ hex_bytes [?m mod 256]"
    using hexn_byte [of 6 ?m] hexn_byte [of 4 "?m div 256"] hexn_byte [of 2 "?m div 256 div 256"] by simp
  then show ?thesis by (simp only: d hexn_Suc2) (simp add: hex_bytes_def)
qed

lemma new_uuid_v7_form:
  assumes "length random = 10" and assms': "\<forall>b\<in>set random. b < 256"
  shows "\<exists>v w. new_uuid_v7 t random = hexn 8 (nat (unix_milli t mod 2 ^ 64) div 65536) @ CHR ''-''
      # hexn 4 (nat (unix_milli t mod 2 ^ 64) mod 65536) @ CHR ''-'' # CHR ''7'' # v @ CHR ''-'' # w
    \<and> length v = 3 \<and> list_all is_hex v \<and> hex_groups [4, 12] w"
proof -
  obtain a b c d e f g h i j where r: "random = [a, b, c, d, e, f, g, h, i, j]" using ten_bytes [OF assms(1)] by blast
  define n where "n = nat (unix_milli t mod 2 ^ 64)"
  have bytes: "map (\<lambda>i. n div 2 ^ (40 - 8 * i) mod 256) [0..<6] =
      [n div 2 ^ 40 mod 256, n div 2 ^ 32 mod 256, n div 2 ^ 24 mod 256, n div 65536 mod 256, n div 256 mod 256, n mod 256]"
    by (simp add: upt_rec)
  have digit_7: "hex_digit ((a mod 16 + 112) div 16) = CHR ''7''"
  proof -
    have "(a mod 16 + 112) div 16 = 7" by presburger
    then show ?thesis by (simp add: hex_digit_def)
  qed
  have "(a mod 16 + 7 * 16) mod 16 = a mod 16" by (simp only: mod_mult_self1 mod_mod_trivial)
  then have low: "(a mod 16 + 112) mod 16 = a mod 16" by (simp del: mod_mult_self1)
  let ?v = "[hex_digit (a mod 16), hex_digit (b div 16), hex_digit (b mod 16)]"
  let ?w = "hex_bytes [c mod 64 + 128, d] @ CHR ''-'' # hex_bytes [e, f, g, h, i, j]"
  have "new_uuid_v7 t random = hexn 8 (n div 65536) @ CHR ''-'' # hexn 4 (n mod 65536) @ CHR ''-'' # CHR ''7'' # ?v @ CHR ''-'' # ?w"
    unfolding new_uuid_v7_def n_def [symmetric] Let_def bytes r hexn_8 hexn_4
    by (simp add: hex_bytes_def digit_7) (simp only: low)
  moreover have "list_all is_hex ?v"
    using assms' by (simp add: r hex_digit_is_hex)
  moreover have "c mod 64 + 128 < 256" using mod_less_divisor [of 64 c] by linarith
  then have "hex_groups [4, 12] ?w"
    using assms' by (simp add: r hex_bytes_def)
  moreover have "length ?v = 3" by simp
  ultimately show ?thesis unfolding n_def [symmetric] by (intro exI conjI)
qed

text \<open>
  A batch identifier is a UUID of version 7, and identifiers made in different milliseconds are
  ordered as text the way their times are.
\<close>

lemma new_uuid_v7_ordered:
  assumes "length r = 10" "\<forall>b\<in>set r. b < 256" "length r' = 10" "\<forall>b\<in>set r'. b < 256"
  shows "is_uuid (new_uuid_v7 t r) \<and> new_uuid_v7 t r ! 14 = CHR ''7''
    \<and> (0 \<le> unix_milli t \<and> unix_milli t < unix_milli t' \<and> unix_milli t' < 2 ^ 48
         \<longrightarrow> new_uuid_v7 t r < new_uuid_v7 t' r')"
proof -
  let ?n = "nat (unix_milli t mod 2 ^ 64)" let ?n' = "nat (unix_milli t' mod 2 ^ 64)"
  from new_uuid_v7_form [OF assms(1,2), of t] obtain v w where
    u: "new_uuid_v7 t r = hexn 8 (?n div 65536) @ CHR ''-'' # hexn 4 (?n mod 65536) @ CHR ''-'' # CHR ''7'' # v @ CHR ''-'' # w"
    and v: "length v = 3" "list_all is_hex v" "hex_groups [4, 12] w" by blast
  from new_uuid_v7_form [OF assms(3,4), of t'] obtain v' w' where
    u': "new_uuid_v7 t' r' = hexn 8 (?n' div 65536) @ CHR ''-'' # hexn 4 (?n' mod 65536) @ CHR ''-'' # CHR ''7'' # v' @ CHR ''-'' # w'"
    by blast
  have seven: "is_hex CHR ''7''" by (simp add: is_hex_def is_digit_of_char)
  have "is_uuid (new_uuid_v7 t r)"
    using v seven unfolding u is_uuid_def by (simp add: nth_append hexn_hex)
  moreover have "new_uuid_v7 t r ! 14 = CHR ''7''" unfolding u by (simp add: nth_append)
  moreover have "new_uuid_v7 t r < new_uuid_v7 t' r'"
    if t: "0 \<le> unix_milli t" "unix_milli t < unix_milli t'" "unix_milli t' < 2 ^ 48"
  proof -
    have n: "?n < ?n'" "?n' < 2 ^ 48" using t by (auto simp: nat_less_iff)
    have b: "?n' div 65536 < 16 ^ 8" "?n' mod 65536 < 16 ^ 4" using n(2) by (auto simp: less_mult_imp_div_less)
    consider "?n div 65536 < ?n' div 65536" | "?n div 65536 = ?n' div 65536" "?n mod 65536 < ?n' mod 65536"
      using n(1) by (metis div_le_mono div_mult_mod_eq le_neq_implies_less less_imp_le_nat nat_add_left_cancel_less)
    then have "hexn 8 (?n div 65536) < hexn 8 (?n' div 65536)
        \<or> ?n div 65536 = ?n' div 65536 \<and> hexn 4 (?n mod 65536) < hexn 4 (?n' mod 65536)"
      by cases (use hexn_less b in blast)+
    then show ?thesis unfolding u u' by (elim disjE) (simp_all only: append_less_iff length_hexn Cons_less_Cons simp_thms)
  qed
  ultimately show ?thesis by blast
qed

lemma new_uuid_v7_example:
  "new_uuid_v7 1700000000000000000 [1, 2, 3, 4, 5, 6, 7, 8, 9, 10] < new_uuid_v7 1700000000001000000 [0, 0, 0, 0, 0, 0, 0, 0, 0, 0]"
  using new_uuid_v7_ordered [of "[1, 2, 3, 4, 5, 6, 7, 8, 9, 10]" "[0, 0, 0, 0, 0, 0, 0, 0, 0, 0]"
      1700000000000000000 1700000000001000000]
  by (simp add: unix_milli_def)

end
