(* ===== verification/Go_Net.thy ===== *)
theory Go_Net
  imports Patterns
begin

text \<open>
  What the program uses of Go's \<open>net\<close>: whether \<open>net.ParseIP\<close> accepts a text, after
  \<open>netip.ParseAddr\<close>. An address with a zone is refused.
\<close>

section \<open>IPv4\<close>

text \<open>A decimal octet without a leading zero.\<close>

definition is_octet :: "string \<Rightarrow> bool" where
  "is_octet s \<longleftrightarrow>
     s \<noteq> [] \<and> list_all is_digit s \<and> (hd s = CHR ''0'' \<longrightarrow> tl s = []) \<and> length s \<le> 3 \<and> horner 0 s \<le> 255"

definition is_ipv4 :: "string \<Rightarrow> bool" where
  "is_ipv4 s \<longleftrightarrow> (let fs = split_byte CHR ''.'' s in length fs = 4 \<and> list_all is_octet fs)"

section \<open>IPv6\<close>

text \<open>
  The loop over the groups: \<open>i\<close> bytes have been read, \<open>dots\<close> says whether the double colon has
  been seen. An empty rest is the end of the text.
\<close>

definition ipv6_end :: "nat \<Rightarrow> bool \<Rightarrow> bool" where
  "ipv6_end i dots \<longleftrightarrow> (if i < 16 then dots else \<not> dots)"

function ipv6_groups :: "nat \<Rightarrow> bool \<Rightarrow> string \<Rightarrow> bool" where
  "ipv6_groups i dots s =
     (if 16 \<le> i then False
      else
        let h = takeWhile is_hex s; r = dropWhile is_hex s
        in if h = [] \<or> 4 < length h then False
           else if r \<noteq> [] \<and> hd r = CHR ''.'' then (dots \<or> i = 12) \<and> i \<le> 12 \<and> is_ipv4 s \<and> ipv6_end (i + 4) dots
           else if r = [] then ipv6_end (i + 2) dots
           else if hd r \<noteq> CHR '':'' \<or> tl r = [] then False
           else if hd (tl r) = CHR '':''
           then (if dots then False
                 else if tl (tl r) = [] then ipv6_end (i + 2) True
                 else ipv6_groups (i + 2) True (tl (tl r)))
           else ipv6_groups (i + 2) dots (tl r))"
  by pat_completeness auto
termination
  by (relation "measure (\<lambda>(i, dots, s). 16 - i)") auto

declare ipv6_groups.simps [simp del]

definition is_ipv6 :: "string \<Rightarrow> bool" where
  "is_ipv6 s \<longleftrightarrow>
     CHR ''%'' \<notin> set s
     \<and> (if has_prefix s ''::'' then drop 2 s = [] \<or> ipv6_groups 0 True (drop 2 s) else ipv6_groups 0 False s)"

text \<open>The first dot, colon or percent sign decides.\<close>

definition is_ip :: "string \<Rightarrow> bool" where
  "is_ip s \<longleftrightarrow>
     (case find (\<lambda>c. c = CHR ''.'' \<or> c = CHR '':'' \<or> c = CHR ''%'') s of
        None \<Rightarrow> False
      | Some c \<Rightarrow> if c = CHR ''.'' then is_ipv4 s else if c = CHR '':'' then is_ipv6 s else False)"

end
