(* ===== verification/Agent_Config.thy ===== *)
theory Agent_Config
  imports Go_Net Go_Time
begin

text \<open>
  \<open>internal/agent/config.go\<close>: the agent's settings, their validation and the summary that is
  shown. The TOML file is read by a library, so a configuration is given as a value; the files of
  the system and \<open>url.Parse\<close> are parameters. A message is named by the field and the rule it
  breaks, with the value it shows.
\<close>

section \<open>Settings\<close>

record agent_config =
  cf_agent_id :: string
  cf_site_id :: string
  cf_addr :: string
  cf_port :: int
  cf_endpoint :: string
  cf_token :: string
  cf_batch_size :: int
  cf_batch_interval_seconds :: int
  cf_ca_file :: string
  cf_heartbeat_interval_seconds :: int
  cf_spool_dir :: string
  cf_retention_days :: int
  cf_max_size_gb :: int
  cf_log_level :: string
  cf_log_dir :: string
  cf_proxy_url :: string
  cf_path :: string

text \<open>What the program reads of a parsed URL; \<open>url_user\<close> says whether it carries credentials.\<close>

record url =
  url_scheme :: string
  url_host :: string
  url_user :: bool
  url_query :: string
  url_fragment :: string

section \<open>Validate\<close>

datatype endpoint_error = NotHttps | UrlSyntax | UrlParts

datatype config_error =
    BadAgentId string | BadSiteId string | BadAddr string
  | OutOfRange string int int int \<comment> \<open>field, lowest, highest, value\<close>
  | BadEndpoint endpoint_error string
  | EmptyField string
  | UnreadableCa string
  | BadLevel string
  | BadProxy \<comment> \<open>the URL is not shown\<close>

definition int_range :: "string \<Rightarrow> int \<Rightarrow> int \<Rightarrow> int \<Rightarrow> config_error list" where
  "int_range field v lo hi = (if v < lo \<or> hi < v then [OutOfRange field lo hi v] else [])"

definition validate_endpoint :: "(string \<Rightarrow> url option) \<Rightarrow> string \<Rightarrow> endpoint_error option" where
  "validate_endpoint parse_url s =
     (if \<not> has_prefix s ''https://'' then Some NotHttps
      else case parse_url s of
        None \<Rightarrow> Some UrlSyntax
      | Some u \<Rightarrow>
          if url_host u = [] \<or> url_user u \<or> url_query u \<noteq> [] \<or> url_fragment u \<noteq> [] then Some UrlParts
          else None)"

definition non_empty :: "string \<Rightarrow> string \<Rightarrow> config_error list" where
  "non_empty field v = (if trim_space v = [] then [EmptyField field] else [])"

text \<open>All messages, in order; the configuration is accepted when there is none.\<close>

definition config_errors ::
  "(string \<Rightarrow> url option) \<Rightarrow> (string \<Rightarrow> bool) \<Rightarrow> agent_config \<Rightarrow> config_error list" where
  "config_errors parse_url file_exists c =
     (if is_uuid (cf_agent_id c) then [] else [BadAgentId (cf_agent_id c)])
     @ (if is_site_id (cf_site_id c) then [] else [BadSiteId (cf_site_id c)])
     @ (if is_ip (cf_addr c) then [] else [BadAddr (cf_addr c)])
     @ int_range ''listener.port'' (cf_port c) 1024 65535
     @ (case validate_endpoint parse_url (cf_endpoint c) of
          None \<Rightarrow> [] | Some e \<Rightarrow> [BadEndpoint e (cf_endpoint c)])
     @ non_empty ''forwarder.token'' (cf_token c)
     @ int_range ''forwarder.batch_size'' (cf_batch_size c) 1 10000
     @ int_range ''forwarder.batch_interval_seconds'' (cf_batch_interval_seconds c) 5 300
     @ (if cf_ca_file c \<noteq> [] \<and> \<not> file_exists (cf_ca_file c) then [UnreadableCa (cf_ca_file c)] else [])
     @ int_range ''heartbeat.interval_seconds'' (cf_heartbeat_interval_seconds c) 60 3600
     @ non_empty ''spool.dir'' (cf_spool_dir c)
     @ int_range ''spool.retention_days'' (cf_retention_days c) 1 365
     @ int_range ''spool.max_size_gb'' (cf_max_size_gb c) 1 500
     @ non_empty ''logging.dir'' (cf_log_dir c)
     @ (if cf_log_level c \<in> set [''debug'', ''info'', ''warn'', ''error''] then []
        else [BadLevel (cf_log_level c)])
     @ (if cf_proxy_url c = [] then []
        else case parse_url (cf_proxy_url c) of
          None \<Rightarrow> [BadProxy]
        | Some u \<Rightarrow>
            if (url_scheme u \<noteq> ''http'' \<and> url_scheme u \<noteq> ''https'') \<or> url_host u = [] then [BadProxy] else [])"

definition validate :: "(string \<Rightarrow> url option) \<Rightarrow> (string \<Rightarrow> bool) \<Rightarrow> agent_config \<Rightarrow> config_error list + unit" where
  "validate parse_url file_exists c =
     (let errs = config_errors parse_url file_exists c in if errs \<noteq> [] then Inl errs else Inr ())"

section \<open>Derived settings\<close>

definition endpoint_base :: "agent_config \<Rightarrow> string" where
  "endpoint_base c = trim_right (cf_endpoint c) ''/''"

definition batch_interval :: "agent_config \<Rightarrow> duration" where
  "batch_interval c = cf_batch_interval_seconds c * second"

definition heartbeat_interval :: "agent_config \<Rightarrow> duration" where
  "heartbeat_interval c = cf_heartbeat_interval_seconds c * second"

text \<open>\<open>New\<close>: gigabytes to bytes.\<close>

definition max_spool_bytes :: "agent_config \<Rightarrow> int" where
  "max_spool_bytes c = cf_max_size_gb c * 2 ^ 30"

record config_summary =
  cs_agent_id :: string
  cs_site_id :: string
  cs_listen :: string
  cs_endpoint :: string
  cs_batch_size :: int
  cs_batch_interval_seconds :: int
  cs_heartbeat_interval_seconds :: int
  cs_spool_dir :: string
  cs_retention_days :: int
  cs_max_size_gb :: int
  cs_log_dir :: string
  cs_log_level :: string
  cs_proxy_url :: string
  cs_ca_file :: string

text \<open>\<open>net.JoinHostPort\<close> puts a host with a colon in brackets.\<close>

definition join_host_port :: "string \<Rightarrow> string \<Rightarrow> string" where
  "join_host_port host port =
     (if CHR '':'' \<in> set host then ''['' @ host @ '']:'' @ port else host @ '':'' @ port)"

definition summary :: "(string \<Rightarrow> string) \<Rightarrow> agent_config \<Rightarrow> config_summary" where
  "summary redact_url c =
     \<lparr>cs_agent_id = cf_agent_id c, cs_site_id = cf_site_id c,
      cs_listen = join_host_port (cf_addr c) (int_dec (cf_port c)), cs_endpoint = cf_endpoint c,
      cs_batch_size = cf_batch_size c, cs_batch_interval_seconds = cf_batch_interval_seconds c,
      cs_heartbeat_interval_seconds = cf_heartbeat_interval_seconds c, cs_spool_dir = cf_spool_dir c,
      cs_retention_days = cf_retention_days c, cs_max_size_gb = cf_max_size_gb c,
      cs_log_dir = cf_log_dir c, cs_log_level = cf_log_level c,
      cs_proxy_url = redact_url (cf_proxy_url c), cs_ca_file = cf_ca_file c\<rparr>"

end
