(* ===== verification/Http_Client.thy ===== *)
theory Http_Client
  imports Agent_Config Json_Facts
begin

text \<open>
  \<open>internal/agent/httpclient.go\<close>: a request as the agent sends it and what comes back. The
  transport, TLS and the proxy are the network's; a reply is a transport error or a response. The
  compression of the body is a parameter \<open>gz\<close>.
\<close>

text \<open>The version in the source; a build may set another one.\<close>

definition agent_version :: string where "agent_version = ''1.0.0''"

record http_request =
  rq_method :: string
  rq_url :: string
  rq_authorization :: string
  rq_user_agent :: string
  rq_content_type :: string
  rq_content_encoding :: string
  rq_body :: bytes

record http_response =
  rs_status :: int
  rs_retry_after :: string
  rs_body :: bytes

type_synonym reply = "string + http_response"

definition max_reply :: int where "max_reply = 65536"

text \<open>\<open>do\<close> sets the credentials and reads at most 64 KiB of the reply's body.\<close>

definition authorize :: "agent_config \<Rightarrow> http_request \<Rightarrow> http_request" where
  "authorize c r =
     r\<lparr>rq_authorization := ''Bearer '' @ cf_token c, rq_user_agent := ''pico-utm-agent/'' @ agent_version\<rparr>"

definition read_reply :: "reply \<Rightarrow> reply" where
  "read_reply r =
     (case r of Inl e \<Rightarrow> Inl e | Inr s \<Rightarrow> Inr (s\<lparr>rs_body := take_int max_reply (rs_body s)\<rparr>))"

definition post_request :: "(bytes \<Rightarrow> bytes) \<Rightarrow> agent_config \<Rightarrow> string \<Rightarrow> bytes \<Rightarrow> http_request" where
  "post_request gz c path payload =
     authorize c
       \<lparr>rq_method = ''POST'', rq_url = endpoint_base c @ path, rq_authorization = [], rq_user_agent = [],
        rq_content_type = ''application/json'', rq_content_encoding = ''gzip'', rq_body = gz payload\<rparr>"

text \<open>
  A payload that cannot be printed as JSON is an error before anything is sent; the text is the
  library's. The request that is sent is part of the result.
\<close>

definition encode_error :: string where
  "encode_error = ''json: error calling MarshalJSON for type json.RawMessage''"

definition post ::
  "(bytes \<Rightarrow> bytes) \<Rightarrow> agent_config \<Rightarrow> (http_request \<Rightarrow> reply) \<Rightarrow> string \<Rightarrow> bytes option
   \<Rightarrow> http_request option \<times> reply" where
  "post gz c network path payload =
     (case payload of
        None \<Rightarrow> (None, Inl encode_error)
      | Some p \<Rightarrow> let rq = post_request gz c path (p @ [nl]) in (Some rq, read_reply (network rq)))"

definition get_request :: "agent_config \<Rightarrow> string \<Rightarrow> http_request" where
  "get_request c path =
     authorize c
       \<lparr>rq_method = ''GET'', rq_url = endpoint_base c @ path, rq_authorization = [], rq_user_agent = [],
        rq_content_type = [], rq_content_encoding = [], rq_body = []\<rparr>"

definition get :: "agent_config \<Rightarrow> (http_request \<Rightarrow> reply) \<Rightarrow> string \<Rightarrow> reply" where
  "get c network path = read_reply (network (get_request c path))"

end
