(* ===== verification/Forwarder.thy ===== *)
theory Forwarder
  imports Spool_Clean Backoff Http_Client
begin

text \<open>
  \<open>internal/agent/forwarder.go\<close>: the forwarder reads batches from the spool and posts each until
  the collector takes it or refuses it for good. What happens outside (the clock, the random
  numbers, the network, the disk, the end of the context) is an explicit record per attempt and
  per round, so a run is a function of them.
\<close>

section \<open>Statistics\<close>

text \<open>\<open>statsValues\<close> of \<open>agent.go\<close>.\<close>

record stats =
  st_received :: int
  st_forwarded :: int
  st_dead_lettered :: int
  st_dropped :: int
  st_spool_write_errors :: int
  st_last_event_received_at :: string
  st_last_forward_success_at :: string
  st_last_forward_error :: string
  st_last_heartbeat_at :: string
  st_last_heartbeat_error :: string
  st_min_supported_version :: string
  st_source_ips :: "string list"

definition stats_init :: stats where
  "stats_init =
     \<lparr>st_received = 0, st_forwarded = 0, st_dead_lettered = 0, st_dropped = 0, st_spool_write_errors = 0,
      st_last_event_received_at = [], st_last_forward_success_at = [], st_last_forward_error = [],
      st_last_heartbeat_at = [], st_last_heartbeat_error = [], st_min_supported_version = [],
      st_source_ips = []\<rparr>"

section \<open>Batches as JSON\<close>

record batch =
  ba_agent_id :: string
  ba_site_id :: string
  ba_agent_version :: string
  ba_batch_id :: string
  ba_sent_at :: string
  ba_events :: "bytes list"

text \<open>
  \<open>json.Marshal\<close> escapes the characters of HTML and the two line separators of Unicode also in
  raw values; the encoder of the requests does not.
\<close>

fun html_escape :: "bytes \<Rightarrow> bytes" where
  "html_escape [] = []"
| "html_escape (c # s) =
     (if has_prefix (c # s) [CHR 0xE2, CHR 0x80, CHR 0xA8] then CHR 0x5C # ''u2028'' @ html_escape (drop 2 s)
      else if has_prefix (c # s) [CHR 0xE2, CHR 0x80, CHR 0xA9] then CHR 0x5C # ''u2029'' @ html_escape (drop 2 s)
      else html_byte c @ html_escape s)"

fun json_list :: "bytes option list \<Rightarrow> bytes option" where
  "json_list [] = Some []"
| "json_list [x] = x"
| "json_list (x # y # xs) =
     (case (x, json_list (y # xs)) of (Some a, Some b) \<Rightarrow> Some (a @ '','' @ b) | _ \<Rightarrow> None)"

definition json_array :: "bytes option list \<Rightarrow> bytes option" where
  "json_array xs = map_option (\<lambda>b. ''['' @ b @ '']'') (json_list xs)"

definition marshal_batch_with ::
  "(bytes \<Rightarrow> bytes) \<Rightarrow> (bytes \<Rightarrow> bytes option) \<Rightarrow> batch \<Rightarrow> bytes option" where
  "marshal_batch_with quote raw b =
     map_option (\<lambda>events.
         ''{'' @ json_key ''agent_id'' @ quote (ba_agent_id b)
         @ '','' @ json_key ''site_id'' @ quote (ba_site_id b)
         @ '','' @ json_key ''agent_version'' @ quote (ba_agent_version b)
         @ '','' @ json_key ''batch_id'' @ quote (ba_batch_id b)
         @ '','' @ json_key ''sent_at'' @ quote (ba_sent_at b)
         @ '','' @ json_key ''events'' @ events @ ''}'')
       (json_array (map raw (ba_events b)))"

definition marshal_batch :: "batch \<Rightarrow> bytes option" where
  "marshal_batch b = marshal_batch_with json_quote json_compact b"

text \<open>A dead letter: the refusal and the batch, as one line.\<close>

record dead_letter =
  dl_at :: string
  dl_status :: int
  dl_response_body :: bytes
  dl_batch :: batch

definition marshal_dead_letter :: "dead_letter \<Rightarrow> bytes option" where
  "marshal_dead_letter l =
     map_option (\<lambda>b.
         ''{'' @ json_key ''dead_lettered_at'' @ json_quote_html (dl_at l)
         @ '','' @ json_key ''status'' @ int_dec (dl_status l)
         @ '','' @ json_key ''response_body'' @ json_quote_html (dl_response_body l)
         @ '','' @ json_key ''batch'' @ b @ ''}'')
       (marshal_batch_with json_quote_html (\<lambda>e. map_option html_escape (json_compact e)) (dl_batch l))"

section \<open>State\<close>

record forwarder =
  fw_spool :: spool
  fw_stats :: stats
  fw_backoff :: backoff
  fw_pending :: int \<comment> \<open>events written since the start and not sent yet\<close>

text \<open>
  \<open>Notify\<close>: one more event; whether the forwarder is woken. A wake-up only ends a wait early.
\<close>

definition notify :: "agent_config \<Rightarrow> forwarder \<Rightarrow> forwarder \<times> bool" where
  "notify c f =
     (let f = f\<lparr>fw_pending := fw_pending f + 1\<rparr> in (f, cf_batch_size c \<le> fw_pending f))"

definition update_stats :: "(stats \<Rightarrow> stats) \<Rightarrow> forwarder \<Rightarrow> forwarder" where
  "update_stats u f = f\<lparr>fw_stats := u (fw_stats f)\<rparr>"

definition failed :: "string \<Rightarrow> forwarder \<Rightarrow> forwarder" where
  "failed msg = update_stats (\<lambda>v. v\<lparr>st_last_forward_error := msg\<rparr>)"

text \<open>\<open>commit\<close>: an error of the offset file is logged only.\<close>

definition forwarder_commit :: "faults \<Rightarrow> position \<Rightarrow> forwarder \<Rightarrow> forwarder" where
  "forwarder_commit io p f = f\<lparr>fw_spool := fst (commit io p (fw_spool f))\<rparr>"

definition next_delay :: "int \<Rightarrow> forwarder \<Rightarrow> forwarder \<times> duration" where
  "next_delay k f =
     (case backoff_next k (fw_backoff f) of (b, d) \<Rightarrow> (f\<lparr>fw_backoff := b\<rparr>, d))"

definition reset_backoff :: "forwarder \<Rightarrow> forwarder" where
  "reset_backoff f = f\<lparr>fw_backoff := backoff_reset (fw_backoff f)\<rparr>"

section \<open>One attempt\<close>

record attempt =
  at_sent :: gtime           \<comment> \<open>the clock when the request is built\<close>
  at_network :: "http_request \<Rightarrow> reply"
  at_cancelled :: bool       \<comment> \<open>the context has ended once the reply is there\<close>
  at_random :: int
  at_now :: gtime            \<comment> \<open>the clock afterwards, for the statistics and the dead letter\<close>
  at_letter :: gtime         \<comment> \<open>the clock again, for the dead letter's file\<close>
  at_io :: faults
  at_stopped :: bool         \<comment> \<open>the context ends during the wait\<close>

datatype verdict = Delivered | Cancelled | Retry duration

definition connect_failed :: string where
  "connect_failed =
     [CHR 0xE9, CHR 0x80, CHR 0xA3, CHR 0xE7, CHR 0xB7, CHR 0x9A, CHR 0xE5, CHR 0xA4, CHR 0xB1, CHR 0xE6,
      CHR 0x95, CHR 0x97, CHR 0xEF, CHR 0xBC, CHR 0x9A]"

definition http_text :: "int \<Rightarrow> string" where
  "http_text status = ''HTTP '' @ int_dec status"

definition dead_lettered_text :: "int \<Rightarrow> string" where
  "dead_lettered_text status =
     http_text status
     @ [CHR 0xEF, CHR 0xBC, CHR 0x88, CHR 0xE6, CHR 0x89, CHR 0xB9, CHR 0xE6, CHR 0xAC, CHR 0xA1, CHR 0xE5,
        CHR 0xB7, CHR 0xB2, CHR 0xE5, CHR 0xAF, CHR 0xAB, CHR 0xE5, CHR 0x85, CHR 0xA5]
     @ '' dead-letter'' @ [CHR 0xEF, CHR 0xBC, CHR 0x89]"

text \<open>\<open>writeDeadLetter\<close>: at most a kilobyte of the response is kept.\<close>

definition max_letter_body :: int where "max_letter_body = 1024"

definition forwarder_dead_letter ::
  "attempt \<Rightarrow> batch \<Rightarrow> http_response \<Rightarrow> forwarder \<Rightarrow> forwarder \<times> bool" where
  "forwarder_dead_letter a b res f =
     (case marshal_dead_letter
             \<lparr>dl_at = format_utc_millis (at_now a), dl_status = rs_status res,
              dl_response_body = to_valid_utf8 (take_int max_letter_body (rs_body res)) replacement_char,
              dl_batch = b\<rparr> of
        None \<Rightarrow> (f, False)
      | Some line \<Rightarrow>
          (case write_dead_letter (at_io a) (at_letter a) (line @ [nl]) (sp_files (fw_spool f)) of
             (d, e) \<Rightarrow> (f\<lparr>fw_spool := (fw_spool f)\<lparr>sp_files := d\<rparr>\<rparr>, e = None)))"

text \<open>What the loop of \<open>deliver\<close> does with a reply.\<close>

definition on_success :: "attempt \<Rightarrow> int \<Rightarrow> position \<Rightarrow> forwarder \<Rightarrow> forwarder" where
  "on_success a n endp f =
     update_stats (\<lambda>v. v\<lparr>st_forwarded := st_forwarded v + n,
         st_last_forward_success_at := format_utc_millis (at_now a), st_last_forward_error := []\<rparr>)
       (reset_backoff (forwarder_commit (at_io a) endp f))"

definition on_refusal :: "attempt \<Rightarrow> int \<Rightarrow> position \<Rightarrow> int \<Rightarrow> forwarder \<Rightarrow> forwarder" where
  "on_refusal a n endp status f =
     update_stats (\<lambda>v. v\<lparr>st_dead_lettered := st_dead_lettered v + n,
         st_last_forward_error := dead_lettered_text status\<rparr>)
       (reset_backoff (forwarder_commit (at_io a) endp f))"

definition retry_later :: "int \<Rightarrow> forwarder \<Rightarrow> forwarder \<times> verdict" where
  "retry_later k f = (case next_delay k f of (f, d) \<Rightarrow> (f, Retry d))"

definition on_reply :: "attempt \<Rightarrow> batch \<Rightarrow> position \<Rightarrow> reply \<Rightarrow> forwarder \<Rightarrow> forwarder \<times> verdict" where
  "on_reply a b endp res f =
     (let n = int (length (ba_events b))
      in case res of
           Inl e \<Rightarrow> retry_later (at_random a) (failed (connect_failed @ e) f)
         | Inr r \<Rightarrow>
             if 200 \<le> rs_status r \<and> rs_status r < 300 then (on_success a n endp f, Delivered)
             else if rs_status r = 429 then
               (let f = failed (http_text 429) f
                in case parse_retry_after (rs_retry_after r) (at_now a) of
                     Some d \<Rightarrow> (f, Retry d)
                   | None \<Rightarrow> retry_later (at_random a) f)
             else if 400 \<le> rs_status r \<and> rs_status r < 500 then
               (case forwarder_dead_letter a b r f of
                  (f, False) \<Rightarrow> retry_later (at_random a) f
                | (f, True) \<Rightarrow> (on_refusal a n endp (rs_status r) f, Delivered))
             else retry_later (at_random a) (failed (http_text (rs_status r)) f))"

definition try_once ::
  "(bytes \<Rightarrow> bytes) \<Rightarrow> agent_config \<Rightarrow> attempt \<Rightarrow> batch \<Rightarrow> position \<Rightarrow> forwarder
   \<Rightarrow> forwarder \<times> http_request option \<times> verdict" where
  "try_once gz c a b endp f =
     (let b = b\<lparr>ba_sent_at := format_utc_millis (at_sent a)\<rparr>;
          (rq, res) = post gz c (at_network a) ''/events'' (marshal_batch b)
      in if at_cancelled a then (f, rq, Cancelled)
         else case on_reply a b endp res f of
                (f, Retry d) \<Rightarrow> (f, rq, if at_stopped a then Cancelled else Retry d)
              | (f, v) \<Rightarrow> (f, rq, v))"

section \<open>deliver\<close>

text \<open>
  The same batch until it is delivered or the context ends. The attempts are given one by one;
  \<open>Retry\<close> as the last verdict means that more attempts would follow.
\<close>

fun deliver_loop ::
  "(bytes \<Rightarrow> bytes) \<Rightarrow> agent_config \<Rightarrow> attempt list \<Rightarrow> batch \<Rightarrow> position \<Rightarrow> forwarder
   \<Rightarrow> forwarder \<times> http_request list \<times> bool option" where
  "deliver_loop gz c [] b endp f = (f, [], None)"
| "deliver_loop gz c (a # as) b endp f =
     (case try_once gz c a b endp f of
        (f, rq, v) \<Rightarrow>
          (let sent = (case rq of None \<Rightarrow> [] | Some r \<Rightarrow> [r])
           in case v of
                Delivered \<Rightarrow> (f, sent, Some True)
              | Cancelled \<Rightarrow> (f, sent, Some False)
              | Retry d \<Rightarrow> (case deliver_loop gz c as b endp f of (f, rqs, r) \<Rightarrow> (f, sent @ rqs, r))))"

definition new_batch :: "agent_config \<Rightarrow> gtime \<Rightarrow> nat list \<Rightarrow> bytes list \<Rightarrow> batch" where
  "new_batch c now random lines =
     \<lparr>ba_agent_id = cf_agent_id c, ba_site_id = cf_site_id c, ba_agent_version = agent_version,
      ba_batch_id = new_uuid_v7 now random, ba_sent_at = [], ba_events = lines\<rparr>"

definition deliver ::
  "(bytes \<Rightarrow> bytes) \<Rightarrow> agent_config \<Rightarrow> gtime \<Rightarrow> nat list \<Rightarrow> attempt list \<Rightarrow> bytes list \<Rightarrow> position
   \<Rightarrow> forwarder \<Rightarrow> forwarder \<times> http_request list \<times> bool option" where
  "deliver gz c now random as lines endp f = deliver_loop gz c as (new_batch c now random lines) endp f"

section \<open>Run\<close>

record loop_state =
  lo_last_send :: gtime
  lo_startup :: bool
  lo_skip_wait :: bool

text \<open>One round of the loop of \<open>Run\<close>: what the outside does during it.\<close>

record round =
  ro_wait_now :: gtime      \<comment> \<open>the clock before the wait\<close>
  ro_ended_waiting :: bool  \<comment> \<open>the context ends during the wait\<close>
  ro_ended :: bool          \<comment> \<open>the context has ended after it\<close>
  ro_now :: gtime           \<comment> \<open>the clock when the interval is checked\<close>
  ro_io :: faults           \<comment> \<open>while the spool is read\<close>
  ro_idle_now :: gtime      \<comment> \<open>the clock when there is nothing to send\<close>
  ro_id_now :: gtime
  ro_id_random :: "nat list"
  ro_attempts :: "attempt list"
  ro_done_now :: gtime      \<comment> \<open>the clock after the delivery\<close>

definition start_loop :: "gtime \<Rightarrow> loop_state" where
  "start_loop now = \<lparr>lo_last_send = now, lo_startup = True, lo_skip_wait = True\<rparr>"

text \<open>After the delivery of a batch of \<open>n\<close> events; the count of pending events stays above zero.\<close>

definition after_delivery :: "agent_config \<Rightarrow> round \<Rightarrow> int \<Rightarrow> forwarder \<Rightarrow> loop_state \<Rightarrow> forwarder \<times> loop_state" where
  "after_delivery c r n f l =
     (f\<lparr>fw_pending := max 0 (fw_pending f - n)\<rparr>,
      l\<lparr>lo_last_send := ro_done_now r, lo_skip_wait := (n = cf_batch_size c)\<rparr>)"

datatype round_end = Continue | Return | Delivering

text \<open>
  The new state, the requests that were sent, and how the round ended. \<open>None\<close> would mean that
  reading the spool did not come back.
\<close>

definition run_round ::
  "(bytes \<Rightarrow> bytes) \<Rightarrow> agent_config \<Rightarrow> round \<Rightarrow> forwarder \<Rightarrow> loop_state
   \<Rightarrow> (forwarder \<times> loop_state \<times> http_request list \<times> round_end) option" where
  "run_round gz c r f l =
     (let waiting = \<not> lo_skip_wait l \<and> 0 < batch_interval c - time_sub (ro_wait_now r) (lo_last_send l)
      in if waiting \<and> ro_ended_waiting r \<or> ro_ended r then Some (f, l, [], Return)
         else
           let l = l\<lparr>lo_skip_wait := False\<rparr>;
               due = batch_interval c \<le> time_sub (ro_now r) (lo_last_send l)
           in case ReadReadyBatch (ro_io r) (cf_batch_size c) (due \<or> lo_startup l) (fw_spool f) of
                None \<Rightarrow> None
              | Some (s, lines, endp, Some e) \<Rightarrow>
                  Some (f\<lparr>fw_spool := s\<rparr>, l\<lparr>lo_last_send := ro_idle_now r\<rparr>, [], Continue)
              | Some (s, [], endp, None) \<Rightarrow>
                  Some (f\<lparr>fw_spool := s\<rparr>,
                        (if due then l\<lparr>lo_last_send := ro_idle_now r\<rparr> else l)\<lparr>lo_startup := False\<rparr>, [], Continue)
              | Some (s, line # lines, endp, None) \<Rightarrow>
                  (case deliver gz c (ro_id_now r) (ro_id_random r) (ro_attempts r) (line # lines) endp
                          (f\<lparr>fw_spool := s\<rparr>) of
                     (f, rqs, Some True) \<Rightarrow>
                       (case after_delivery c r (int (length (line # lines))) f (l\<lparr>lo_startup := False\<rparr>) of
                          (f, l) \<Rightarrow> Some (f, l, rqs, Continue))
                   | (f, rqs, Some False) \<Rightarrow> Some (f, l\<lparr>lo_startup := False\<rparr>, rqs, Return)
                   | (f, rqs, None) \<Rightarrow> Some (f, l\<lparr>lo_startup := False\<rparr>, rqs, Delivering)))"

text \<open>The whole loop over the rounds, until it returns.\<close>

fun run_loop ::
  "(bytes \<Rightarrow> bytes) \<Rightarrow> agent_config \<Rightarrow> round list \<Rightarrow> forwarder \<Rightarrow> loop_state
   \<Rightarrow> (forwarder \<times> http_request list \<times> round_end) option" where
  "run_loop gz c [] f l = Some (f, [], Continue)"
| "run_loop gz c (r # rs) f l =
     (case run_round gz c r f l of
        None \<Rightarrow> None
      | Some (f, l, rqs, Continue) \<Rightarrow>
          map_option (\<lambda>(f, rqs', e). (f, rqs @ rqs', e)) (run_loop gz c rs f l)
      | Some (f, l, rqs, e) \<Rightarrow> Some (f, rqs, e))"

definition forwarder_run ::
  "(bytes \<Rightarrow> bytes) \<Rightarrow> agent_config \<Rightarrow> gtime \<Rightarrow> round list \<Rightarrow> forwarder
   \<Rightarrow> (forwarder \<times> http_request list \<times> round_end) option" where
  "forwarder_run gz c now rs f = run_loop gz c rs f (start_loop now)"

section \<open>summarizeBody\<close>

definition summarize_body :: "bytes \<Rightarrow> string" where
  "summarize_body b =
     (let s = to_valid_utf8 (trim_space b) replacement_char
      in if 200 < length s then take 200 s @ [CHR 0xE2, CHR 0x80, CHR 0xA6] else s)"

end
