(* ===== verification/Forwarder_Facts.thy ===== *)
theory Forwarder_Facts
  imports Forwarder
begin

text \<open>
  What the forwarder guarantees: the queue moves past a batch only when the collector has
  acknowledged it or its dead letter is on disk, every attempt carries the same batch, and the
  counters add up with the queue, whatever fails.
\<close>

section \<open>Reading under faults\<close>

text \<open>A read that succeeds has met no fault, so it is the read without faults.\<close>

lemma read_lines_no_faults:
  "read_lines io n mx rest off lines = (off', lines', Inr eof) \<Longrightarrow>
   read_lines no_faults n mx rest off lines = (off', lines', Inr eof)"
proof (induction io n mx rest off lines rule: read_lines.induct)
  case (1 io n mx rest off lines)
  from "1.prems" show ?case
    apply (subst (asm) read_lines.simps)
    apply (subst read_lines.simps)
    apply (auto simp: Let_def intro: 1 split: if_splits option.splits prod.splits)
    done
qed

lemma read_from_no_faults:
  "read_from io d mx pos lines = (pos', lines', Inr eof) \<Longrightarrow>
   read_from no_faults d mx pos lines = (pos', lines', Inr eof)"
proof -
  assume r: "read_from io d mx pos lines = (pos', lines', Inr eof)"
  then obtain b where b: "open_read io d (po_file pos) = Some b" and st: "io (StatFile (po_file pos)) = None"
    by (auto simp: read_from_def split: option.splits if_splits)
  let ?off = "if int (length b) < po_offset pos then 0 else po_offset pos"
  obtain o1 l1 r1 where rl: "read_lines io (po_file pos) mx (drop_int ?off b) ?off lines = (o1, l1, r1)"
    by (cases "read_lines io (po_file pos) mx (drop_int ?off b) ?off lines") auto
  have l: "pos' = pos\<lparr>po_offset := o1\<rparr>" "lines' = l1" "r1 = Inr eof"
    using r b st rl by (simp_all only: read_from_def Let_def option.case if_False prod.case simp_thms prod.inject)
  from b have b0: "open_read no_faults d (po_file pos) = Some b"
    by (simp add: open_read_def split: if_splits)
  from rl l have "read_lines no_faults (po_file pos) mx (drop_int ?off b) ?off lines = (o1, l1, Inr eof)"
    by (intro read_lines_no_faults) simp
  with b0 l show ?thesis
    by (simp only: read_from_def Let_def option.case if_False prod.case simp_thms)
qed

lemma read_files_no_faults:
  "read_files fuel io d ns mx pos lines = Some (pos', lines', None) \<Longrightarrow>
   read_files fuel no_faults d ns mx pos lines = Some (pos', lines', None)"
proof (induction fuel arbitrary: pos lines)
  case (Suc fuel)
  let ?p = "if ns ! search_strings ns (po_file pos) \<noteq> po_file pos
            then \<lparr>po_file = ns ! search_strings ns (po_file pos), po_offset = 0\<rparr> else pos"
  obtain q l r where f: "read_from io d mx ?p lines = (q, l, r)" by (cases "read_from io d mx ?p lines")
  show ?case
  proof (cases r)
    case (Inl e)
    with Suc.prems f show ?thesis by (auto simp: read_files_Suc Let_def split: if_splits)
  next
    case (Inr eof)
    with f have "read_from no_faults d mx ?p lines = (q, l, Inr eof)" by (simp add: read_from_no_faults)
    with Suc f Inr show ?thesis by (auto simp: read_files_Suc Let_def split: if_splits)
  qed
qed simp

lemma read_batch_no_faults:
  assumes "dir_ok (sp_files s)" "listing_ok io" "read_batch io mx allow s = Some (s', lines, pos, None)"
  shows "read_batch no_faults mx allow s = Some (s', lines, pos, None)"
proof -
  let ?ns = "plain_names no_faults (sp_files s)"
  have ns: "plain_names io (sp_files s) = ?ns" using plain_names_listing [OF assms(2,1)] .
  obtain q l e where r: "read_files (Suc (length ?ns)) io (sp_files s) ?ns mx (sp_committed s) [] = Some (q, l, e)"
    using assms(3) by (auto simp: read_batch_def Let_def ns)
  with assms(3) have "e = None" by (auto simp: read_batch_def Let_def ns split: option.splits)
  with r have "read_files (Suc (length ?ns)) no_faults (sp_files s) ?ns mx (sp_committed s) [] = Some (q, l, None)"
    by (simp add: read_files_no_faults)
  with r assms(3) \<open>e = None\<close> show ?thesis by (simp add: read_batch_def Let_def ns)
qed

section \<open>Dead letters and commits\<close>

lemma dead_letter_not_plain [simp]: "\<not> is_spool_plain_name (dead_letter_name t)"
  by (auto simp: is_spool_plain_name_iff plain_of_def dead_letter_name_def name_defs)

lemma offset_not_dead_letter [simp]:
  "dead_letter_name t \<noteq> offset_file_name" "dead_letter_name t \<noteq> offset_file_name @ tmp_suffix"
  by (simp_all add: dead_letter_name_def name_defs tmp_suffix_def)

definition has_line :: "dir \<Rightarrow> string \<Rightarrow> bytes \<Rightarrow> bool" where
  "has_line d n line \<longleftrightarrow> (\<exists>b. look d n = Some (Reg (b @ line)))"

lemma write_dead_letter_result:
  assumes "dir_ok d" and run: "write_dead_letter io now entry d = (d', e)"
  shows "plain_same d d' \<and> (e = None \<longrightarrow> has_line d' (dead_letter_name now) entry)"
proof (cases "open_append io d (dead_letter_name now)")
  case None
  with assms show ?thesis by (auto simp: write_dead_letter_def plain_same_def)
next
  case (Some d1)
  let ?n = "dead_letter_name now"
  from open_append_opened [OF Some assms(1)] obtain b where o: "opened d ?n d1" and b: "look d1 ?n = Some (Reg b)" by blast
  from open_append_ok [OF Some assms(1)] have d1: "dir_ok d1" "\<And>m. m \<noteq> ?n \<Longrightarrow> look d1 m = look d m" by auto
  have d': "d' = write_bytes io d1 ?n entry" "e = write_sync_close io ?n"
    using run Some by (simp_all add: write_dead_letter_def Let_def)
  have "dir_ok d'" using d1 by (simp add: d' write_bytes_def)
  moreover have "look d' m = look d m" if "is_spool_plain_name m" for m
  proof -
    have "m \<noteq> ?n" using that by auto
    then show ?thesis by (simp add: d' write_bytes_def look_append_other d1)
  qed
  moreover have "has_line d' ?n entry" if "e = None"
  proof -
    have "file_bytes d' ?n = Some (b @ entry)"
      using that b by (simp add: d' write_bytes_ok file_bytes_append flip: file_bytes_Some)
    then show ?thesis by (auto simp: has_line_def)
  qed
  ultimately show ?thesis by (simp add: plain_same_def)
qed

lemma commit_other_files:
  assumes "commit io p s = (s', e)" "n \<noteq> offset_file_name" "n \<noteq> offset_file_name @ tmp_suffix"
  shows "look (sp_files s') n = look (sp_files s) n"
proof -
  obtain d e' where w: "write_file_atomic io offset_file_name (marshal_position p) (sp_files s) = (d, e')"
    by (cases "write_file_atomic io offset_file_name (marshal_position p) (sp_files s)")
  with assms have "sp_files s' = d" by (auto simp: commit_def Let_def split: if_splits)
  with write_file_atomic_state [OF w] assms(2,3) show ?thesis by (simp add: atomic_state_def)
qed

section \<open>One attempt\<close>

text \<open>The state of the queue and the counters, as a round may change them: nothing of them, or the
  batch is settled.\<close>

definition sent_total :: "forwarder \<Rightarrow> int" where
  "sent_total f = st_forwarded (fw_stats f) + st_dead_lettered (fw_stats f)"

definition held :: "forwarder \<Rightarrow> forwarder \<Rightarrow> bool" where
  "held f f' \<longleftrightarrow>
     spool_inv (fw_spool f') \<and> plain_same (sp_files (fw_spool f)) (sp_files (fw_spool f'))
     \<and> sp_committed (fw_spool f') = sp_committed (fw_spool f)
     \<and> st_forwarded (fw_stats f') = st_forwarded (fw_stats f)
     \<and> st_dead_lettered (fw_stats f') = st_dead_lettered (fw_stats f)
     \<and> fw_pending f' = fw_pending f"

definition settled :: "int \<Rightarrow> position \<Rightarrow> forwarder \<Rightarrow> forwarder \<Rightarrow> bool" where
  "settled n endp f f' \<longleftrightarrow>
     spool_inv (fw_spool f') \<and> plain_same (sp_files (fw_spool f)) (sp_files (fw_spool f'))
     \<and> sp_committed (fw_spool f') = endp \<and> sent_total f' = sent_total f + n
     \<and> fw_pending f' = fw_pending f"

text \<open>Why a batch may be settled: a 2xx reply, or a refusal whose dead letter has been written.\<close>

definition accepted_by :: "attempt \<Rightarrow> reply \<Rightarrow> int \<Rightarrow> forwarder \<Rightarrow> forwarder \<Rightarrow> bool" where
  "accepted_by a res n f f' \<longleftrightarrow>
     (\<exists>r. res = Inr r \<and> 200 \<le> rs_status r \<and> rs_status r < 300
        \<and> st_forwarded (fw_stats f') = st_forwarded (fw_stats f) + n)"

definition refused_by :: "attempt \<Rightarrow> reply \<Rightarrow> batch \<Rightarrow> forwarder \<Rightarrow> forwarder \<Rightarrow> bool" where
  "refused_by a res b f f' \<longleftrightarrow>
     (\<exists>r l line. res = Inr r \<and> 400 \<le> rs_status r \<and> rs_status r < 500 \<and> rs_status r \<noteq> 429
        \<and> dl_batch l = b \<and> dl_status l = rs_status r \<and> marshal_dead_letter l = Some line
        \<and> has_line (sp_files (fw_spool f')) (dead_letter_name (at_letter a)) (line @ [nl])
        \<and> st_dead_lettered (fw_stats f') = st_dead_lettered (fw_stats f) + int (length (ba_events b)))"

lemma held_refl: "spool_inv (fw_spool f) \<Longrightarrow> held f f"
  by (simp add: held_def plain_same_def inv_defs)

lemma plain_same_trans: "plain_same d d1 \<Longrightarrow> plain_same d1 d2 \<Longrightarrow> plain_same d d2"
  by (simp add: plain_same_def)

lemma held_trans: "held f f1 \<Longrightarrow> held f1 f2 \<Longrightarrow> held f f2"
  by (auto simp: held_def intro: plain_same_trans)

lemma held_settled: "held f f1 \<Longrightarrow> settled n p f1 f2 \<Longrightarrow> settled n p f f2"
  by (auto simp: held_def settled_def sent_total_def intro: plain_same_trans)

lemma failed_simps [simp]:
  "fw_spool (failed m f) = fw_spool f" "fw_pending (failed m f) = fw_pending f"
  "fw_backoff (failed m f) = fw_backoff f"
  "st_forwarded (fw_stats (failed m f)) = st_forwarded (fw_stats f)"
  "st_dead_lettered (fw_stats (failed m f)) = st_dead_lettered (fw_stats f)"
  by (simp_all add: failed_def update_stats_def)

lemma failed_held: "spool_inv (fw_spool f) \<Longrightarrow> held f (failed m f)"
  by (simp add: held_def plain_same_def inv_defs)

lemma retry_later_held:
  "spool_inv (fw_spool f) \<Longrightarrow> retry_later k f = (f', v) \<Longrightarrow> held f f' \<and> (\<exists>d. v = Retry d)"
  by (auto simp: retry_later_def next_delay_def backoff_next_def held_def plain_same_def inv_defs)

lemma dead_letter_held:
  assumes inv: "spool_inv (fw_spool f)" and run: "forwarder_dead_letter a b res f = (f', ok)"
  shows "held f f' \<and> (ok \<longrightarrow> (\<exists>l line. dl_batch l = b \<and> dl_status l = rs_status res \<and> marshal_dead_letter l = Some line
      \<and> has_line (sp_files (fw_spool f')) (dead_letter_name (at_letter a)) (line @ [nl])))"
proof -
  let ?l = "\<lparr>dl_at = format_utc_millis (at_now a), dl_status = rs_status res,
       dl_response_body = to_valid_utf8 (take_int max_letter_body (rs_body res)) replacement_char, dl_batch = b\<rparr>"
  show ?thesis
  proof (cases "marshal_dead_letter ?l")
    case None
    with run inv show ?thesis by (simp add: forwarder_dead_letter_def held_refl)
  next
    case (Some line)
    obtain d e where w: "write_dead_letter (at_io a) (at_letter a) (line @ [nl]) (sp_files (fw_spool f)) = (d, e)"
      by (cases "write_dead_letter (at_io a) (at_letter a) (line @ [nl]) (sp_files (fw_spool f))")
    from write_dead_letter_result [OF spool_inv_dir [OF inv] w]
    have p: "plain_same (sp_files (fw_spool f)) d" "e = None \<Longrightarrow> has_line d (dead_letter_name (at_letter a)) (line @ [nl])"
      by auto
    have f': "f' = f\<lparr>fw_spool := (fw_spool f)\<lparr>sp_files := d\<rparr>\<rparr>" "ok = (e = None)"
      using run Some w by (auto simp: forwarder_dead_letter_def)
    have "held f f'" using plain_same_inv [OF inv p(1)] p(1) by (simp add: held_def f')
    moreover have "\<exists>l line. dl_batch l = b \<and> dl_status l = rs_status res \<and> marshal_dead_letter l = Some line
        \<and> has_line (sp_files (fw_spool f')) (dead_letter_name (at_letter a)) (line @ [nl])" if ok
      using Some p(2) that f' by (intro exI [of _ ?l] exI [of _ line]) simp
    ultimately show ?thesis by blast
  qed
qed

lemma forwarder_commit_settled:
  assumes inv: "spool_inv (fw_spool f)" and p: "0 \<le> po_offset endp"
    and u: "\<And>v. st_forwarded (u v) + st_dead_lettered (u v) = st_forwarded v + st_dead_lettered v + n"
  shows "settled n endp f (update_stats u (reset_backoff (forwarder_commit io endp f)))"
    and "look (sp_files (fw_spool (update_stats u (reset_backoff (forwarder_commit io endp f))))) (dead_letter_name t)
       = look (sp_files (fw_spool f)) (dead_letter_name t)"
proof -
  obtain s e where c: "commit io endp (fw_spool f) = (s, e)" by (cases "commit io endp (fw_spool f)")
  from commit_result [OF inv p c] show "settled n endp f (update_stats u (reset_backoff (forwarder_commit io endp f)))"
    using u by (simp add: settled_def sent_total_def update_stats_def reset_backoff_def forwarder_commit_def c)
  show "look (sp_files (fw_spool (update_stats u (reset_backoff (forwarder_commit io endp f))))) (dead_letter_name t)
       = look (sp_files (fw_spool f)) (dead_letter_name t)"
    using commit_other_files [OF c, of "dead_letter_name t"]
    by (simp add: update_stats_def reset_backoff_def forwarder_commit_def c)
qed

lemma on_success_result:
  assumes inv: "spool_inv (fw_spool f)" and p: "0 \<le> po_offset endp"
  shows "settled n endp f (on_success a n endp f)"
    and "st_forwarded (fw_stats (on_success a n endp f)) = st_forwarded (fw_stats f) + n"
proof -
  show "settled n endp f (on_success a n endp f)"
    unfolding on_success_def by (rule forwarder_commit_settled(1) [OF assms]) simp
qed (simp add: on_success_def update_stats_def reset_backoff_def forwarder_commit_def)

lemma on_refusal_result:
  assumes inv: "spool_inv (fw_spool f)" and p: "0 \<le> po_offset endp"
  shows "settled n endp f (on_refusal a n endp status f)"
    and "st_dead_lettered (fw_stats (on_refusal a n endp status f)) = st_dead_lettered (fw_stats f) + n"
    and "look (sp_files (fw_spool (on_refusal a n endp status f))) (dead_letter_name t)
       = look (sp_files (fw_spool f)) (dead_letter_name t)"
proof -
  show "settled n endp f (on_refusal a n endp status f)"
    unfolding on_refusal_def by (rule forwarder_commit_settled(1) [OF assms]) simp
  show "look (sp_files (fw_spool (on_refusal a n endp status f))) (dead_letter_name t)
       = look (sp_files (fw_spool f)) (dead_letter_name t)"
    unfolding on_refusal_def by (rule forwarder_commit_settled(2) [OF assms, where n = n]) simp
qed (simp add: on_refusal_def update_stats_def reset_backoff_def forwarder_commit_def)

lemma on_reply_result:
  assumes inv: "spool_inv (fw_spool f)" and p: "0 \<le> po_offset endp" and run: "on_reply a b endp res f = (f', v)"
  shows "(\<exists>d. v = Retry d) \<and> held f f'
    \<or> v = Delivered \<and> settled (int (length (ba_events b))) endp f f'
      \<and> (accepted_by a res (int (length (ba_events b))) f f' \<or> refused_by a res b f f')"
proof -
  have retry: ?thesis if "retry_later k (failed m f) = (f', v)" for k m
  proof -
    have "held (failed m f) f' \<and> (\<exists>d. v = Retry d)"
      using retry_later_held [OF _ that] inv by simp
    then show ?thesis using held_trans [OF failed_held [OF inv]] by blast
  qed
  show ?thesis
  proof (cases res)
    case (Inl e)
    with run retry show ?thesis by (simp add: on_reply_def)
  next
    case (Inr r)
    consider (success) "200 \<le> rs_status r" "rs_status r < 300"
      | (limit) "rs_status r = 429"
      | (refusal) "400 \<le> rs_status r" "rs_status r < 500" "rs_status r \<noteq> 429"
      | (other) "\<not> (200 \<le> rs_status r \<and> rs_status r < 300)" "\<not> (400 \<le> rs_status r \<and> rs_status r < 500)"
      by linarith
    then show ?thesis
    proof cases
      case success
      with run Inr have "f' = on_success a (int (length (ba_events b))) endp f" "v = Delivered"
        by (auto simp: on_reply_def Let_def)
      with on_success_result [OF inv p] success Inr show ?thesis by (simp add: accepted_by_def)
    next
      case limit
      show ?thesis
      proof (cases "parse_retry_after (rs_retry_after r) (at_now a)")
        case None
        with run Inr limit retry show ?thesis by (simp add: on_reply_def Let_def)
      next
        case (Some d)
        with run Inr limit failed_held [OF inv] show ?thesis by (auto simp: on_reply_def Let_def)
      qed
    next
      case refusal
      obtain f1 ok where d: "forwarder_dead_letter a b r f = (f1, ok)" by (cases "forwarder_dead_letter a b r f")
      from dead_letter_held [OF inv d] have h: "held f f1" and
        l: "ok \<Longrightarrow> \<exists>l line. dl_batch l = b \<and> dl_status l = rs_status r \<and> marshal_dead_letter l = Some line
          \<and> has_line (sp_files (fw_spool f1)) (dead_letter_name (at_letter a)) (line @ [nl])" by auto
      have inv1: "spool_inv (fw_spool f1)" using h by (simp add: held_def)
      show ?thesis
      proof (cases ok)
        case False
        with run Inr refusal d have "retry_later (at_random a) f1 = (f', v)" by (simp add: on_reply_def Let_def)
        with retry_later_held [OF inv1] held_trans [OF h] show ?thesis by blast
      next
        case True
        with run Inr refusal d have f': "f' = on_refusal a (int (length (ba_events b))) endp (rs_status r) f1" and v: "v = Delivered"
          by (auto simp: on_reply_def Let_def)
        from True l obtain l line where "dl_batch l = b" "dl_status l = rs_status r" "marshal_dead_letter l = Some line"
          "has_line (sp_files (fw_spool f')) (dead_letter_name (at_letter a)) (line @ [nl])"
          using on_refusal_result(3) [OF inv1 p] by (auto simp: f' has_line_def)
        moreover have "st_dead_lettered (fw_stats f') = st_dead_lettered (fw_stats f) + int (length (ba_events b))"
          using on_refusal_result(2) [OF inv1 p] h by (simp add: f' held_def)
        ultimately have "refused_by a res b f f'" using Inr refusal by (auto simp: refused_by_def)
        moreover have "settled (int (length (ba_events b))) endp f f'"
          using held_settled [OF h on_refusal_result(1) [OF inv1 p]] by (simp add: f')
        ultimately show ?thesis using v by blast
      qed
    next
      case other
      with run Inr retry show ?thesis by (auto simp: on_reply_def Let_def)
    qed
  qed
qed

section \<open>Delivering a batch\<close>

text \<open>The batch of the loop as the attempt \<open>a\<close> sends it, and the reply to it.\<close>

definition stamped :: "attempt \<Rightarrow> batch \<Rightarrow> batch" where
  "stamped a b = b\<lparr>ba_sent_at := format_utc_millis (at_sent a)\<rparr>"

definition reply_to :: "(bytes \<Rightarrow> bytes) \<Rightarrow> agent_config \<Rightarrow> attempt \<Rightarrow> batch \<Rightarrow> reply" where
  "reply_to gz c a b = snd (post gz c (at_network a) ''/events'' (marshal_batch (stamped a b)))"

lemma stamped_events [simp]: "ba_events (stamped a b) = ba_events b"
  by (simp add: stamped_def)

lemma try_once_result:
  assumes inv: "spool_inv (fw_spool f)" and p: "0 \<le> po_offset endp" and run: "try_once gz c a b endp f = (f', rq, v)"
  shows "v \<noteq> Delivered \<and> held f f'
    \<or> v = Delivered \<and> settled (int (length (ba_events b))) endp f f' \<and> \<not> at_cancelled a
      \<and> (accepted_by a (reply_to gz c a b) (int (length (ba_events b))) f f'
         \<or> refused_by a (reply_to gz c a b) (stamped a b) f f')"
proof -
  obtain q res where post: "post gz c (at_network a) ''/events'' (marshal_batch (stamped a b)) = (q, res)"
    by (cases "post gz c (at_network a) ''/events'' (marshal_batch (stamped a b))")
  obtain f1 v1 where r: "on_reply a (stamped a b) endp res f = (f1, v1)"
    by (cases "on_reply a (stamped a b) endp res f")
  have res: "reply_to gz c a b = res" by (simp add: reply_to_def post)
  show ?thesis
  proof (cases "at_cancelled a")
    case True
    with run post have "f' = f" "v = Cancelled" by (simp_all add: try_once_def stamped_def)
    then show ?thesis using held_refl [OF inv] by simp
  next
    case False
    with run post r have "f' = f1 \<and> v = (case v1 of Retry d \<Rightarrow> if at_stopped a then Cancelled else v1 | _ \<Rightarrow> v1)"
      by (cases v1) (auto simp: try_once_def stamped_def)
    then have eq: "f' = f1" "v = (case v1 of Retry d \<Rightarrow> if at_stopped a then Cancelled else v1 | _ \<Rightarrow> v1)" by simp_all
    from on_reply_result [OF inv p r] show ?thesis
      using False by (auto simp: eq res)
  qed
qed

lemma held_reason:
  "held f f1 \<Longrightarrow> accepted_by a res n f1 f' = accepted_by a res n f f'"
  "held f f1 \<Longrightarrow> refused_by a res b f1 f' = refused_by a res b f f'"
  by (auto simp: held_def accepted_by_def refused_by_def)

definition reason :: "(bytes \<Rightarrow> bytes) \<Rightarrow> agent_config \<Rightarrow> batch \<Rightarrow> attempt \<Rightarrow> forwarder \<Rightarrow> forwarder \<Rightarrow> bool" where
  "reason gz c b a f f' \<longleftrightarrow>
     \<not> at_cancelled a
     \<and> (accepted_by a (reply_to gz c a b) (int (length (ba_events b))) f f'
        \<or> refused_by a (reply_to gz c a b) (stamped a b) f f')"

lemma deliver_loop_result:
  assumes "spool_inv (fw_spool f)" and "0 \<le> po_offset endp" and "deliver_loop gz c as b endp f = (f', rqs, r)"
  shows "if r = Some True
    then settled (int (length (ba_events b))) endp f f' \<and> (\<exists>a\<in>set as. reason gz c b a f f')
    else held f f'"
  using assms
proof (induction as arbitrary: f rqs)
  case Nil
  then show ?case by (auto simp: held_refl)
next
  case (Cons a as)
  obtain f1 rq v where t: "try_once gz c a b endp f = (f1, rq, v)" by (cases "try_once gz c a b endp f") auto
  note one = try_once_result [OF Cons.prems(1,2) t]
  show ?case
  proof (cases v)
    case Delivered
    with Cons.prems(3) t have "f' = f1" "r = Some True" by (simp_all add: Let_def)
    with one Delivered show ?thesis by (auto simp: reason_def)
  next
    case Cancelled
    with Cons.prems(3) t have "f' = f1" "r = Some False" by (simp_all add: Let_def)
    with one Cancelled show ?thesis by auto
  next
    case (Retry d)
    obtain rqs' where l: "deliver_loop gz c as b endp f1 = (f', rqs', r)"
      using Cons.prems(3) t Retry by (auto simp: Let_def split: prod.splits)
    from one Retry have h: "held f f1" by auto
    then have "spool_inv (fw_spool f1)" by (simp add: held_def)
    from Cons.IH [OF this Cons.prems(2) l] held_settled [OF h] held_trans [OF h]
    show ?thesis by (auto simp: reason_def held_reason [OF h] split: if_splits)
  qed
qed

text \<open>Every request of a delivery carries the same batch; only the time of sending differs.\<close>

lemma deliver_loop_requests:
  "deliver_loop gz c as b endp f = (f', rqs, r) \<Longrightarrow> rq \<in> set rqs \<Longrightarrow>
   \<exists>a\<in>set as. \<exists>p. marshal_batch (stamped a b) = Some p \<and> rq = post_request gz c ''/events'' (p @ [nl])"
proof (induction as arbitrary: f rqs)
  case (Cons a as)
  obtain f1 q v where t: "try_once gz c a b endp f = (f1, q, v)" by (cases "try_once gz c a b endp f") auto
  have "q = fst (post gz c (at_network a) ''/events'' (marshal_batch (stamped a b)))"
    using t by (auto simp: try_once_def stamped_def Let_def split: prod.splits if_splits verdict.splits)
  then have one: "\<exists>p. marshal_batch (stamped a b) = Some p \<and> x = post_request gz c ''/events'' (p @ [nl])"
    if "q = Some x" for x
    using that by (auto simp: post_def Let_def split: option.splits)
  show ?case
  proof (cases v)
    case (Retry d)
    obtain rqs' where l: "deliver_loop gz c as b endp f1 = (f', rqs', r)"
      using Cons.prems(1) t Retry by (auto simp: Let_def split: prod.splits)
    then have "rqs = (case q of None \<Rightarrow> [] | Some x \<Rightarrow> [x]) @ rqs'"
      using Cons.prems(1) t Retry by (simp add: Let_def)
    with Cons.prems(2) one Cons.IH [OF l] show ?thesis by (auto split: option.splits)
  qed (use Cons.prems t one in \<open>auto simp: Let_def split: option.splits\<close>)
qed simp

text \<open>Once a reply is a success and the context lives, the delivery has come back.\<close>

lemma try_once_success:
  assumes "reply_to gz c a b = Inr r" "200 \<le> rs_status r" "rs_status r < 300" "\<not> at_cancelled a"
  shows "\<exists>f' rq. try_once gz c a b endp f = (f', rq, Delivered)"
proof -
  obtain q res where post: "post gz c (at_network a) ''/events'' (marshal_batch (stamped a b)) = (q, res)"
    by (cases "post gz c (at_network a) ''/events'' (marshal_batch (stamped a b))")
  with assms(1) have "res = Inr r" by (simp add: reply_to_def)
  with post assms show ?thesis by (simp add: try_once_def stamped_def [symmetric] on_reply_def)
qed

lemma deliver_loop_returns:
  assumes "\<forall>a\<in>set as. \<not> at_cancelled a \<and> \<not> at_stopped a"
    and "reply_to gz c a b = Inr r" "200 \<le> rs_status r" "rs_status r < 300" "\<not> at_cancelled a"
  shows "\<exists>f' rqs. deliver_loop gz c (as @ a # later) b endp f = (f', rqs, Some True)"
  using assms(1)
proof (induction as arbitrary: f)
  case Nil
  from try_once_success [OF assms(2-5)] obtain f' rq where "try_once gz c a b endp f = (f', rq, Delivered)" by blast
  then show ?case by (simp add: Let_def)
next
  case (Cons x as)
  obtain f1 q v where t: "try_once gz c x b endp f = (f1, q, v)" by (cases "try_once gz c x b endp f") auto
  have "v \<noteq> Cancelled"
    using t Cons.prems by (auto simp: try_once_def on_reply_def retry_later_def Let_def
        split: prod.splits verdict.splits sum.splits if_splits option.splits bool.splits)
  moreover obtain f' rqs where "deliver_loop gz c (as @ a # later) b endp f1 = (f', rqs, Some True)"
    using Cons.IH [of f1] Cons.prems by auto
  ultimately show ?case using t by (cases v) (auto simp: Let_def)
qed

section \<open>Events are valid\<close>

lemma line_events_valid: "e \<in> set (line_events b) \<Longrightarrow> json_valid e"
  by (auto simp: line_events_def)

lemma pending_valid: "e \<in> set (pending s) \<Longrightarrow> json_valid e"
  by (auto simp: pending_def pending_at_def pending_from_def events_at_def dest: line_events_valid split: option.splits)

lemma json_list_valid: "\<forall>x\<in>set xs. x \<noteq> None \<Longrightarrow> json_list xs \<noteq> None"
  by (induction xs rule: json_list.induct) auto

lemma marshal_batch_valid: "\<forall>e\<in>set (ba_events b). json_valid e \<Longrightarrow> marshal_batch b \<noteq> None"
  using json_list_valid [of "map json_compact (ba_events b)"]
  by (auto simp: marshal_batch_def marshal_batch_with_def json_array_def json_valid_def)

lemma new_batch_events [simp]: "ba_events (new_batch c now random lines) = lines"
  by (simp add: new_batch_def)

section \<open>The properties of a delivery\<close>

text \<open>
  C3: The queue moves past a batch only for a reason: a delivery that returns true has had a 2xx reply
  to a request with this batch, or a 4xx reply other than 429 after which a dead letter with the
  batch is in its file, and then the committed position is the end of the batch and exactly one
  counter has grown by its size. Otherwise the position, the queue and the counters are unchanged.
\<close>

theorem deliver_outcome:
  assumes "spool_inv (fw_spool f)" and "0 \<le> po_offset endp"
    and "deliver gz c now random as lines endp f = (f', rqs, r)"
  shows "(r = Some True \<longrightarrow>
        sp_committed (fw_spool f') = endp \<and> sent_total f' = sent_total f + int (length lines)
        \<and> (\<exists>a\<in>set as. reason gz c (new_batch c now random lines) a f f'))
    \<and> (r \<noteq> Some True \<longrightarrow>
        sp_committed (fw_spool f') = sp_committed (fw_spool f)
        \<and> pending (fw_spool f') = pending (fw_spool f) \<and> sent_total f' = sent_total f)"
proof -
  have "deliver_loop gz c as (new_batch c now random lines) endp f = (f', rqs, r)"
    using assms(3) by (simp add: deliver_def)
  from deliver_loop_result [OF assms(1,2) this]
  have d: "if r = Some True
    then settled (int (length lines)) endp f f' \<and> (\<exists>a\<in>set as. reason gz c (new_batch c now random lines) a f f')
    else held f f'" by (simp only: new_batch_events)
  show ?thesis
  proof (cases "r = Some True")
    case True
    with d show ?thesis by (simp add: settled_def)
  next
    case False
    with d have h: "held f f'" by simp
    then have "pending (fw_spool f') = pending (fw_spool f)"
      using plain_same_pending [OF spool_inv_dir [OF assms(1)]] by (simp add: held_def pending_def)
    with False h show ?thesis by (simp add: held_def sent_total_def)
  qed
qed

text \<open>A forwarder over the small spool, and a collector that refuses, then accepts.\<close>

definition example_forwarder :: forwarder where
  "example_forwarder =
     \<lparr>fw_spool = example_spool, fw_stats = stats_init, fw_backoff = \<lparr>bo_attempt = 0\<rparr>, fw_pending = 0\<rparr>"

definition example_config :: agent_config where
  "example_config =
     \<lparr>cf_agent_id = ''123e4567-e89b-12d3-a456-426614174000'', cf_site_id = ''site-1'', cf_addr = ''0.0.0.0'',
      cf_port = 5514, cf_endpoint = ''https://c.example/'', cf_token = ''secret'', cf_batch_size = 2,
      cf_batch_interval_seconds = 5, cf_ca_file = [], cf_heartbeat_interval_seconds = 60, cf_spool_dir = ''/s'',
      cf_retention_days = 7, cf_max_size_gb = 1, cf_log_level = ''info'', cf_log_dir = ''/l'', cf_proxy_url = [],
      cf_path = ''/c''\<rparr>"

definition example_attempt :: "int \<Rightarrow> attempt" where
  "example_attempt status =
     \<lparr>at_sent = 0, at_network = (\<lambda>_. Inr \<lparr>rs_status = status, rs_retry_after = [], rs_body = []\<rparr>),
      at_cancelled = False, at_random = 0, at_now = 0, at_letter = 0, at_io = no_faults, at_stopped = False\<rparr>"

theorem deliver_outcome_witness:
  "\<exists>f' rqs r. deliver id example_config 0 [0, 0, 0, 0, 0, 0, 0, 0, 0, 0] [example_attempt 503] [''{}'']
      \<lparr>po_file = ''spool-2024-02-28.jsonl'', po_offset = 3\<rparr> example_forwarder = (f', rqs, r)
    \<and> (r \<noteq> Some True \<longrightarrow> pending (fw_spool f') = pending example_spool)"
proof -
  obtain f' rqs r where "deliver id example_config 0 [0, 0, 0, 0, 0, 0, 0, 0, 0, 0] [example_attempt 503] [''{}'']
      \<lparr>po_file = ''spool-2024-02-28.jsonl'', po_offset = 3\<rparr> example_forwarder = (f', rqs, r)"
    by (meson prod_cases3)
  from deliver_outcome [OF _ _ this] this show ?thesis by (simp add: example_forwarder_def)
qed

text \<open>
  C5: Every request of one delivery is a POST to the events endpoint with the same batch: the same
  identifier and the same events, so that a collector can recognise the repetition; only the time
  of sending differs.
\<close>

theorem deliver_same_batch:
  assumes "deliver gz c now random as lines endp f = (f', rqs, r)" and "rq \<in> set rqs"
  shows "\<exists>a\<in>set as. \<exists>p. marshal_batch ((new_batch c now random lines)\<lparr>ba_sent_at := format_utc_millis (at_sent a)\<rparr>) = Some p
    \<and> rq = post_request gz c ''/events'' (p @ [nl])"
  using deliver_loop_requests [OF assms(1) [unfolded deliver_def] assms(2)] by (simp add: stamped_def)

lemma deliver_loop_sends:
  assumes "\<forall>e\<in>set (ba_events b). json_valid e" "deliver_loop gz c (a # as) b endp f = (f', rqs, r)"
  shows "rqs \<noteq> []"
proof -
  obtain p where p: "marshal_batch (stamped a b) = Some p"
    using marshal_batch_valid [of "stamped a b"] assms(1) by auto
  obtain f1 q v where t: "try_once gz c a b endp f = (f1, q, v)" by (cases "try_once gz c a b endp f") auto
  then have "q = fst (post gz c (at_network a) ''/events'' (marshal_batch (stamped a b)))"
    by (auto simp: try_once_def stamped_def Let_def split: prod.splits if_splits verdict.splits)
  then have "q \<noteq> None" by (simp add: p post_def Let_def)
  with assms(2) t show ?thesis by (auto simp: Let_def split: verdict.splits prod.splits)
qed

theorem deliver_same_batch_witness:
  "\<exists>p f' rqs r. deliver id example_config 0 [0, 0, 0, 0, 0, 0, 0, 0, 0, 0] [example_attempt 503, example_attempt 200]
         [''{}''] zero_position example_forwarder = (f', rqs, r)
     \<and> rqs \<noteq> [] \<and> hd rqs = post_request id example_config ''/events'' (p @ [nl])"
proof -
  obtain f' rqs r where d: "deliver id example_config 0 [0, 0, 0, 0, 0, 0, 0, 0, 0, 0]
      [example_attempt 503, example_attempt 200] [''{}''] zero_position example_forwarder = (f', rqs, r)"
    by (meson prod_cases3)
  have "\<forall>e\<in>set [''{}'']. json_valid e" by code_simp
  with d have "rqs \<noteq> []" using deliver_loop_sends [OF _ d [unfolded deliver_def]] by simp
  then have "hd rqs \<in> set rqs" by simp
  from deliver_same_batch [OF d this] d \<open>rqs \<noteq> []\<close> show ?thesis by auto
qed

lemma reply_to_network:
  assumes "\<forall>e\<in>set (ba_events b). json_valid e" and "\<And>rq. at_network a rq = Inr (r rq)"
  shows "\<exists>rq. reply_to gz c a b = Inr ((r rq)\<lparr>rs_body := take_int max_reply (rs_body (r rq))\<rparr>)"
proof -
  obtain p where "marshal_batch (stamped a b) = Some p"
    using marshal_batch_valid [of "stamped a b"] assms(1) by auto
  then show ?thesis by (auto simp: reply_to_def post_def Let_def read_reply_def assms(2))
qed

text \<open>
  C6: A delivery ends as soon as the collector answers with success, however many attempts have failed
  before, as long as the program is not stopped.
\<close>

theorem deliver_returns:
  assumes "\<forall>e\<in>set lines. json_valid e" and "\<forall>a\<in>set as. \<not> at_cancelled a \<and> \<not> at_stopped a"
    and "\<not> at_cancelled a" and "\<And>rq. at_network a rq = Inr (r rq)"
    and "\<And>rq. 200 \<le> rs_status (r rq) \<and> rs_status (r rq) < 300"
  shows "\<exists>f' rqs. deliver gz c now random (as @ a # later) lines endp f = (f', rqs, Some True)"
proof -
  obtain rq where "reply_to gz c a (new_batch c now random lines) = Inr ((r rq)\<lparr>rs_body := take_int max_reply (rs_body (r rq))\<rparr>)"
    using reply_to_network [of "new_batch c now random lines" a r gz c] assms(1,4) by auto
  from deliver_loop_returns [OF assms(2) this] assms(3,5) show ?thesis by (simp add: deliver_def)
qed

theorem deliver_returns_witness:
  "\<exists>f' rqs. deliver id example_config 0 [0, 0, 0, 0, 0, 0, 0, 0, 0, 0] [example_attempt 503, example_attempt 200]
     [''{}''] zero_position example_forwarder = (f', rqs, Some True)"
proof -
  have "\<forall>e\<in>set [''{}'']. json_valid e" by code_simp
  then show ?thesis
    using deliver_returns [of "[''{}'']" "[example_attempt 503]" "example_attempt 200"
        "\<lambda>_. \<lparr>rs_status = 200, rs_retry_after = [], rs_body = []\<rparr>" id example_config 0
        "[0, 0, 0, 0, 0, 0, 0, 0, 0, 0]" "[]" zero_position example_forwarder]
    by (simp add: example_attempt_def)
qed

section \<open>Rounds\<close>

lemma read_ready_result:
  assumes "spool_inv s" "listing_ok io"
  obtains s' endp e where "ReadReadyBatch io mx allow s = Some (s', [], endp, e)" "sp_files s' = sp_files s"
      "sp_committed s' = sp_committed s" "spool_inv s'"
  | s' endp where "ReadReadyBatch io mx allow s = Some (s', take (nat mx) (pending s), endp, None)"
      "take (nat mx) (pending s) \<noteq> []" "s' = s\<lparr>sp_inflight := endp\<rparr>" "0 \<le> po_offset endp"
      "pending_at (sp_files s) endp = drop (nat mx) (pending s)"
proof -
  have d: "dir_ok (sp_files s)" and o: "0 \<le> po_offset (sp_committed s)" using assms(1) by (simp_all add: inv_defs)
  have "read_batch io mx allow s \<noteq> None"
    using read_files_total [OF plain_names_sorted [OF d, of io], where io = io and mx = mx
        and lines = "[]" and d = "sp_files s" and pos = "sp_committed s" and fuel = "Suc (length (plain_names io (sp_files s)))"] by (auto simp: read_batch_def Let_def)
  then obtain s1 lines pos err where r: "read_batch io mx allow s = Some (s1, lines, pos, err)" by auto
  show thesis
  proof (cases err)
    case (Some e)
    with r have "lines = []" "s1 = s"
      by (auto simp: read_batch_def Let_def split: option.splits if_splits)
    with r Some assms(1) show thesis by (intro that(1)) (simp_all add: ReadReadyBatch_def)
  next
    case None
    with r have "read_batch no_faults mx allow s = Some (s1, lines, pos, None)"
      using read_batch_no_faults [OF d assms(2)] by simp
    with read_batch_result [OF d o, of mx allow] have c:
      "if int (length (pending s)) < mx \<and> \<not> allow then lines = [] \<and> pos = sp_committed s \<and> s1 = s
       else lines = take (nat mx) (pending s)
          \<and> pending_at (sp_files s) pos = drop (nat mx) (pending s) \<and> 0 \<le> po_offset pos
          \<and> s1 = (if lines = [] then s else s\<lparr>sp_inflight := pos\<rparr>)" by auto
    show thesis
    proof (cases "lines = []")
      case True
      with c have "s1 = s" by (auto split: if_splits)
      with True r None assms(1) show thesis by (intro that(1)) (simp_all add: ReadReadyBatch_def)
    next
      case False
      with c have "lines = take (nat mx) (pending s)" "s1 = s\<lparr>sp_inflight := pos\<rparr>" "0 \<le> po_offset pos"
        "pending_at (sp_files s) pos = drop (nat mx) (pending s)" by (auto split: if_splits)
      with False r None show thesis by (intro that(2)) (simp_all add: ReadReadyBatch_def)
    qed
  qed
qed

lemma inflight_simps [simp]:
  "spool_inv (s\<lparr>sp_inflight := p\<rparr>) = spool_inv s" "pending (s\<lparr>sp_inflight := p\<rparr>) = pending s"
  by (simp_all add: inv_defs pending_def)

text \<open>How far a round, or several, moved the queue: a number of events from the front.\<close>

definition moved :: "nat \<Rightarrow> forwarder \<Rightarrow> forwarder \<Rightarrow> bool" where
  "moved k f f' \<longleftrightarrow>
     spool_inv (fw_spool f') \<and> k \<le> length (pending (fw_spool f))
     \<and> pending (fw_spool f') = drop k (pending (fw_spool f)) \<and> sent_total f' = sent_total f + int k"

lemma moved_none:
  "spool_inv s' \<Longrightarrow> sp_files s' = sp_files (fw_spool f) \<Longrightarrow> sp_committed s' = sp_committed (fw_spool f) \<Longrightarrow>
   moved 0 f (f\<lparr>fw_spool := s'\<rparr>)"
  by (simp add: moved_def pending_def sent_total_def)

lemma moved_trans: "moved k f f1 \<Longrightarrow> moved m f1 f2 \<Longrightarrow> moved (k + m) f f2"
  by (auto simp: moved_def add.commute)

lemma run_round_moved:
  assumes inv: "spool_inv (fw_spool f)" and io: "listing_ok (ro_io r)"
  shows "\<exists>f' l' rqs e k. run_round gz c r f l = Some (f', l', rqs, e) \<and> moved k f f'"
proof (cases "\<not> lo_skip_wait l \<and> 0 < batch_interval c - time_sub (ro_wait_now r) (lo_last_send l) \<and> ro_ended_waiting r \<or> ro_ended r")
  case True
  with moved_none [OF inv refl refl] show ?thesis by (auto simp: run_round_def intro!: exI [of _ 0])
next
  case run: False
  let ?due = "batch_interval c \<le> time_sub (ro_now r) (lo_last_send l)"
  let ?l = "l\<lparr>lo_skip_wait := False\<rparr>"
  show ?thesis
  proof (rule read_ready_result [OF inv io, of "cf_batch_size c" "?due \<or> lo_startup l"])
    fix s' endp e
    assume a: "ReadReadyBatch (ro_io r) (cf_batch_size c) (?due \<or> lo_startup l) (fw_spool f) = Some (s', [], endp, e)"
      "sp_files s' = sp_files (fw_spool f)" "sp_committed s' = sp_committed (fw_spool f)" "spool_inv s'"
    from moved_none [OF a(4,2,3)] a(1) run show ?thesis
      by (cases e) (auto simp: run_round_def Let_def)
  next
    fix s' endp
    let ?n = "nat (cf_batch_size c)"
    assume a: "ReadReadyBatch (ro_io r) (cf_batch_size c) (?due \<or> lo_startup l) (fw_spool f)
        = Some (s', take ?n (pending (fw_spool f)), endp, None)"
      "take ?n (pending (fw_spool f)) \<noteq> []" "s' = (fw_spool f)\<lparr>sp_inflight := endp\<rparr>" "0 \<le> po_offset endp"
      "pending_at (sp_files (fw_spool f)) endp = drop ?n (pending (fw_spool f))"
    obtain line lines where ls: "take ?n (pending (fw_spool f)) = line # lines" using a(2) by (cases "take ?n (pending (fw_spool f))") auto
    define f0 where "f0 = f\<lparr>fw_spool := s'\<rparr>"
    have inv0: "spool_inv (fw_spool f0)" using inv by (simp add: f0_def a(3))
    obtain f1 rqs v where d: "deliver gz c (ro_id_now r) (ro_id_random r) (ro_attempts r) (line # lines) endp f0 = (f1, rqs, v)"
      by (meson prod_cases3)
    have "deliver_loop gz c (ro_attempts r) (new_batch c (ro_id_now r) (ro_id_random r) (line # lines)) endp f0 = (f1, rqs, v)"
      using d by (simp add: deliver_def)
    from deliver_loop_result [OF inv0 a(4) this] have res:
      "if v = Some True then settled (int (length (line # lines))) endp f0 f1 else held f0 f1"
      by (cases "v = Some True") simp_all
    have same: "pending_at (sp_files (fw_spool f1)) p = pending_at (sp_files (fw_spool f)) p" for p
      using res plain_same_pending [OF spool_inv_dir [OF inv0], of "sp_files (fw_spool f1)" p]
      by (auto simp: settled_def held_def f0_def a(3) split: if_splits)
    have mv: "moved (if v = Some True then length (line # lines) else 0) f f1"
    proof (cases "v = Some True")
      case True
      with res same [of endp] have "spool_inv (fw_spool f1)" "pending (fw_spool f1) = drop ?n (pending (fw_spool f))"
        "sent_total f1 = sent_total f + int (length (line # lines))"
        by (simp_all add: settled_def pending_def [of "fw_spool f1"] a(5) f0_def sent_total_def)
      moreover have "length (line # lines) \<le> length (pending (fw_spool f))" using ls by (metis length_take min.cobounded1)
      moreover have "drop (length (line # lines)) (pending (fw_spool f)) = drop ?n (pending (fw_spool f))"
        by (metis append_eq_conv_conj append_take_drop_id ls)
      ultimately show ?thesis using True by (simp only: moved_def if_True simp_thms)
    next
      case False
      with res same [of "sp_committed (fw_spool f)"] show ?thesis
        by (simp add: moved_def held_def pending_def f0_def a(3) sent_total_def)
    qed
    then have after: "moved (length (line # lines)) f (fst (after_delivery c r (int (length (line # lines))) f1 l'))"
      if "v = Some True" for l'
      using that by (simp add: after_delivery_def moved_def sent_total_def)
    show ?thesis
    proof (cases "v = Some True")
      case True
      obtain f2 l2 where ad: "after_delivery c r (int (length (line # lines))) f1 (?l\<lparr>lo_startup := False\<rparr>) = (f2, l2)"
        by (cases "after_delivery c r (int (length (line # lines))) f1 (?l\<lparr>lo_startup := False\<rparr>)")
      with after [OF True, of "?l\<lparr>lo_startup := False\<rparr>"] have "moved (length (line # lines)) f f2" by simp
      moreover have "run_round gz c r f l = Some (f2, l2, rqs, Continue)"
        using run a(1) ls d True ad by (auto simp: run_round_def Let_def f0_def)
      ultimately show ?thesis by blast
    next
      case False
      with run a(1) ls d mv show ?thesis
        by (cases v) (auto simp: run_round_def Let_def f0_def split: prod.split)
    qed
  qed
qed

lemma run_loop_moved:
  "spool_inv (fw_spool f) \<Longrightarrow> \<forall>r\<in>set rs. listing_ok (ro_io r) \<Longrightarrow>
   \<exists>f' rqs e k. run_loop gz c rs f l = Some (f', rqs, e) \<and> moved k f f'"
proof (induction rs arbitrary: f l)
  case Nil
  then show ?case using moved_none [OF Nil(1) refl refl] by auto
next
  case (Cons r rs)
  obtain f1 l1 q e k where r: "run_round gz c r f l = Some (f1, l1, q, e)" "moved k f f1"
    using run_round_moved [OF Cons.prems(1), of r gz c l] Cons.prems(2) by auto
  then have "spool_inv (fw_spool f1)" by (simp add: moved_def)
  with Cons obtain f2 q2 e2 k2 where "run_loop gz c rs f1 l1 = Some (f2, q2, e2)" "moved k2 f1 f2"
    by (meson list.set_intros(2))
  with r moved_trans [OF r(2)] show ?case by (cases e) auto
qed

text \<open>
  C4: The forwarder's loop, whatever the clock, the network and the disk do and however it ends,
  takes events from the front of the queue only, and the counters of forwarded and dead-lettered
  events grow by exactly the number of events that have left the queue; it always comes back from
  reading the spool.
\<close>

theorem forwarder_run_accounting:
  assumes "spool_inv (fw_spool f)" and "\<forall>r\<in>set rs. listing_ok (ro_io r)"
  shows "\<exists>f' rqs e k. forwarder_run gz c now rs f = Some (f', rqs, e) \<and> spool_inv (fw_spool f')
    \<and> k \<le> length (pending (fw_spool f)) \<and> pending (fw_spool f') = drop k (pending (fw_spool f))
    \<and> sent_total f' = sent_total f + int k"
  using run_loop_moved [OF assms, of gz c "start_loop now"] by (auto simp: forwarder_run_def moved_def)

definition example_round :: round where
  "example_round =
     \<lparr>ro_wait_now = 0, ro_ended_waiting = False, ro_ended = False, ro_now = 0, ro_io = no_faults, ro_idle_now = 0,
      ro_id_now = 0, ro_id_random = replicate 10 0, ro_attempts = [example_attempt 500, example_attempt 400],
      ro_done_now = 0\<rparr>"

theorem forwarder_run_accounting_witness:
  "\<exists>f' rqs e k. forwarder_run id example_config 0 [example_round] example_forwarder = Some (f', rqs, e)
     \<and> pending (fw_spool f') = drop k (pending example_spool) \<and> sent_total f' = int k"
  using forwarder_run_accounting [of example_forwarder "[example_round]" id example_config 0]
  by (auto simp: example_forwarder_def example_round_def sent_total_def stats_init_def)

end
