(* ===== verification/Json_Print.thy ===== *)
theory Json_Print
  imports Json_Roundtrip
begin

text \<open>
  \<open>encoding/json\<close>: printing a value whose shape is known, as \<open>Marshal\<close> and \<open>Encode\<close> do
  (\<open>print_json\<close>) and as \<open>MarshalIndent\<close> does with two spaces (\<open>indent_json\<close>). The way strings
  are quoted is an argument, as only \<open>Marshal\<close> escapes the characters of HTML. A number is given
  by its text.
\<close>

fun print_json :: "(bytes \<Rightarrow> bytes) \<Rightarrow> json \<Rightarrow> bytes"
  and print_elements :: "(bytes \<Rightarrow> bytes) \<Rightarrow> json list \<Rightarrow> bytes"
  and print_members :: "(bytes \<Rightarrow> bytes) \<Rightarrow> (bytes \<times> json) list \<Rightarrow> bytes" where
  "print_json q JNull = json_null"
| "print_json q (JBool b) = (if b then ''true'' else ''false'')"
| "print_json q (JNum n) = n"
| "print_json q (JStr s) = q s"
| "print_json q (JArr vs) = ''['' @ print_elements q vs @ '']''"
| "print_json q (JObj ms) = ''{'' @ print_members q ms @ ''}''"
| "print_elements q [] = []"
| "print_elements q (v # vs) = print_json q v @ (if vs = [] then [] else '','' @ print_elements q vs)"
| "print_members q [] = []"
| "print_members q ((k, v) # ms) =
     q k @ '':'' @ print_json q v @ (if ms = [] then [] else '','' @ print_members q ms)"

definition new_line :: "nat \<Rightarrow> bytes" where
  "new_line depth = nl # replicate (2 * depth) CHR '' ''"

fun indent_json :: "(bytes \<Rightarrow> bytes) \<Rightarrow> nat \<Rightarrow> json \<Rightarrow> bytes"
  and indent_elements :: "(bytes \<Rightarrow> bytes) \<Rightarrow> nat \<Rightarrow> json list \<Rightarrow> bytes"
  and indent_members :: "(bytes \<Rightarrow> bytes) \<Rightarrow> nat \<Rightarrow> (bytes \<times> json) list \<Rightarrow> bytes" where
  "indent_json q d JNull = json_null"
| "indent_json q d (JBool b) = (if b then ''true'' else ''false'')"
| "indent_json q d (JNum n) = n"
| "indent_json q d (JStr s) = q s"
| "indent_json q d (JArr vs) =
     (if vs = [] then ''[]'' else ''['' @ indent_elements q (d + 1) vs @ new_line d @ '']'')"
| "indent_json q d (JObj ms) =
     (if ms = [] then ''{}'' else ''{'' @ indent_members q (d + 1) ms @ new_line d @ ''}'')"
| "indent_elements q d [] = []"
| "indent_elements q d (v # vs) =
     new_line d @ indent_json q d v @ (if vs = [] then [] else '','' @ indent_elements q d vs)"
| "indent_members q d [] = []"
| "indent_members q d ((k, v) # ms) =
     new_line d @ q k @ '': '' @ indent_json q d v @ (if ms = [] then [] else '','' @ indent_members q d ms)"

abbreviation jint :: "int \<Rightarrow> json" where "jint i \<equiv> JNum (int_dec i)"

fun jopt :: "string option \<Rightarrow> json" where
  "jopt None = JNull"
| "jopt (Some s) = JStr s"

end
