(* ===== verification/Agent.thy ===== *)
theory Agent
  imports Forwarder Version Json_Print
begin

text \<open>
  \<open>internal/agent/agent.go\<close>: the receiver, the janitor, the heartbeat and the status file around
  the spool and the forwarder. Each background task is a function of the agent's state and of what
  the outside does during it; a task holds the mutex of the state it changes, so tasks interleave
  as whole steps.
\<close>

section \<open>State\<close>

record agent =
  ag_forwarder :: forwarder \<comment> \<open>with the spool and the statistics\<close>
  ag_started_at :: gtime
  ag_last_disk_low :: gtime

definition low_disk_bytes :: int where "low_disk_bytes = 2 ^ 30"

definition max_source_ips :: nat where "max_source_ips = 32"

definition udp_buffer :: int where "udp_buffer = 65536"

definition init_forwarder :: "spool \<Rightarrow> forwarder" where
  "init_forwarder s =
     \<lparr>fw_spool = s, fw_stats = stats_init, fw_backoff = \<lparr>bo_attempt = 0\<rparr>, fw_pending = 0\<rparr>"

text \<open>\<open>New\<close>, after the configuration of the client: the spool is opened, then the socket bound.\<close>

datatype start_error = SpoolFailed syscall | BindFailed

definition new_agent :: "faults \<Rightarrow> bool \<Rightarrow> gtime \<Rightarrow> dir \<Rightarrow> start_error + agent" where
  "new_agent io bound now d =
     (case open_spool io d of
        Inl e \<Rightarrow> Inl (SpoolFailed e)
      | Inr s \<Rightarrow>
          if \<not> bound then Inl BindFailed
          else Inr \<lparr>ag_forwarder = init_forwarder s, ag_started_at = now, ag_last_disk_low = 0\<rparr>)"

definition agent_spool :: "agent \<Rightarrow> spool" where
  "agent_spool a = fw_spool (ag_forwarder a)"

definition agent_stats :: "agent \<Rightarrow> stats" where
  "agent_stats a = fw_stats (ag_forwarder a)"

definition set_spool :: "spool \<Rightarrow> agent \<Rightarrow> agent" where
  "set_spool s a = a\<lparr>ag_forwarder := (ag_forwarder a)\<lparr>fw_spool := s\<rparr>\<rparr>"

definition set_stats :: "(stats \<Rightarrow> stats) \<Rightarrow> agent \<Rightarrow> agent" where
  "set_stats u a = a\<lparr>ag_forwarder := update_stats u (ag_forwarder a)\<rparr>"

section \<open>The receiver\<close>

text \<open>The first 32 addresses are kept.\<close>

definition add_source :: "string \<Rightarrow> string list \<Rightarrow> string list" where
  "add_source ip ips = (if ip \<notin> set ips \<and> length ips < max_source_ips then ips @ [ip] else ips)"

definition count_received :: "event_record \<Rightarrow> string \<Rightarrow> bool \<Rightarrow> stats \<Rightarrow> stats" where
  "count_received rec ip err v =
     v\<lparr>st_received := st_received v + 1,
       st_last_event_received_at := rec_received_at rec,
       st_source_ips := add_source ip (st_source_ips v),
       st_spool_write_errors := st_spool_write_errors v + (if err then 1 else 0)\<rparr>"

text \<open>
  One datagram: parsed, written to the spool, counted; the forwarder is notified only where the
  write succeeded. The result is whether it was.
\<close>

definition receive_datagram :: "agent_config \<Rightarrow> faults \<Rightarrow> gtime \<Rightarrow> string \<Rightarrow> bytes \<Rightarrow> agent \<Rightarrow> agent \<times> bool" where
  "receive_datagram c io now ip packet a =
     (let rec = build_record (take_int udp_buffer packet) ip now;
          (s, err) =
            (case marshal_record rec of
               None \<Rightarrow> (agent_spool a, True)
             | Some line \<Rightarrow> (case append_line io now line (agent_spool a) of (s, e) \<Rightarrow> (s, e \<noteq> None)));
          a = set_stats (count_received rec ip err) (set_spool s a)
      in if err then (a, False)
         else (a\<lparr>ag_forwarder := fst (notify c (ag_forwarder a))\<rparr>, True))"

text \<open>What \<open>ReadFromUDP\<close> returns; an error of a closed socket ends the receiver.\<close>

datatype udp_event = Packet faults gtime string bytes | ReadError bool

fun run_receiver :: "agent_config \<Rightarrow> udp_event list \<Rightarrow> agent \<Rightarrow> agent" where
  "run_receiver c [] a = a"
| "run_receiver c (Packet io now ip packet # es) a =
     run_receiver c es (fst (receive_datagram c io now ip packet a))"
| "run_receiver c (ReadError closed # es) a = (if closed then a else run_receiver c es a)"

section \<open>The janitor\<close>

text \<open>The free space of the disk, and the clock of the warning about it.\<close>

definition run_janitor ::
  "(bytes \<Rightarrow> bytes) \<Rightarrow> faults \<Rightarrow> agent_config \<Rightarrow> gtime \<Rightarrow> int option \<Rightarrow> gtime \<Rightarrow> agent \<Rightarrow> agent" where
  "run_janitor gz io c now free wall a =
     (case cleanup gz io now (cf_retention_days c) (max_spool_bytes c) (agent_spool a) of
        (s, dropped) \<Rightarrow>
          (let a = set_spool s a;
               a = (if 0 < dropped then set_stats (\<lambda>v. v\<lparr>st_dropped := st_dropped v + dropped\<rparr>) a else a)
           in case free of
                None \<Rightarrow> a
              | Some n \<Rightarrow>
                  if n < low_disk_bytes \<and> 600 * second \<le> time_sub wall (ag_last_disk_low a)
                  then a\<lparr>ag_last_disk_low := wall\<rparr> else a))"

section \<open>The heartbeat\<close>

record heartbeat =
  hb_agent_id :: string
  hb_site_id :: string
  hb_agent_version :: string
  hb_hostname :: string
  hb_os :: string
  hb_sent_at :: string
  hb_uptime_seconds :: int
  hb_last_event_received_at :: "string option"
  hb_events_received :: int
  hb_events_forwarded :: int
  hb_events_dead_lettered :: int
  hb_events_dropped :: int
  hb_spool_write_errors :: int
  hb_backlog_bytes :: int
  hb_total_bytes :: int
  hb_disk_free_bytes :: int
  hb_last_forward_success_at :: "string option"
  hb_last_forward_error :: "string option"
  hb_proxy_in_use :: bool
  hb_source_ips :: "string list"

definition nullable :: "string \<Rightarrow> string option" where
  "nullable s = (if s = [] then None else Some s)"

text \<open>
  \<open>Seconds()\<close> and its conversion to an integer, in float64: the quotient by a second is rounded
  to 53 bits, added to the whole seconds and rounded again. The quotient is kept in units of
  \<open>2 ^ -141\<close> with a last bit for what is cut off, which no tie can hide.
\<close>

definition float_ratio :: "int \<Rightarrow> int \<Rightarrow> int" where
  "float_ratio p q = round53 (2 * (p * 2 ^ 140 div q) + (if p * 2 ^ 140 mod q = 0 then 0 else 1))"

definition whole_seconds :: "duration \<Rightarrow> int" where
  "whole_seconds d =
     (let s = (\<lambda>d. round53 ((d div second) * 2 ^ 141 + float_ratio (d mod second) second) div 2 ^ 141)
      in if d < 0 then - s (- d) else s d)"

text \<open>What the outside shows: the disk, the names of the host and the platform, the proxy, the clock.\<close>

record surroundings =
  su_io :: faults
  su_free :: int
  su_hostname :: string
  su_os :: string
  su_proxy :: bool
  su_now :: gtime

definition heartbeat_payload :: "agent_config \<Rightarrow> surroundings \<Rightarrow> agent \<Rightarrow> heartbeat" where
  "heartbeat_payload c su a =
     (let v = agent_stats a; (backlog, total) = spool_sizes (su_io su) (agent_spool a)
      in \<lparr>hb_agent_id = cf_agent_id c, hb_site_id = cf_site_id c, hb_agent_version = agent_version,
          hb_hostname = su_hostname su, hb_os = su_os su, hb_sent_at = format_utc_millis (su_now su),
          hb_uptime_seconds = whole_seconds (time_sub (su_now su) (ag_started_at a)),
          hb_last_event_received_at = nullable (st_last_event_received_at v),
          hb_events_received = st_received v, hb_events_forwarded = st_forwarded v,
          hb_events_dead_lettered = st_dead_lettered v, hb_events_dropped = st_dropped v,
          hb_spool_write_errors = st_spool_write_errors v, hb_backlog_bytes = backlog, hb_total_bytes = total,
          hb_disk_free_bytes = su_free su,
          hb_last_forward_success_at = nullable (st_last_forward_success_at v),
          hb_last_forward_error = nullable (st_last_forward_error v),
          hb_proxy_in_use = su_proxy su, hb_source_ips = st_source_ips v\<rparr>)"

definition heartbeat_members :: "heartbeat \<Rightarrow> (string \<times> json) list" where
  "heartbeat_members h =
     [(''agent_id'', JStr (hb_agent_id h)), (''site_id'', JStr (hb_site_id h)),
      (''agent_version'', JStr (hb_agent_version h)), (''hostname'', JStr (hb_hostname h)),
      (''os'', JStr (hb_os h)), (''sent_at'', JStr (hb_sent_at h)),
      (''uptime_seconds'', jint (hb_uptime_seconds h)),
      (''last_event_received_at'', jopt (hb_last_event_received_at h)),
      (''events_received_total'', jint (hb_events_received h)),
      (''events_forwarded_total'', jint (hb_events_forwarded h)),
      (''events_dead_lettered_total'', jint (hb_events_dead_lettered h)),
      (''events_dropped_total'', jint (hb_events_dropped h)),
      (''spool_write_errors_total'', jint (hb_spool_write_errors h)),
      (''spool_backlog_bytes'', jint (hb_backlog_bytes h)), (''spool_total_bytes'', jint (hb_total_bytes h)),
      (''spool_disk_free_bytes'', jint (hb_disk_free_bytes h)),
      (''last_forward_success_at'', jopt (hb_last_forward_success_at h)),
      (''last_forward_error'', jopt (hb_last_forward_error h)), (''proxy_in_use'', JBool (hb_proxy_in_use h)),
      (''utm_source_ips'', JArr (map JStr (hb_source_ips h)))]"

definition marshal_heartbeat :: "heartbeat \<Rightarrow> bytes" where
  "marshal_heartbeat h = print_json json_quote (JObj (heartbeat_members h))"

definition heartbeat_failure :: "reply \<Rightarrow> string option" where
  "heartbeat_failure res =
     (case res of
        Inl e \<Rightarrow> Some (connect_failed @ e)
      | Inr r \<Rightarrow> if rs_status r < 200 \<or> 300 \<le> rs_status r then Some (http_text (rs_status r)) else None)"

text \<open>The errors of \<open>Unmarshal\<close> are ignored: what was stored before one is kept.\<close>

definition min_version_of :: "bytes \<Rightarrow> string" where
  "min_version_of body =
     (case json_parse body of
        None \<Rightarrow> []
      | Some v \<Rightarrow> fst (store_struct [''min_supported_version''] (\<lambda>f. store_string) v []))"

definition send_heartbeat ::
  "(bytes \<Rightarrow> bytes) \<Rightarrow> agent_config \<Rightarrow> surroundings \<Rightarrow> (http_request \<Rightarrow> reply) \<Rightarrow> bool \<Rightarrow> agent
   \<Rightarrow> agent \<times> http_request option" where
  "send_heartbeat gz c su network cancelled a =
     (let h = heartbeat_payload c su a;
          (rq, res) = post gz c network ''/heartbeat'' (Some (marshal_heartbeat h))
      in (if cancelled then a
          else case heartbeat_failure res of
                 Some e \<Rightarrow> set_stats (\<lambda>v. v\<lparr>st_last_heartbeat_error := e\<rparr>) a
               | None \<Rightarrow>
                   (let mv = (case res of Inl e \<Rightarrow> [] | Inr r \<Rightarrow> min_version_of (rs_body r))
                    in set_stats (\<lambda>v. v\<lparr>st_last_heartbeat_at := hb_sent_at h, st_last_heartbeat_error := [],
                            st_min_supported_version := (if mv \<noteq> [] then mv else st_min_supported_version v)\<rparr>) a),
          rq))"

section \<open>The status file\<close>

record status_file =
  sf_heartbeat :: heartbeat
  sf_started_at :: string
  sf_updated_at :: string
  sf_last_heartbeat_at :: "string option"
  sf_last_heartbeat_error :: "string option"
  sf_min_supported_version :: "string option"
  sf_upgrade_required :: bool
  sf_config :: config_summary

definition status_file_name :: string where "status_file_name = ''status.json''"

definition build_status ::
  "(string \<Rightarrow> string) \<Rightarrow> agent_config \<Rightarrow> surroundings \<Rightarrow> agent \<Rightarrow> status_file" where
  "build_status redact_url c su a =
     (let h = heartbeat_payload c su a; v = agent_stats a
      in \<lparr>sf_heartbeat = h, sf_started_at = format_utc_millis (ag_started_at a), sf_updated_at = hb_sent_at h,
          sf_last_heartbeat_at = nullable (st_last_heartbeat_at v),
          sf_last_heartbeat_error = nullable (st_last_heartbeat_error v),
          sf_min_supported_version = nullable (st_min_supported_version v),
          sf_upgrade_required =
            (st_min_supported_version v \<noteq> [] \<and> version_less agent_version (st_min_supported_version v)),
          sf_config = summary redact_url c\<rparr>)"

definition summary_json :: "config_summary \<Rightarrow> json" where
  "summary_json s =
     JObj [(''agent_id'', JStr (cs_agent_id s)), (''site_id'', JStr (cs_site_id s)),
       (''listen'', JStr (cs_listen s)), (''endpoint'', JStr (cs_endpoint s)),
       (''batch_size'', jint (cs_batch_size s)), (''batch_interval_seconds'', jint (cs_batch_interval_seconds s)),
       (''heartbeat_interval_seconds'', jint (cs_heartbeat_interval_seconds s)),
       (''spool_dir'', JStr (cs_spool_dir s)), (''retention_days'', jint (cs_retention_days s)),
       (''max_size_gb'', jint (cs_max_size_gb s)), (''log_dir'', JStr (cs_log_dir s)),
       (''log_level'', JStr (cs_log_level s)), (''proxy_url'', JStr (cs_proxy_url s)),
       (''ca_file'', JStr (cs_ca_file s))]"

definition status_json :: "status_file \<Rightarrow> json" where
  "status_json s =
     JObj (heartbeat_members (sf_heartbeat s)
       @ [(''started_at'', JStr (sf_started_at s)), (''updated_at'', JStr (sf_updated_at s)),
          (''last_heartbeat_at'', jopt (sf_last_heartbeat_at s)),
          (''last_heartbeat_error'', jopt (sf_last_heartbeat_error s)),
          (''min_supported_version'', jopt (sf_min_supported_version s)),
          (''upgrade_required'', JBool (sf_upgrade_required s)), (''config'', summary_json (sf_config s))])"

text \<open>\<open>writeStatus\<close> on the directory of the configuration file; an error is logged only.\<close>

definition write_status ::
  "(string \<Rightarrow> string) \<Rightarrow> agent_config \<Rightarrow> surroundings \<Rightarrow> agent \<Rightarrow> dir \<Rightarrow> dir" where
  "write_status redact_url c su a d =
     fst (write_file_atomic (su_io su) status_file_name
       (indent_json json_quote_html 0 (status_json (build_status redact_url c su a))) d)"

section \<open>Shutdown\<close>

text \<open>The end of \<open>Run\<close>: the spool is closed once every task has come back.\<close>

definition stop_agent :: "faults \<Rightarrow> agent \<Rightarrow> agent" where
  "stop_agent io a = set_spool (fst (close_spool io (agent_spool a))) a"

end
