(* ===== verification/Protocol.thy ===== *)
theory Protocol
  imports Json_Decode Json_Print
begin

text \<open>
  \<open>internal/protocol/protocol.go\<close>: the messages between the agent and the collector, and their
  strict decoding (\<open>decodeStrict\<close> of \<open>internal/collector/server.go\<close>): a member with an unknown
  name is an error. A raw value is kept as its tree.
\<close>

section \<open>Messages\<close>

record event =
  ev_received_at :: string
  ev_source_ip :: string
  ev_raw :: bytes
  ev_raw_base64 :: string
  ev_parsed :: "json option" \<comment> \<open>absent, or any value\<close>
  ev_parse_error :: "string option"

record events_request =
  er_agent_id :: string
  er_site_id :: string
  er_agent_version :: string
  er_batch_id :: string
  er_sent_at :: string
  er_events :: "event list"

record heartbeat_request =
  hq_agent_id :: string
  hq_site_id :: string
  hq_agent_version :: string
  hq_hostname :: string
  hq_os :: string
  hq_sent_at :: string
  hq_uptime_seconds :: int
  hq_last_event_received_at :: "string option"
  hq_events_received :: int
  hq_events_forwarded :: int
  hq_events_dead_lettered :: int
  hq_events_dropped :: int
  hq_spool_write_errors :: int
  hq_backlog_bytes :: int
  hq_total_bytes :: int
  hq_disk_free_bytes :: int
  hq_last_forward_success_at :: "string option"
  hq_last_forward_error :: "string option"
  hq_proxy_in_use :: bool
  hq_source_ips :: "string list"

definition zero_event :: event where
  "zero_event =
     \<lparr>ev_received_at = [], ev_source_ip = [], ev_raw = [], ev_raw_base64 = [], ev_parsed = None,
      ev_parse_error = None\<rparr>"

definition zero_events_request :: events_request where
  "zero_events_request =
     \<lparr>er_agent_id = [], er_site_id = [], er_agent_version = [], er_batch_id = [], er_sent_at = [],
      er_events = []\<rparr>"

definition zero_heartbeat_request :: heartbeat_request where
  "zero_heartbeat_request =
     \<lparr>hq_agent_id = [], hq_site_id = [], hq_agent_version = [], hq_hostname = [], hq_os = [],
      hq_sent_at = [], hq_uptime_seconds = 0, hq_last_event_received_at = None, hq_events_received = 0,
      hq_events_forwarded = 0, hq_events_dead_lettered = 0, hq_events_dropped = 0,
      hq_spool_write_errors = 0, hq_backlog_bytes = 0, hq_total_bytes = 0, hq_disk_free_bytes = 0,
      hq_last_forward_success_at = None, hq_last_forward_error = None, hq_proxy_in_use = False,
      hq_source_ips = []\<rparr>"

section \<open>Strict decoding\<close>

text \<open>Each store function gives the new value and whether an error was recorded.\<close>

definition strict_struct ::
  "string list \<Rightarrow> (string \<Rightarrow> json \<Rightarrow> 'a \<Rightarrow> 'a \<times> bool) \<Rightarrow> json \<Rightarrow> 'a \<Rightarrow> 'a \<times> bool" where
  "strict_struct tags store v x =
     (case v of
        JObj ms \<Rightarrow>
          foldl (\<lambda>(x, err) (k, w).
              case match_field tags k of
                None \<Rightarrow> (x, True)
              | Some f \<Rightarrow> let (x', e) = store f w x in (x', err \<or> e)) (x, False) ms
      | JNull \<Rightarrow> (x, False)
      | _ \<Rightarrow> (x, True))"

definition store_opt_string :: "json \<Rightarrow> string option \<Rightarrow> string option \<times> bool" where
  "store_opt_string v old =
     (case v of JNull \<Rightarrow> (None, False) | JStr s \<Rightarrow> (Some s, False)
      | _ \<Rightarrow> (Some (case old of None \<Rightarrow> [] | Some s \<Rightarrow> s), True))"

definition store_bool :: "json \<Rightarrow> bool \<Rightarrow> bool \<times> bool" where
  "store_bool v old = (case v of JBool b \<Rightarrow> (b, False) | JNull \<Rightarrow> (old, False) | _ \<Rightarrow> (old, True))"

text \<open>The elements of an array; a slot starts from the element that was there, or from zero.\<close>

fun store_elements :: "(json \<Rightarrow> 'a \<Rightarrow> 'a \<times> bool) \<Rightarrow> 'a \<Rightarrow> json list \<Rightarrow> 'a list \<Rightarrow> 'a list \<times> bool" where
  "store_elements store z [] old = ([], False)"
| "store_elements store z (v # vs) old =
     (let (x, e) = store v (case old of [] \<Rightarrow> z | y # _ \<Rightarrow> y); (xs, e') = store_elements store z vs (tl old)
      in (x # xs, e \<or> e'))"

definition store_list :: "(json \<Rightarrow> 'a \<Rightarrow> 'a \<times> bool) \<Rightarrow> 'a \<Rightarrow> json \<Rightarrow> 'a list \<Rightarrow> 'a list \<times> bool" where
  "store_list store z v old =
     (case v of JArr vs \<Rightarrow> store_elements store z vs old | JNull \<Rightarrow> ([], False) | _ \<Rightarrow> (old, True))"

text \<open>A field of a record: its getter and its update.\<close>

definition at_field ::
  "('b \<Rightarrow> 'b \<times> bool) \<Rightarrow> ('a \<Rightarrow> 'b) \<Rightarrow> (('b \<Rightarrow> 'b) \<Rightarrow> 'a \<Rightarrow> 'a) \<Rightarrow> 'a \<Rightarrow> 'a \<times> bool" where
  "at_field store get upd x = (let (y, e) = store (get x) in (upd (\<lambda>_. y) x, e))"

definition event_fields :: "string list" where
  "event_fields = [''received_at'', ''source_ip'', ''raw'', ''raw_base64'', ''parsed'', ''parse_error'']"

definition store_event_field :: "string \<Rightarrow> json \<Rightarrow> event \<Rightarrow> event \<times> bool" where
  "store_event_field f v x =
     (if f = ''received_at'' then at_field (store_string v) ev_received_at ev_received_at_update x
      else if f = ''source_ip'' then at_field (store_string v) ev_source_ip ev_source_ip_update x
      else if f = ''raw'' then at_field (store_string v) ev_raw ev_raw_update x
      else if f = ''raw_base64'' then at_field (store_string v) ev_raw_base64 ev_raw_base64_update x
      else if f = ''parsed'' then (x\<lparr>ev_parsed := Some v\<rparr>, False)
      else at_field (store_opt_string v) ev_parse_error ev_parse_error_update x)"

definition store_event :: "json \<Rightarrow> event \<Rightarrow> event \<times> bool" where
  "store_event = strict_struct event_fields store_event_field"

definition events_fields :: "string list" where
  "events_fields = [''agent_id'', ''site_id'', ''agent_version'', ''batch_id'', ''sent_at'', ''events'']"

definition store_events_field :: "string \<Rightarrow> json \<Rightarrow> events_request \<Rightarrow> events_request \<times> bool" where
  "store_events_field f v x =
     (if f = ''agent_id'' then at_field (store_string v) er_agent_id er_agent_id_update x
      else if f = ''site_id'' then at_field (store_string v) er_site_id er_site_id_update x
      else if f = ''agent_version'' then at_field (store_string v) er_agent_version er_agent_version_update x
      else if f = ''batch_id'' then at_field (store_string v) er_batch_id er_batch_id_update x
      else if f = ''sent_at'' then at_field (store_string v) er_sent_at er_sent_at_update x
      else at_field (store_list store_event zero_event v) er_events er_events_update x)"

definition store_events_request :: "json \<Rightarrow> events_request \<Rightarrow> events_request \<times> bool" where
  "store_events_request = strict_struct events_fields store_events_field"

definition heartbeat_fields :: "string list" where
  "heartbeat_fields =
     [''agent_id'', ''site_id'', ''agent_version'', ''hostname'', ''os'', ''sent_at'', ''uptime_seconds'',
      ''last_event_received_at'', ''events_received_total'', ''events_forwarded_total'',
      ''events_dead_lettered_total'', ''events_dropped_total'', ''spool_write_errors_total'',
      ''spool_backlog_bytes'', ''spool_total_bytes'', ''spool_disk_free_bytes'', ''last_forward_success_at'',
      ''last_forward_error'', ''proxy_in_use'', ''utm_source_ips'']"

definition store_heartbeat_field :: "string \<Rightarrow> json \<Rightarrow> heartbeat_request \<Rightarrow> heartbeat_request \<times> bool" where
  "store_heartbeat_field f v x =
     (if f = ''agent_id'' then at_field (store_string v) hq_agent_id hq_agent_id_update x
      else if f = ''site_id'' then at_field (store_string v) hq_site_id hq_site_id_update x
      else if f = ''agent_version'' then at_field (store_string v) hq_agent_version hq_agent_version_update x
      else if f = ''hostname'' then at_field (store_string v) hq_hostname hq_hostname_update x
      else if f = ''os'' then at_field (store_string v) hq_os hq_os_update x
      else if f = ''sent_at'' then at_field (store_string v) hq_sent_at hq_sent_at_update x
      else if f = ''uptime_seconds'' then at_field (store_int64 v) hq_uptime_seconds hq_uptime_seconds_update x
      else if f = ''last_event_received_at''
      then at_field (store_opt_string v) hq_last_event_received_at hq_last_event_received_at_update x
      else if f = ''events_received_total'' then at_field (store_int64 v) hq_events_received hq_events_received_update x
      else if f = ''events_forwarded_total'' then at_field (store_int64 v) hq_events_forwarded hq_events_forwarded_update x
      else if f = ''events_dead_lettered_total''
      then at_field (store_int64 v) hq_events_dead_lettered hq_events_dead_lettered_update x
      else if f = ''events_dropped_total'' then at_field (store_int64 v) hq_events_dropped hq_events_dropped_update x
      else if f = ''spool_write_errors_total''
      then at_field (store_int64 v) hq_spool_write_errors hq_spool_write_errors_update x
      else if f = ''spool_backlog_bytes'' then at_field (store_int64 v) hq_backlog_bytes hq_backlog_bytes_update x
      else if f = ''spool_total_bytes'' then at_field (store_int64 v) hq_total_bytes hq_total_bytes_update x
      else if f = ''spool_disk_free_bytes'' then at_field (store_int64 v) hq_disk_free_bytes hq_disk_free_bytes_update x
      else if f = ''last_forward_success_at''
      then at_field (store_opt_string v) hq_last_forward_success_at hq_last_forward_success_at_update x
      else if f = ''last_forward_error''
      then at_field (store_opt_string v) hq_last_forward_error hq_last_forward_error_update x
      else if f = ''proxy_in_use'' then at_field (store_bool v) hq_proxy_in_use hq_proxy_in_use_update x
      else at_field (store_list store_string [] v) hq_source_ips hq_source_ips_update x)"

definition store_heartbeat_request :: "json \<Rightarrow> heartbeat_request \<Rightarrow> heartbeat_request \<times> bool" where
  "store_heartbeat_request = strict_struct heartbeat_fields store_heartbeat_field"

text \<open>
  \<open>decodeStrict\<close>: one value and nothing after it but white space. What is wrong otherwise is the
  library's text, so \<open>None\<close> stands for it.
\<close>

definition decode_strict :: "(json \<Rightarrow> 'a \<Rightarrow> 'a \<times> bool) \<Rightarrow> 'a \<Rightarrow> bytes \<Rightarrow> 'a option" where
  "decode_strict store z b = unmarshal store b z"

end
