(* ===== verification/Sha256.thy ===== *)
theory Sha256
  imports Base "HOL-Library.Word"
begin

unbundle bit_operations_syntax

text \<open>
  \<open>crypto/sha256\<close> on 32-bit words, after FIPS 180-4: the digest that the collector compares
  tokens by and makes event keys from.
\<close>

type_synonym w32 = "32 word"

text \<open>
  The constants are the first 32 bits of the fractions of cube roots (for the rounds) and of square
  roots (for the initial state) of the first primes. An integer root is built up bit by bit.
\<close>

definition int_root :: "nat \<Rightarrow> int \<Rightarrow> int" where
  "int_root k n = foldr (\<lambda>i x. if (x + 2 ^ i) ^ k \<le> n then x + 2 ^ i else x) [0..<40] 0"

definition root_fraction :: "nat \<Rightarrow> nat \<Rightarrow> w32" where
  "root_fraction k p = word_of_int (int_root k (int p * 2 ^ (32 * k)))"

definition primes_below :: "nat \<Rightarrow> nat list" where
  "primes_below n = filter (\<lambda>p. list_all (\<lambda>d. p mod d \<noteq> 0) [2..<p]) [2..<n]"

definition round_constants :: "w32 list" where
  "round_constants = map (root_fraction 3) (primes_below 312)"

definition initial_hash :: "w32 list" where
  "initial_hash = map (root_fraction 2) (primes_below 20)"

definition rotr :: "nat \<Rightarrow> w32 \<Rightarrow> w32" where
  "rotr n x = drop_bit n x OR push_bit (32 - n) x"

definition small_sigma0 :: "w32 \<Rightarrow> w32" where
  "small_sigma0 x = rotr 7 x XOR rotr 18 x XOR drop_bit 3 x"

definition small_sigma1 :: "w32 \<Rightarrow> w32" where
  "small_sigma1 x = rotr 17 x XOR rotr 19 x XOR drop_bit 10 x"

definition big_sigma0 :: "w32 \<Rightarrow> w32" where
  "big_sigma0 x = rotr 2 x XOR rotr 13 x XOR rotr 22 x"

definition big_sigma1 :: "w32 \<Rightarrow> w32" where
  "big_sigma1 x = rotr 6 x XOR rotr 11 x XOR rotr 25 x"

text \<open>The message schedule: 48 more words after the sixteen of the block.\<close>

fun schedule :: "nat \<Rightarrow> w32 list \<Rightarrow> w32 list" where
  "schedule 0 w = w"
| "schedule (Suc k) w =
     (let n = length w
      in schedule k (w @ [small_sigma1 (w ! (n - 2)) + w ! (n - 7) + small_sigma0 (w ! (n - 15)) + w ! (n - 16)]))"

type_synonym hash_state = "w32 \<times> w32 \<times> w32 \<times> w32 \<times> w32 \<times> w32 \<times> w32 \<times> w32"

fun hash_round :: "hash_state \<Rightarrow> w32 \<times> w32 \<Rightarrow> hash_state" where
  "hash_round (a, b, c, d, e, f, g, h) (k, w) =
     (let t1 = h + big_sigma1 e + ((e AND f) XOR ((NOT e) AND g)) + k + w;
          t2 = big_sigma0 a + ((a AND b) XOR (a AND c) XOR (b AND c))
      in (t1 + t2, a, b, c, d + t1, e, f, g))"

fun add_states :: "hash_state \<Rightarrow> hash_state \<Rightarrow> hash_state" where
  "add_states (a, b, c, d, e, f, g, h) (a', b', c', d', e', f', g', h') =
     (a + a', b + b', c + c', d + d', e + e', f + f', g + g', h + h')"

definition hash_block :: "hash_state \<Rightarrow> w32 list \<Rightarrow> hash_state" where
  "hash_block st w = add_states st (foldl hash_round st (zip round_constants (schedule 48 w)))"

text \<open>Big-endian words of a byte string whose length is a multiple of four.\<close>

fun words_of :: "bytes \<Rightarrow> w32 list" where
  "words_of (a # b # c # d # r) =
     word_of_int (((of_char a * 256 + of_char b) * 256 + of_char c) * 256 + of_char d) # words_of r"
| "words_of _ = []"

definition be_bytes :: "nat \<Rightarrow> int \<Rightarrow> bytes" where
  "be_bytes n v = map (\<lambda>i. char_of (v div 256 ^ (n - 1 - i) mod 256)) [0..<n]"

definition padded :: "bytes \<Rightarrow> bytes" where
  "padded m =
     (let n = length m; zeros = (119 - n mod 64) mod 64
      in m @ [CHR 0x80] @ replicate zeros (CHR 0x00) @ be_bytes 8 (8 * int n))"

function hash_blocks :: "hash_state \<Rightarrow> w32 list \<Rightarrow> hash_state" where
  "hash_blocks st ws = (if length ws < 16 then st else hash_blocks (hash_block st (take 16 ws)) (drop 16 ws))"
  by pat_completeness auto
termination
  by (relation "measure (\<lambda>(st, ws). length ws)") auto

declare hash_blocks.simps [simp del]

definition initial_state :: hash_state where
  "initial_state =
     (case initial_hash of
        [a, b, c, d, e, f, g, h] \<Rightarrow> (a, b, c, d, e, f, g, h)
      | _ \<Rightarrow> (0, 0, 0, 0, 0, 0, 0, 0))"

definition sha256 :: "bytes \<Rightarrow> bytes" where
  "sha256 m =
     (case hash_blocks initial_state (words_of (padded m)) of
        (a, b, c, d, e, f, g, h) \<Rightarrow>
          concat (map (\<lambda>x. be_bytes 4 (uint x)) [a, b, c, d, e, f, g, h]))"

lemma length_sha256: "length (sha256 m) = 32"
  by (simp add: sha256_def be_bytes_def split: prod.split)

end
