(* ===== verification/Collector_Store.thy ===== *)
theory Collector_Store
  imports Protocol Sha256 Go_Time_Parse "HOL-Library.AList"
begin

text \<open>
  \<open>internal/collector/store.go\<close> on the tables of \<open>migrations/001_init.sql\<close>: the batches and the
  events with their keys, and the last heartbeat of each agent. What the database itself refuses
  (a lost connection, a value that a column cannot hold) is a parameter, as is the text that
  \<open>fmt\<close> prints for a JSON number (\<open>None\<close> where it is out of the range of float64).
\<close>

section \<open>Event keys\<close>

text \<open>\<open>fmt.Sprint\<close> of a decoded value; a map is printed in the order of its keys.\<close>

fun sprint :: "(bytes \<Rightarrow> string option) \<Rightarrow> json \<Rightarrow> string option"
  and sprint_list :: "(bytes \<Rightarrow> string option) \<Rightarrow> json list \<Rightarrow> string list option"
  and sprint_members :: "(bytes \<Rightarrow> string option) \<Rightarrow> (bytes \<times> json) list \<Rightarrow> (bytes \<times> string) list option" where
  "sprint num JNull = Some ''<nil>''"
| "sprint num (JBool b) = Some (if b then ''true'' else ''false'')"
| "sprint num (JNum n) = num n"
| "sprint num (JStr s) = Some s"
| "sprint num (JArr vs) = map_option (\<lambda>ts. ''['' @ join ts '' '' @ '']'') (sprint_list num vs)"
| "sprint num (JObj ms) =
     map_option (\<lambda>ts. ''map['' @ join (map (\<lambda>k. k @ '':'' @ the (map_of (rev ts) k)) (sort (remdups (map fst ts)))) '' '' @ '']'')
       (sprint_members num ms)"
| "sprint_list num [] = Some []"
| "sprint_list num (v # vs) =
     (case (sprint num v, sprint_list num vs) of (Some t, Some ts) \<Rightarrow> Some (t # ts) | _ \<Rightarrow> None)"
| "sprint_members num [] = Some []"
| "sprint_members num ((k, v) # ms) =
     (case (sprint num v, sprint_members num ms) of (Some t, Some ts) \<Rightarrow> Some ((k, t) # ts) | _ \<Rightarrow> None)"

text \<open>The identifier in the payload: a value of any type; null is none.\<close>

definition store_any :: "(bytes \<Rightarrow> string option) \<Rightarrow> json \<Rightarrow> json \<Rightarrow> json \<times> bool" where
  "store_any num v old = (if sprint num v = None then (old, True) else (v, False))"

definition payload_event_id :: "(bytes \<Rightarrow> string option) \<Rightarrow> json \<Rightarrow> string option" where
  "payload_event_id num parsed =
     (case store_struct [''payload''] (\<lambda>f. store_struct [''event_id''] (\<lambda>f. store_any num)) parsed JNull of
        (v, err) \<Rightarrow> if err \<or> v = JNull then None else sprint num v)"

definition hex_encode :: "bytes \<Rightarrow> string" where
  "hex_encode b = concat (map (\<lambda>c. [hex_digit (of_char c div 16), hex_digit (of_char c mod 16)]) b)"

definition raw_hash :: "bytes \<Rightarrow> string" where
  "raw_hash raw = hex_encode (sha256 raw)"

text \<open>The key that deduplicates, and the identifier, empty where there is none.\<close>

definition event_key :: "(bytes \<Rightarrow> string option) \<Rightarrow> event \<Rightarrow> string \<times> string" where
  "event_key num e =
     (let fallback = (''fallback:'' @ ev_received_at e @ '':'' @ raw_hash (ev_raw e), [])
      in case (ev_parse_error e, ev_parsed e) of
           (None, Some p) \<Rightarrow>
             (case payload_event_id num p of
                None \<Rightarrow> fallback
              | Some i \<Rightarrow> if i \<noteq> [] then (''event_id:'' @ i, i) else fallback)
         | _ \<Rightarrow> fallback)"

section \<open>Tables\<close>

record batch_row =
  br_site_id :: string
  br_agent_version :: string
  br_sent_at :: string
  br_event_count :: int

record event_row =
  rw_batch_id :: string
  rw_site_id :: string
  rw_event_id :: "string option"
  rw_received_at :: string
  rw_source_ip :: "string option"
  rw_raw :: bytes
  rw_raw_base64 :: "string option"
  rw_raw_hash :: string
  rw_parsed :: "json option"
  rw_parse_error :: "string option"

record heartbeat_row =
  hr_site_id :: string
  hr_agent_version :: string
  hr_sent_at :: string
  hr_payload :: bytes

text \<open>The rows in the order of their insertion, under their unique keys.\<close>

record tables =
  tb_batches :: "((string \<times> string) \<times> batch_row) list"
  tb_events :: "((string \<times> string) \<times> event_row) list"
  tb_heartbeats :: "(string \<times> heartbeat_row) list"

text \<open>The \<open>uuid\<close> column has no upper case.\<close>

definition pg_uuid :: "string \<Rightarrow> string" where
  "pg_uuid s = map to_lower s"

text \<open>
  What the database answers to the statements of a transaction. A commit whose answer is lost has
  happened although the program sees an error.
\<close>

datatype commit_answer = Done | Failed | Lost

record database =
  db_begin :: bool
  db_batch :: "batch_row \<Rightarrow> bool"
  db_event :: "event_row \<Rightarrow> bool"
  db_heartbeat :: "heartbeat_row \<Rightarrow> bool"
  db_commit :: commit_answer

definition database_ok :: "database \<Rightarrow> bool" where
  "database_ok db \<longleftrightarrow> db_begin db \<and> db_commit db = Done"

section \<open>SaveEvents\<close>

definition null_if_empty :: "string \<Rightarrow> string option" where
  "null_if_empty s = (if s = [] then None else Some s)"

definition parsed_column :: "json option \<Rightarrow> json option" where
  "parsed_column p = (if p = Some JNull then None else p)"

definition event_row_of :: "events_request \<Rightarrow> event \<Rightarrow> string \<Rightarrow> event_row" where
  "event_row_of r e event_id =
     \<lparr>rw_batch_id = er_batch_id r, rw_site_id = er_site_id r, rw_event_id = null_if_empty event_id,
      rw_received_at = ev_received_at e, rw_source_ip = null_if_empty (ev_source_ip e), rw_raw = ev_raw e,
      rw_raw_base64 = null_if_empty (ev_raw_base64 e), rw_raw_hash = raw_hash (ev_raw e),
      rw_parsed = parsed_column (ev_parsed e), rw_parse_error = ev_parse_error e\<rparr>"

text \<open>The loop over the events: \<open>None\<close> where a statement fails, else the table and the count.\<close>

fun insert_events ::
  "(bytes \<Rightarrow> string option) \<Rightarrow> database \<Rightarrow> events_request \<Rightarrow> event list \<Rightarrow> ((string \<times> string) \<times> event_row) list
   \<Rightarrow> (((string \<times> string) \<times> event_row) list \<times> int) option" where
  "insert_events num db r [] t = Some (t, 0)"
| "insert_events num db r (e # es) t =
     (case event_key num e of
        (key, event_id) \<Rightarrow>
          (let row = event_row_of r e event_id; k = (pg_uuid (er_agent_id r), key)
           in if \<not> db_event db row then None
              else if k \<in> set (map fst t) then insert_events num db r es t
              else map_option (\<lambda>(t, n). (t, n + 1)) (insert_events num db r es (t @ [(k, row)]))))"

text \<open>The new tables and the numbers of accepted and duplicated events, or an error.\<close>

definition save_events ::
  "(bytes \<Rightarrow> string option) \<Rightarrow> database \<Rightarrow> events_request \<Rightarrow> tables \<Rightarrow> tables \<times> (int \<times> int) option" where
  "save_events num db r s =
     (let n = int (length (er_events r));
          row = \<lparr>br_site_id = er_site_id r, br_agent_version = er_agent_version r, br_sent_at = er_sent_at r,
                 br_event_count = n\<rparr>;
          k = (pg_uuid (er_agent_id r), er_batch_id r)
      in if \<not> db_begin db \<or> \<not> db_batch db row then (s, None)
         else if k \<in> set (map fst (tb_batches s)) then (s, if db_commit db = Done then Some (0, n) else None)
         else case insert_events num db r (er_events r) (tb_events s) of
           None \<Rightarrow> (s, None)
         | Some (t, accepted) \<Rightarrow>
             let s' = s\<lparr>tb_batches := tb_batches s @ [(k, row)], tb_events := t\<rparr>
             in case db_commit db of
                  Done \<Rightarrow> (s', Some (accepted, n - accepted))
                | Lost \<Rightarrow> (s', None)
                | Failed \<Rightarrow> (s, None))"

section \<open>SaveHeartbeat\<close>

definition save_heartbeat :: "database \<Rightarrow> heartbeat_request \<Rightarrow> bytes \<Rightarrow> tables \<Rightarrow> tables \<times> bool" where
  "save_heartbeat db h raw s =
     (let row = \<lparr>hr_site_id = hq_site_id h, hr_agent_version = hq_agent_version h, hr_sent_at = hq_sent_at h,
                 hr_payload = raw\<rparr>
      in if \<not> db_heartbeat db row then (s, False)
         else (s\<lparr>tb_heartbeats := AList.update (pg_uuid (hq_agent_id h)) row (tb_heartbeats s)\<rparr>, True))"

end
