(* ===== verification/Collector.thy ===== *)
theory Collector
  imports Collector_Store Go_Net
begin

text \<open>
  \<open>internal/collector/server.go\<close> and \<open>config.go\<close>: authorisation, the reading and the validation
  of a request, and the handlers. A request is what the handler reads of it; the state is the
  tables of the store.
\<close>

section \<open>Configuration\<close>

record collector_config =
  cc_listen_addr :: string
  cc_database_url :: string
  cc_tokens :: "string list"
  cc_min_version :: string
  cc_max_body :: int
  cc_read_timeout :: duration
  cc_write_timeout :: duration
  cc_shutdown_timeout :: duration

datatype env_error = BadMaxBody | NoDatabaseUrl | NoTokens

definition default_max_body :: int where "default_max_body = 64 * 2 ^ 20"

definition or_default :: "string \<Rightarrow> string \<Rightarrow> string" where
  "or_default v d = (if v \<noteq> [] then v else d)"

definition tokens_of :: "string \<Rightarrow> string list" where
  "tokens_of v = filter (\<lambda>t. t \<noteq> []) (map trim_space (split_byte CHR '','' v))"

definition max_body_of :: "string \<Rightarrow> int option" where
  "max_body_of v =
     (if v = [] then Some default_max_body
      else case parse_int v of
        (n, None) \<Rightarrow> if n < 1024 then None else Some n
      | (n, Some e) \<Rightarrow> None)"

text \<open>The environment gives each variable's value, empty when it is not set.\<close>

definition config_from_env :: "(string \<Rightarrow> string) \<Rightarrow> env_error + collector_config" where
  "config_from_env env =
     (case max_body_of (env ''MAX_BODY_BYTES'') of
        None \<Rightarrow> Inl BadMaxBody
      | Some n \<Rightarrow>
          if env ''DATABASE_URL'' = [] then Inl NoDatabaseUrl
          else if tokens_of (env ''COLLECTOR_TOKENS'') = [] then Inl NoTokens
          else Inr
            \<lparr>cc_listen_addr = or_default (env ''COLLECTOR_LISTEN_ADDR'') '':8080'',
             cc_database_url = env ''DATABASE_URL'', cc_tokens = tokens_of (env ''COLLECTOR_TOKENS''),
             cc_min_version = or_default (env ''MIN_SUPPORTED_VERSION'') ''1.0.0'', cc_max_body = n,
             cc_read_timeout = 30 * second, cc_write_timeout = 30 * second, cc_shutdown_timeout = 15 * second\<rparr>)"

record server =
  sv_token_hashes :: "bytes list"
  sv_min_version :: string
  sv_max_body :: int

definition new_server :: "collector_config \<Rightarrow> server" where
  "new_server c =
     \<lparr>sv_token_hashes = map sha256 (cc_tokens c), sv_min_version = cc_min_version c, sv_max_body = cc_max_body c\<rparr>"

section \<open>Requests and responses\<close>

record request =
  in_method :: string
  in_path :: string
  in_authorization :: string
  in_content_type :: string
  in_content_encoding :: string
  in_body :: bytes

text \<open>Why a body could not be read; the library's texts are left out.\<close>

datatype body_error = TooLarge | BadContentType | BadGzip | BadEncoding string | ReadFailed

datatype message = Text string | BodyText body_error | JsonText

datatype answer =
    ApiError string message \<comment> \<open>code and message\<close>
  | EventsOk int int int \<comment> \<open>received, accepted, duplicated\<close>
  | HeartbeatOk string \<comment> \<open>the lowest supported version\<close>
  | HealthOk string \<comment> \<open>the server's time\<close>

record response =
  re_status :: int
  re_allow :: string
  re_answer :: answer

definition respond :: "int \<Rightarrow> answer \<Rightarrow> response" where
  "respond status a = \<lparr>re_status = status, re_allow = [], re_answer = a\<rparr>"

definition api_error :: "int \<Rightarrow> string \<Rightarrow> string \<Rightarrow> response" where
  "api_error status code msg = respond status (ApiError code (Text msg))"

definition method_not_allowed :: "string \<Rightarrow> response" where
  "method_not_allowed allow = (api_error 405 ''method_not_allowed'' ''method not allowed'')\<lparr>re_allow := allow\<rparr>"

definition body_error_response :: "body_error \<Rightarrow> response" where
  "body_error_response e =
     (if e = TooLarge then api_error 413 ''batch_too_large'' ''request body too large''
      else respond 400 (ApiError ''invalid_body'' (BodyText e)))"

section \<open>Authorisation\<close>

definition bearer_prefix :: string where "bearer_prefix = ''Bearer ''"

definition authorized :: "server \<Rightarrow> string \<Rightarrow> bool" where
  "authorized sv value \<longleftrightarrow>
     (if \<not> has_prefix value bearer_prefix then False
      else list_ex (\<lambda>want. sha256 (trim_prefix value bearer_prefix) = want) (sv_token_hashes sv))"

section \<open>Reading the body\<close>

text \<open>
  \<open>compress/gzip\<close> over a reader that refuses more than a number of bytes, as a parameter: no
  stream at all, or the data and how it ends.
\<close>

datatype gz_end = GzEnd | GzTooLarge | GzFailed

datatype gz_stream = NoStream | Stream bytes gz_end

definition content_type_ok :: "string \<Rightarrow> bool" where
  "content_type_ok ct \<longleftrightarrow> trim_space (hd (split_byte CHR '';'' ct)) = ''application/json''"

text \<open>
  \<open>strings.ToLower\<close> as far as it matters here: the only letter outside ASCII that becomes one of
  the letters of the encodings is the capital I with a dot.
\<close>

fun lower_text :: "string \<Rightarrow> string" where
  "lower_text [] = []"
| "lower_text (c # s) =
     (if c = CHR 0xC4 \<and> has_prefix s [CHR 0xB0] then CHR ''i'' # lower_text (drop 1 s)
      else to_lower c # lower_text s)"

text \<open>At most one byte more than the limit is read of the data.\<close>

definition read_limited :: "int \<Rightarrow> gz_stream \<Rightarrow> body_error + bytes" where
  "read_limited mx st =
     (case st of
        NoStream \<Rightarrow> Inl BadGzip
      | Stream b e \<Rightarrow>
          if mx < int (length b) then Inl TooLarge
          else (case e of GzEnd \<Rightarrow> Inr b | GzTooLarge \<Rightarrow> Inl TooLarge | GzFailed \<Rightarrow> Inl ReadFailed))"

definition read_body :: "(int \<Rightarrow> bytes \<Rightarrow> gz_stream) \<Rightarrow> server \<Rightarrow> request \<Rightarrow> body_error + bytes" where
  "read_body gunzip sv r =
     (if \<not> content_type_ok (in_content_type r) then Inl BadContentType
      else
        let enc = trim_space (lower_text (in_content_encoding r)); mx = sv_max_body sv
        in if enc = [] then
             read_limited mx (Stream (take_int mx (in_body r)) (if int (length (in_body r)) \<le> mx then GzEnd else GzTooLarge))
           else if enc = ''gzip'' then read_limited mx (gunzip mx (in_body r))
           else Inl (BadEncoding (in_content_encoding r)))"

section \<open>Validation\<close>

text \<open>The message of the first rule that is broken.\<close>

definition validate_common :: "string \<Rightarrow> string \<Rightarrow> string \<Rightarrow> string \<Rightarrow> string option" where
  "validate_common agent_id site_id version sent_at =
     (if \<not> is_uuid agent_id then Some ''agent_id must be a UUID''
      else if \<not> is_site_id site_id then Some ''site_id has an invalid format''
      else if \<not> is_semver version then Some ''agent_version must be semantic versioning''
      else if \<not> has_suffix sent_at ''Z'' \<or> \<not> valid_rfc3339 sent_at
      then Some ''sent_at must be an RFC 3339 UTC timestamp''
      else None)"

definition event_message :: "nat \<Rightarrow> string \<Rightarrow> string" where
  "event_message i msg = ''events['' @ nat_dec i @ '']'' @ msg"

definition validate_event :: "nat \<Rightarrow> event \<Rightarrow> string option" where
  "validate_event i e =
     (if \<not> valid_rfc3339 (ev_received_at e) then Some (event_message i ''.received_at must be RFC 3339'')
      else if ev_raw e = [] then Some (event_message i ''.raw is required'')
      else if ev_source_ip e \<noteq> [] \<and> \<not> is_ip (ev_source_ip e)
      then Some (event_message i ''.source_ip is invalid'')
      else None)"

text \<open>A raw value that has been decoded is valid JSON, so the last check of the loop cannot fail.\<close>

fun validate_event_list :: "nat \<Rightarrow> event list \<Rightarrow> string option" where
  "validate_event_list i [] = None"
| "validate_event_list i (e # es) =
     (case validate_event i e of Some m \<Rightarrow> Some m | None \<Rightarrow> validate_event_list (i + 1) es)"

definition validate_events :: "events_request \<Rightarrow> string option" where
  "validate_events r =
     (case validate_common (er_agent_id r) (er_site_id r) (er_agent_version r) (er_sent_at r) of
        Some m \<Rightarrow> Some m
      | None \<Rightarrow>
          if trim_space (er_batch_id r) = [] then Some ''batch_id is required''
          else if er_events r = [] then Some ''events must not be empty''
          else validate_event_list 0 (er_events r))"

definition bad_time :: "string option \<Rightarrow> bool" where
  "bad_time t \<longleftrightarrow> (case t of None \<Rightarrow> False | Some s \<Rightarrow> \<not> valid_rfc3339 s)"

definition validate_heartbeat :: "heartbeat_request \<Rightarrow> string option" where
  "validate_heartbeat r =
     (case validate_common (hq_agent_id r) (hq_site_id r) (hq_agent_version r) (hq_sent_at r) of
        Some m \<Rightarrow> Some m
      | None \<Rightarrow>
          if hq_hostname r = [] then Some ''hostname is required''
          else if hq_os r = [] then Some ''os is required''
          else if bad_time (hq_last_event_received_at r) then Some ''last_event_received_at must be RFC 3339''
          else if bad_time (hq_last_forward_success_at r) then Some ''last_forward_success_at must be RFC 3339''
          else if list_ex (\<lambda>ip. \<not> is_ip ip) (hq_source_ips r) then Some ''utm_source_ips contains an invalid IP''
          else None)"

section \<open>Handlers\<close>

text \<open>The libraries and the database, as the handlers see them.\<close>

record backend =
  bk_gunzip :: "int \<Rightarrow> bytes \<Rightarrow> gz_stream"
  bk_number :: "bytes \<Rightarrow> string option"
  bk_database :: database
  bk_ping :: bool
  bk_now :: gtime

definition max_events :: nat where "max_events = 10000"

definition storage_unavailable :: response where
  "storage_unavailable = api_error 503 ''unavailable'' ''storage unavailable''"

definition handle_events :: "backend \<Rightarrow> server \<Rightarrow> request \<Rightarrow> tables \<Rightarrow> tables \<times> response" where
  "handle_events bk sv r s =
     (case read_body (bk_gunzip bk) sv r of
        Inl e \<Rightarrow> (s, body_error_response e)
      | Inr body \<Rightarrow>
          (case decode_strict store_events_request zero_events_request body of
             None \<Rightarrow> (s, respond 400 (ApiError ''invalid_json'' JsonText))
           | Some q \<Rightarrow>
               (case validate_events q of
                  Some m \<Rightarrow> (s, api_error 400 ''invalid_batch'' m)
                | None \<Rightarrow>
                    if max_events < length (er_events q)
                    then (s, api_error 413 ''batch_too_large'' ''events must not exceed 10000 items'')
                    else case save_events (bk_number bk) (bk_database bk) q s of
                      (s, None) \<Rightarrow> (s, storage_unavailable)
                    | (s, Some (accepted, duplicated)) \<Rightarrow>
                        (s, respond 200 (EventsOk (int (length (er_events q))) accepted duplicated)))))"

definition handle_heartbeat :: "backend \<Rightarrow> server \<Rightarrow> request \<Rightarrow> tables \<Rightarrow> tables \<times> response" where
  "handle_heartbeat bk sv r s =
     (case read_body (bk_gunzip bk) sv r of
        Inl e \<Rightarrow> (s, body_error_response e)
      | Inr body \<Rightarrow>
          (case decode_strict store_heartbeat_request zero_heartbeat_request body of
             None \<Rightarrow> (s, respond 400 (ApiError ''invalid_json'' JsonText))
           | Some q \<Rightarrow>
               (case validate_heartbeat q of
                  Some m \<Rightarrow> (s, api_error 400 ''invalid_heartbeat'' m)
                | None \<Rightarrow>
                    (case save_heartbeat (bk_database bk) q body s of
                       (s, False) \<Rightarrow> (s, storage_unavailable)
                     | (s, True) \<Rightarrow> (s, respond 200 (HeartbeatOk (sv_min_version sv)))))))"

definition handle_health :: "backend \<Rightarrow> response" where
  "handle_health bk =
     (if \<not> bk_ping bk then api_error 503 ''unavailable'' ''database unavailable''
      else respond 200 (HealthOk (format_utc_millis (bk_now bk))))"

definition serve_http :: "backend \<Rightarrow> server \<Rightarrow> request \<Rightarrow> tables \<Rightarrow> tables \<times> response" where
  "serve_http bk sv r s =
     (if \<not> authorized sv (in_authorization r) then (s, api_error 401 ''unauthorized'' ''invalid bearer token'')
      else if in_path r = ''/healthz'' then
        (if in_method r \<noteq> ''GET'' then (s, method_not_allowed ''GET'') else (s, handle_health bk))
      else if in_path r = ''/events'' then
        (if in_method r \<noteq> ''POST'' then (s, method_not_allowed ''POST'') else handle_events bk sv r s)
      else if in_path r = ''/heartbeat'' then
        (if in_method r \<noteq> ''POST'' then (s, method_not_allowed ''POST'') else handle_heartbeat bk sv r s)
      else (s, api_error 404 ''not_found'' ''endpoint not found''))"

text \<open>The body of a response, as the encoder prints it; the keys of a map are sorted.\<close>

definition message_text :: "(message \<Rightarrow> string) \<Rightarrow> message \<Rightarrow> string" where
  "message_text lib m = (case m of Text t \<Rightarrow> t | _ \<Rightarrow> lib m)"

definition answer_json :: "(message \<Rightarrow> string) \<Rightarrow> answer \<Rightarrow> json" where
  "answer_json lib a =
     (case a of
        ApiError code m \<Rightarrow>
          JObj [(''ok'', JBool False),
                (''error'', JObj [(''code'', JStr code), (''message'', JStr (message_text lib m))])]
      | EventsOk n k d \<Rightarrow>
          JObj [(''ok'', JBool True), (''received'', jint n), (''accepted'', jint k), (''duplicated'', jint d)]
      | HeartbeatOk v \<Rightarrow> JObj [(''min_supported_version'', JStr v), (''ok'', JBool True)]
      | HealthOk t \<Rightarrow> JObj [(''ok'', JBool True), (''server_time'', JStr t)])"

end
