(* ===== verification/Collector_Store_Facts.thy ===== *)
theory Collector_Store_Facts
  imports Collector_Store
begin

text \<open>
  What the collector's store promises: rows go in under keys that stay unique, the first event of
  a key wins, a batch is stored as a whole or not at all, and storing a batch again changes
  nothing, so that repeated deliveries have the effect of one.
\<close>

section \<open>Tables with unique keys\<close>

text \<open>\<open>ON CONFLICT DO NOTHING\<close> for rows that come one after the other.\<close>

fun add_rows :: "('k \<times> 'v) list \<Rightarrow> ('k \<times> 'v) list \<Rightarrow> ('k \<times> 'v) list" where
  "add_rows t [] = t"
| "add_rows t ((k, v) # rows) = add_rows (if k \<in> set (map fst t) then t else t @ [(k, v)]) rows"

lemma add_rows_distinct: "distinct (map fst t) \<Longrightarrow> distinct (map fst (add_rows t rows))"
  by (induction t rows rule: add_rows.induct) auto

lemma add_rows_lookup: "map_of (add_rows t rows) = map_of rows ++ map_of t"
proof (induction t rows rule: add_rows.induct)
  case (2 t k v rows)
  have "map_of (if k \<in> set (map fst t) then t else t @ [(k, v)]) = [k \<mapsto> v] ++ map_of t"
    by (auto simp: map_add_def fun_eq_iff map_of_eq_None_iff split: option.splits)
  with 2 show ?case
    by (auto simp: map_add_def fun_eq_iff split: option.splits)
qed simp

lemma add_rows_keys: "set (map fst (add_rows t rows)) = set (map fst t) \<union> set (map fst rows)"
  by (induction t rows rule: add_rows.induct) auto

lemma add_rows_rows: "set (add_rows t rows) \<subseteq> set t \<union> set rows"
  by (induction t rows rule: add_rows.induct) (auto split: if_splits)

lemma add_rows_prefix: "\<exists>u. add_rows t rows = t @ u \<and> set u \<subseteq> set rows \<and> length u \<le> length rows"
proof (induction t rows rule: add_rows.induct)
  case (2 t k v rows)
  from "2.IH" obtain u where u: "add_rows t ((k, v) # rows) = (if k \<in> set (map fst t) then t else t @ [(k, v)]) @ u"
    "set u \<subseteq> set rows" "length u \<le> length rows" by auto
  show ?case
  proof (cases "k \<in> set (map fst t)")
    case True
    with u show ?thesis by (intro exI [of _ u]) auto
  next
    case False
    with u show ?thesis by (intro exI [of _ "(k, v) # u"]) auto
  qed
qed simp

lemma add_rows_same: "set (map fst rows) \<subseteq> set (map fst t) \<Longrightarrow> add_rows t rows = t"
  by (induction t rows rule: add_rows.induct) auto

lemma length_add_rows:
  assumes "distinct (map fst t)"
  shows "length (add_rows t rows) = length t + card (set (map fst rows) - set (map fst t))"
proof -
  have "length (add_rows t rows) = card (set (map fst t) \<union> set (map fst rows))"
    using distinct_card [OF add_rows_distinct [OF assms, of rows]] add_rows_keys [of t rows] by simp
  moreover have "set (map fst t) \<union> set (map fst rows) = set (map fst t) \<union> (set (map fst rows) - set (map fst t))" by auto
  moreover have "card (set (map fst t) \<union> (set (map fst rows) - set (map fst t)))
    = card (set (map fst t)) + card (set (map fst rows) - set (map fst t))"
    by (rule card_Un_disjoint) auto
  moreover have "card (set (map fst t)) = length t" using distinct_card [OF assms] by simp
  ultimately show ?thesis by simp
qed

section \<open>The rows of a batch\<close>

definition event_entry :: "(bytes \<Rightarrow> string option) \<Rightarrow> events_request \<Rightarrow> event \<Rightarrow> (string \<times> string) \<times> event_row" where
  "event_entry num r e =
     ((pg_uuid (er_agent_id r), fst (event_key num e)), event_row_of r e (snd (event_key num e)))"

definition event_entries :: "(bytes \<Rightarrow> string option) \<Rightarrow> events_request \<Rightarrow> ((string \<times> string) \<times> event_row) list" where
  "event_entries num r = map (event_entry num r) (er_events r)"

definition batch_key :: "events_request \<Rightarrow> string \<times> string" where
  "batch_key r = (pg_uuid (er_agent_id r), er_batch_id r)"

definition batch_row_of :: "events_request \<Rightarrow> batch_row" where
  "batch_row_of r =
     \<lparr>br_site_id = er_site_id r, br_agent_version = er_agent_version r, br_sent_at = er_sent_at r,
      br_event_count = int (length (er_events r))\<rparr>"

lemma insert_events_rows:
  "insert_events num db r es t = Some (t', n) \<Longrightarrow>
   t' = add_rows t (map (event_entry num r) es) \<and> n = int (length t') - int (length t)"
proof (induction num db r es t arbitrary: t' n rule: insert_events.induct)
  case (2 num db r e es t)
  obtain key i where k: "event_key num e = (key, i)" by (cases "event_key num e")
  show ?case
  proof (cases "(pg_uuid (er_agent_id r), key) \<in> set (map fst t)")
    case True
    with 2 k show ?thesis by (auto simp: event_entry_def Let_def split: if_splits)
  next
    case False
    with "2.prems" k obtain t1 n1 where "insert_events num db r es (t @ [((pg_uuid (er_agent_id r), key), event_row_of r e i)]) = Some (t1, n1)"
      "t' = t1" "n = n1 + 1"
      by (auto simp: Let_def split: if_splits)
    with "2.IH"(2) [OF k [symmetric] refl refl] False "2.prems" k show ?thesis
      by (auto simp: event_entry_def Let_def split: if_splits)
  qed
qed simp

text \<open>The tables after a batch has been stored.\<close>

definition add_batch :: "(bytes \<Rightarrow> string option) \<Rightarrow> events_request \<Rightarrow> tables \<Rightarrow> tables" where
  "add_batch num r s =
     s\<lparr>tb_batches := tb_batches s @ [(batch_key r, batch_row_of r)],
       tb_events := add_rows (tb_events s) (event_entries num r)\<rparr>"

definition has_batch :: "events_request \<Rightarrow> tables \<Rightarrow> bool" where
  "has_batch r s \<longleftrightarrow> batch_key r \<in> set (map fst (tb_batches s))"

lemma save_events_alt:
  "save_events num db r s =
     (if \<not> db_begin db \<or> \<not> db_batch db (batch_row_of r) then (s, None)
      else if has_batch r s then (s, if db_commit db = Done then Some (0, int (length (er_events r))) else None)
      else case insert_events num db r (er_events r) (tb_events s) of
        None \<Rightarrow> (s, None)
      | Some (t, k) \<Rightarrow>
          (case db_commit db of
             Done \<Rightarrow> (add_batch num r s, Some (k, int (length (er_events r)) - k))
           | Lost \<Rightarrow> (add_batch num r s, None)
           | Failed \<Rightarrow> (s, None)))"
  by (auto simp: save_events_def Let_def batch_row_of_def batch_key_def has_batch_def add_batch_def event_entries_def
      dest!: insert_events_rows split: option.splits commit_answer.splits)

text \<open>Every outcome of \<open>SaveEvents\<close>.\<close>

lemma save_events_cases:
  assumes "save_events num db r s = (s', out)"
  obtains
    (unchanged) "s' = s" "out = None"
  | (again) "s' = s" "has_batch r s" "out = Some (0, int (length (er_events r)))" "db_commit db = Done"
  | (stored) k where "s' = add_batch num r s" "\<not> has_batch r s" "db_commit db = Done"
      "out = Some (k, int (length (er_events r)) - k)" "k = int (length (tb_events s')) - int (length (tb_events s))"
  | (lost) "s' = add_batch num r s" "\<not> has_batch r s" "db_commit db = Lost" "out = None"
proof (cases "insert_events num db r (er_events r) (tb_events s)")
  case None
  with assms show ?thesis
    by (auto simp: save_events_alt intro: unchanged again split: if_splits)
next
  case (Some x)
  then obtain t n where x: "insert_events num db r (er_events r) (tb_events s) = Some (t, n)" by (cases x) auto
  from insert_events_rows [OF x] have "n = int (length (tb_events (add_batch num r s))) - int (length (tb_events s))"
    by (simp add: event_entries_def add_batch_def)
  with assms x show ?thesis
    by (cases "db_commit db") (auto simp: save_events_alt intro: unchanged again stored lost split: if_splits)
qed

text \<open>Without a fault the batch is stored.\<close>

lemma insert_events_total:
  "\<forall>row. db_event db row \<Longrightarrow> \<exists>x. insert_events num db r es t = Some x"
  by (induction num db r es t rule: insert_events.induct) (auto simp: Let_def split: prod.splits)

lemma has_batch_add [simp]: "has_batch r (add_batch num r s)"
  by (simp add: has_batch_def add_batch_def)

section \<open>Deliveries that are repeated\<close>

text \<open>
  A store whose operation may fail before or after its effect, or find the request done already:
  what a client that repeats its request may rely on.
\<close>

locale repeatable_store =
  fixes save :: "'x \<Rightarrow> 'r \<Rightarrow> 's \<Rightarrow> 's \<times> 'o option"
    and add :: "'r \<Rightarrow> 's \<Rightarrow> 's" and seen :: "'r \<Rightarrow> 's \<Rightarrow> bool"
  assumes save_effect: "save x r s = (s', out) \<Longrightarrow> s' = s \<or> s' = add r s \<and> \<not> seen r s"
    and save_answer: "save x r s = (s', Some y) \<Longrightarrow> seen r s'"
    and seen_add: "seen r (add r s)"
begin

text \<open>The same request over and over, with what happens to it each time.\<close>

fun repeat_save :: "'x list \<Rightarrow> 'r \<Rightarrow> 's \<Rightarrow> 's \<times> 'o option list" where
  "repeat_save [] r s = (s, [])"
| "repeat_save (x # xs) r s =
     (case save x r s of (s', y) \<Rightarrow> (case repeat_save xs r s' of (s'', ys) \<Rightarrow> (s'', y # ys)))"

lemma repeat_save_seen: "seen r s \<Longrightarrow> fst (repeat_save xs r s) = s"
proof (induction xs arbitrary: s)
  case (Cons x xs)
  obtain s' y where s': "save x r s = (s', y)" by (cases "save x r s")
  with save_effect [OF s'] Cons show ?case by (auto simp: case_prod_unfold)
qed simp

lemma repeat_save_once:
  "fst (repeat_save xs r s) = s \<or> fst (repeat_save xs r s) = add r s \<and> \<not> seen r s"
proof (induction xs arbitrary: s)
  case (Cons x xs)
  obtain s' y where s': "save x r s = (s', y)" by (cases "save x r s")
  then have f: "fst (repeat_save (x # xs) r s) = fst (repeat_save xs r s')" by (simp add: case_prod_unfold)
  from save_effect [OF s'] consider "s' = s" | "s' = add r s" "\<not> seen r s" by blast
  then show ?case
  proof cases
    case 1
    with Cons.IH [of s'] f show ?thesis by simp
  next
    case 2
    with repeat_save_seen [of r s' xs] seen_add [of r s] f show ?thesis by simp
  qed
qed simp

lemma repeat_save_answered:
  "Some y \<in> set (snd (repeat_save xs r s)) \<Longrightarrow> seen r (fst (repeat_save xs r s))"
proof (induction xs arbitrary: s)
  case (Cons x xs)
  obtain s' z where s': "save x r s = (s', z)" by (cases "save x r s")
  with Cons.prems consider "z = Some y" | "Some y \<in> set (snd (repeat_save xs r s'))" by (auto simp: case_prod_unfold)
  then show ?case
  proof cases
    case 1
    with s' save_answer have "seen r s'" by blast
    with repeat_save_seen [of r s' xs] s' show ?thesis by (simp add: case_prod_unfold)
  next
    case 2
    with Cons.IH [of s'] s' show ?thesis by (simp add: case_prod_unfold)
  qed
qed simp

text \<open>Once an answer has come, the request has taken effect exactly once.\<close>

lemma repeat_save_exactly_once:
  "Some y \<in> set (snd (repeat_save xs r s)) \<Longrightarrow> fst (repeat_save xs r s) = (if seen r s then s else add r s)"
  using repeat_save_answered [of y xs r s] repeat_save_once [of xs r s] seen_add [of r s] by auto

end

text \<open>
  Requests that differ but stand for the same thing, as the same batch sent at different times:
  only the first one that takes effect is stored.
\<close>

locale repeatable_batch = repeatable_store save add seen
  for save :: "'x \<Rightarrow> 'r \<Rightarrow> 's \<Rightarrow> 's \<times> 'o option" and add :: "'r \<Rightarrow> 's \<Rightarrow> 's" and seen :: "'r \<Rightarrow> 's \<Rightarrow> bool" +
  fixes key :: "'r \<Rightarrow> 'k"
  assumes seen_key: "key r = key r' \<Longrightarrow> seen r s = seen r' s"
begin

definition once :: "'r set \<Rightarrow> 's \<Rightarrow> 's \<Rightarrow> bool" where
  "once R s s' \<longleftrightarrow> s' = s \<or> (\<exists>r\<in>R. s' = add r s \<and> \<not> seen r s)"

lemma once_refl: "once R s s"
  by (simp add: once_def)

lemma once_mono: "once R s s' \<Longrightarrow> R \<subseteq> R' \<Longrightarrow> once R' s s'"
  by (auto simp: once_def)

lemma once_save: "save x r s = (s', out) \<Longrightarrow> once {r} s s'"
  by (auto simp: once_def dest: save_effect)

lemma once_keeps: "once R s s' \<Longrightarrow> seen r s \<Longrightarrow> \<forall>q\<in>R. key q = key r \<Longrightarrow> s' = s"
  unfolding once_def using seen_key by blast

lemma once_trans:
  assumes "once R s s1" "once R s1 s2" "\<forall>q\<in>R. \<forall>r\<in>R. key q = key r"
  shows "once R s s2"
proof (cases "s1 = s")
  case False
  with assms(1) obtain r where r: "r \<in> R" "s1 = add r s" by (auto simp: once_def)
  then have "seen r s1" using seen_add by simp
  with once_keeps [OF assms(2), of r] r(1) assms(3) have "s2 = s1" by blast
  with assms(1) show ?thesis by simp
qed (use assms(2) in simp)

end

lemma save_events_effect:
  "save_events num db r s = (s', out) \<Longrightarrow> s' = s \<or> s' = add_batch num r s \<and> \<not> has_batch r s"
  by (erule save_events_cases) simp_all

lemma save_events_answer: "save_events num db r s = (s', Some y) \<Longrightarrow> has_batch r s'"
  by (erule save_events_cases) simp_all

interpretation pg: repeatable_store "save_events num" "add_batch num" has_batch for num
  by unfold_locales (fact save_events_effect, fact save_events_answer, fact has_batch_add)

interpretation same: repeatable_batch "save_events num" "add_batch num" has_batch batch_key for num
  by unfold_locales (simp add: has_batch_def)

definition keys_unique :: "tables \<Rightarrow> bool" where
  "keys_unique s \<longleftrightarrow>
     distinct (map fst (tb_batches s)) \<and> distinct (map fst (tb_events s)) \<and> distinct (map fst (tb_heartbeats s))"

text \<open>
  C25: What \<open>SaveEvents\<close> reports and does for a new batch: every event is either accepted or a
  duplicate, the accepted ones are exactly the keys not stored before, and for each key the row
  is the one stored before, or else that of the batch's first event with the key.
\<close>

theorem save_events_exact:
  assumes "save_events num db r s = (s', Some (accepted, duplicated))"
    and "\<not> has_batch r s" and "keys_unique s"
  shows "accepted + duplicated = int (length (er_events r))
    \<and> accepted = int (card (set (map fst (event_entries num r)) - set (map fst (tb_events s))))
    \<and> map_of (tb_events s') = map_of (event_entries num r) ++ map_of (tb_events s)
    \<and> tb_batches s' = tb_batches s @ [(batch_key r, batch_row_of r)] \<and> tb_heartbeats s' = tb_heartbeats s"
  using assms(1)
proof (cases rule: save_events_cases)
  case (stored k)
  then show ?thesis
    using assms(3) length_add_rows [of "tb_events s" "event_entries num r"]
    by (simp add: add_batch_def add_rows_lookup keys_unique_def)
qed (use assms(2) in simp_all)

definition empty_tables :: tables where
  "empty_tables = \<lparr>tb_batches = [], tb_events = [], tb_heartbeats = []\<rparr>"

definition working_database :: database where
  "working_database =
     \<lparr>db_begin = True, db_batch = (\<lambda>row. True), db_event = (\<lambda>row. True), db_heartbeat = (\<lambda>row. True),
      db_commit = Done\<rparr>"

definition example_request :: events_request where
  "example_request =
     \<lparr>er_agent_id = ''01234567-89ab-cdef-0123-456789abcdef'', er_site_id = ''site-1'',
      er_agent_version = ''1.0.0'', er_batch_id = ''b1'', er_sent_at = ''2024-02-29T00:00:00.000Z'',
      er_events =
        [zero_event\<lparr>ev_received_at := ''2024-02-29T00:00:00.000000Z'', ev_raw := ''one''\<rparr>,
         zero_event\<lparr>ev_received_at := ''2024-02-29T00:00:00.000000Z'', ev_raw := ''one''\<rparr>]\<rparr>"

lemma empty_tables_unique: "keys_unique empty_tables"
  by (simp add: keys_unique_def empty_tables_def)

lemma not_in_empty_tables: "\<not> has_batch r empty_tables"
  by (simp add: has_batch_def empty_tables_def)

lemma working_database_saves:
  assumes "\<not> has_batch r s"
  shows "\<exists>k. save_events num working_database r s = (add_batch num r s, Some (k, int (length (er_events r)) - k))"
proof -
  obtain x where "insert_events num working_database r (er_events r) (tb_events s) = Some x"
    using insert_events_total [of working_database num r "er_events r" "tb_events s"]
    by (auto simp: working_database_def)
  with assms show ?thesis
    by (cases x) (simp add: save_events_alt working_database_def)
qed

text \<open>A database that takes everything.\<close>

definition takes_all :: "database \<Rightarrow> bool" where
  "takes_all db \<longleftrightarrow> database_ok db \<and> (\<forall>row. db_batch db row) \<and> (\<forall>row. db_event db row)"

lemma takes_all_saves: "takes_all db \<Longrightarrow> \<exists>s' x. save_events num db r s = (s', Some x)"
  using insert_events_total [of db num r "er_events r" "tb_events s"]
  by (auto simp: save_events_alt takes_all_def database_ok_def)

theorem save_events_exact_witness:
  "\<exists>s'. save_events Some working_database example_request empty_tables = (s', Some (1, 1))"
proof -
  obtain k where k: "save_events Some working_database example_request empty_tables
    = (add_batch Some example_request empty_tables, Some (k, 2 - k))"
    using working_database_saves [OF not_in_empty_tables, of Some example_request]
    by (auto simp: example_request_def)
  have "map fst (event_entries Some example_request)
    = replicate 2 (fst (event_entry Some example_request (hd (er_events example_request))))"
    by (simp add: event_entries_def example_request_def event_entry_def numeral_2_eq_2)
  then have "k = 1"
    using save_events_exact [OF k not_in_empty_tables empty_tables_unique] by (simp add: empty_tables_def)
  with k show ?thesis by simp
qed

text \<open>
  C24: However often a batch is sent, with whatever happens to each request (failures, commits
  whose answer is lost, repetitions after a success), the tables are as if it had been stored once
  when one of the requests was answered, and as if once or never otherwise.
\<close>

theorem save_events_exactly_once:
  assumes "pg.repeat_save num dbs r s = (s', answers)"
  shows "(s' = s \<or> s' = add_batch num r s \<and> \<not> has_batch r s)
    \<and> ((\<exists>y. Some y \<in> set answers) \<longrightarrow> s' = (if has_batch r s then s else add_batch num r s))"
  using assms pg.repeat_save_once [of num dbs r s] pg.repeat_save_exactly_once [of _ num dbs r s] by force

theorem save_events_exactly_once_witness:
  "fst (pg.repeat_save Some [working_database\<lparr>db_commit := Lost\<rparr>, working_database, working_database]
      example_request empty_tables) = add_batch Some example_request empty_tables"
proof -
  let ?num = Some and ?dbs = "[working_database\<lparr>db_commit := Lost\<rparr>, working_database, working_database]"
  obtain s' ys where run: "pg.repeat_save ?num ?dbs example_request empty_tables = (s', ys)"
    by (cases "pg.repeat_save ?num ?dbs example_request empty_tables")
  obtain x s1 where x: "save_events ?num (working_database\<lparr>db_commit := Lost\<rparr>) example_request empty_tables = (s1, x)"
    by (cases "save_events ?num (working_database\<lparr>db_commit := Lost\<rparr>) example_request empty_tables")
  have "\<exists>y. snd (save_events ?num working_database example_request s1) = Some y"
    using working_database_saves [of example_request s1 ?num] save_events_alt [of ?num working_database example_request s1]
    by (cases "has_batch example_request s1") (auto simp: working_database_def)
  with run x have "\<exists>y. Some y \<in> set ys" by (fastforce split: prod.splits)
  with save_events_exactly_once [OF run] run show ?thesis by (auto simp: not_in_empty_tables)
qed

end
