(* ===== verification/Json_Accept.thy ===== *)
theory Json_Accept
  imports Json_Print
begin

text \<open>
  The scanner and the parser on printed trees: a tree whose strings are UTF-8 and whose numbers
  are integers is printed as valid JSON that is parsed to the same tree.
\<close>

section \<open>Acceptance\<close>

text \<open>Whether the scanner accepts the rest of a text from a state on.\<close>

fun accepts :: "jscan \<Rightarrow> bytes \<Rightarrow> bool" where
  "accepts st [] = scan_eof st"
| "accepts st (c # cs) = (case scan_step st c of None \<Rightarrow> False | Some (k, st') \<Rightarrow> accepts st' cs)"

lemma accepts_run: "scan_run st s = Some (out, st') \<Longrightarrow> accepts st (s @ t) = accepts st' t"
  by (induction s arbitrary: st out) (auto split: option.splits)

lemma accepts_iff: "accepts st s \<longleftrightarrow> (case scan_run st s of None \<Rightarrow> False | Some (out, st') \<Rightarrow> scan_eof st')"
  by (induction s arbitrary: st) (auto split: option.splits)

lemma json_valid_accepts: "json_valid s \<longleftrightarrow> accepts scan_init s"
  by (auto simp: json_valid_def json_compact_def accepts_iff split: option.splits)

lemma accepts_end_top [simp]: "accepts (EndTop, []) r = accepts (EndValue, []) r"
  by (cases r) (auto simp: scan_eof_def end_value_def json_space_def)

text \<open>What follows a number must not continue it.\<close>

definition stops :: "bytes \<Rightarrow> bool" where
  "stops r \<longleftrightarrow> r = [] \<or> \<not> number_char (hd r)"

lemma stops_Nil [simp]: "stops []"
  by (simp add: stops_def)

lemma stops_Cons [simp]: "stops (c # r) \<longleftrightarrow> \<not> number_char c"
  by (simp add: stops_def)

lemma not_number_char [simp]:
  "\<not> number_char CHR '',''" "\<not> number_char CHR ''}''" "\<not> number_char CHR '']''" "\<not> number_char CHR '':''"
  "\<not> number_char CHR 0x22" "\<not> number_char CHR ''{''" "\<not> number_char CHR ''[''"
  by (simp_all add: number_char_def is_digit_of_char)

lemma accepts_number:
  assumes "num_end q" "stops r"
  shows "accepts (q, ks) r = accepts (EndValue, ks) r"
proof (cases r)
  case Nil
  then show ?thesis using assms(1) by (auto simp: scan_eof_def num_end_def is_digit_of_char)
next
  case (Cons c cs)
  with assms(2) have "scan_step (q, ks) c = end_value ks c"
    using assms(1) by (auto simp: num_end_def number_char_def)
  with Cons show ?thesis by simp
qed

declare accepts.simps(2) [simp del]

lemmas accepts_Cons = accepts.simps(2)

section \<open>Printed trees\<close>

fun printable :: "json \<Rightarrow> bool" where
  "printable JNull = True"
| "printable (JBool b) = True"
| "printable (JNum n) = (\<exists>i. n = int_dec i)"
| "printable (JStr s) = utf8_valid s"
| "printable (JArr vs) = (\<forall>v\<in>set vs. printable v)"
| "printable (JObj ms) = (\<forall>m\<in>set ms. utf8_valid (fst m) \<and> printable (snd m))"

text \<open>The objects and arrays that are open at the same time.\<close>

fun height :: "json \<Rightarrow> nat" where
  "height (JArr vs) = Suc (foldr (\<lambda>v n. max (height v) n) vs 0)"
| "height (JObj ms) = Suc (foldr (\<lambda>m n. max (height (snd m)) n) ms 0)"
| "height v = 0"

lemma height_element: "v \<in> set vs \<Longrightarrow> height v < height (JArr vs)"
  by (induction vs) (auto simp: less_Suc_eq_le max_def)

lemma height_member: "(k, v) \<in> set ms \<Longrightarrow> height v < height (JObj ms)"
  by (induction ms) (auto simp: less_Suc_eq_le max_def)

text \<open>A printed value starts with a byte that is neither white space nor a closing bracket.\<close>

lemma print_json_head:
  assumes "printable v"
  obtains c t where "print_json json_quote v = c # t" "\<not> json_space c" "c \<noteq> CHR '']''" "c \<noteq> CHR ''}''"
proof (cases v)
  case (JNum n)
  with assms obtain i where n: "n = int_dec i" by auto
  obtain c t where "int_dec i = c # t" "is_digit c \<or> c = CHR ''-''" using int_dec_head by blast
  with JNum n show ?thesis by (intro that [of c t]) (auto simp: json_space_def is_digit_of_char)
next
  case (JBool b)
  then show ?thesis by (cases b) (auto intro!: that simp: json_space_def)
qed (auto intro!: that simp: json_null_def json_quote_def json_space_def)

lemma print_elements_head:
  assumes "\<forall>v\<in>set vs. printable v" "vs \<noteq> []"
  obtains c t where "print_elements json_quote vs = c # t" "\<not> json_space c" "c \<noteq> CHR '']''"
proof (cases vs)
  case (Cons v vs')
  with assms(1) have "printable v" by simp
  then obtain c t where c: "print_json json_quote v = c # t" "\<not> json_space c" "c \<noteq> CHR '']''"
    by (rule print_json_head)
  with Cons show ?thesis by (intro that [of c "t @ (if vs' = [] then [] else '','' @ print_elements json_quote vs')"]) auto
qed (use assms(2) in simp)

lemma skip_space_print:
  assumes "printable v"
  shows "skip_space (print_json json_quote v @ r) = print_json json_quote v @ r"
  using print_json_head [OF assms] by (metis append_Cons dropWhile.simps(2) skip_space_def)

text \<open>The scanner on a printed value.\<close>

lemma accepts_quote: "accepts (BeginValue, ks) (json_quote s @ r) = accepts (EndValue, ks) r"
  by (rule accepts_run [OF scan_json_quote])

lemma scan_quoted_key: "scan_run (BeginString, ks) (json_quote s) = Some (json_quote s, EndValue, ks)"
  by (simp add: json_quote_def scan_run_append scan_quote_body step_defs)

lemma accepts_key: "accepts (BeginString, ks) (json_quote s @ r) = accepts (EndValue, ks) r"
  by (rule accepts_run [OF scan_quoted_key])

text \<open>Punctuation.\<close>

lemma accepts_punct:
  "accepts (EndValue, ArrayValue # ks) (CHR '','' # r) = accepts (BeginValue, ArrayValue # ks) r"
  "accepts (EndValue, ArrayValue # ks) (CHR '']'' # r) = accepts (EndValue, ks) r"
  "accepts (EndValue, ObjectKey # ks) (CHR '':'' # r) = accepts (BeginValue, ObjectValue # ks) r"
  "accepts (EndValue, ObjectValue # ks) (CHR '','' # r) = accepts (BeginString, ObjectKey # ks) r"
  "accepts (EndValue, ObjectValue # ks) (CHR ''}'' # r) = accepts (EndValue, ks) r"
  "length ks < max_nesting_depth \<Longrightarrow>
   accepts (BeginValue, ks) (CHR ''['' # r) = accepts (BeginValueOrEmpty, ArrayValue # ks) r"
  "length ks < max_nesting_depth \<Longrightarrow>
   accepts (BeginValue, ks) (CHR ''{'' # r) = accepts (BeginStringOrEmpty, ObjectKey # ks) r"
  "accepts (BeginValueOrEmpty, ArrayValue # ks) (CHR '']'' # r) = accepts (EndValue, ks) r"
  "accepts (BeginStringOrEmpty, ObjectKey # ks) (CHR ''}'' # r) = accepts (EndValue, ks) r"
  by (cases ks; simp add: accepts_Cons step_defs)+

definition accepts_value :: "json \<Rightarrow> bool" where
  "accepts_value v \<longleftrightarrow>
     (\<forall>r ks. stops r \<and> length ks + height v \<le> max_nesting_depth \<longrightarrow>
        accepts (BeginValue, ks) (print_json json_quote v @ r) = accepts (EndValue, ks) r)"

lemma accepts_valueD:
  "accepts_value v \<Longrightarrow> stops r \<Longrightarrow> length ks + height v \<le> max_nesting_depth \<Longrightarrow>
   accepts (BeginValue, ks) (print_json json_quote v @ r) = accepts (EndValue, ks) r"
  by (simp add: accepts_value_def)

lemma accepts_elements:
  assumes "\<forall>v\<in>set vs. accepts_value v \<and> Suc (length ks + height v) \<le> max_nesting_depth" "vs \<noteq> []"
  shows "accepts (BeginValue, ArrayValue # ks) (print_elements json_quote vs @ CHR '']'' # r) = accepts (EndValue, ks) r"
  using assms
proof (induction vs)
  case (Cons v vs)
  then show ?case
    using accepts_valueD [of v "CHR '']'' # r" "ArrayValue # ks"]
      accepts_valueD [of v "CHR '','' # print_elements json_quote vs @ CHR '']'' # r" "ArrayValue # ks"]
    by (cases "vs = []") (simp_all add: accepts_punct)
qed simp

lemma accepts_members:
  assumes "\<forall>m\<in>set ms. accepts_value (snd m) \<and> Suc (length ks + height (snd m)) \<le> max_nesting_depth" "ms \<noteq> []"
  shows "accepts (BeginString, ObjectKey # ks) (print_members json_quote ms @ CHR ''}'' # r) = accepts (EndValue, ks) r"
  using assms
proof (induction ms)
  case (Cons m ms)
  then show ?case
    using accepts_valueD [of "snd m" "CHR ''}'' # r" "ObjectValue # ks"]
      accepts_valueD [of "snd m" "CHR '','' # print_members json_quote ms @ CHR ''}'' # r" "ObjectValue # ks"]
    by (cases m; cases "ms = []") (simp_all add: accepts_punct accepts_key)
qed simp

lemma begin_or_empty:
  "\<not> json_space c \<Longrightarrow> c \<noteq> CHR '']'' \<Longrightarrow> accepts (BeginValueOrEmpty, ks) (c # r) = accepts (BeginValue, ks) (c # r)"
  by (simp add: accepts_Cons begin_value_def)

lemma begin_string_or_empty:
  "accepts (BeginStringOrEmpty, ks) (json_quote s @ r) = accepts (BeginString, ks) (json_quote s @ r)"
  by (simp add: json_quote_def accepts_Cons begin_string_def json_space_def)

lemma accepts_print: "printable v \<Longrightarrow> accepts_value v"
proof (induction v)
  case (JArr vs)
  show ?case unfolding accepts_value_def
  proof (intro allI impI, elim conjE)
    fix r and ks :: "pstate list" assume r: "stops r" "length ks + height (JArr vs) \<le> max_nesting_depth"
    then have k: "length ks < max_nesting_depth" by simp
    show "accepts (BeginValue, ks) (print_json json_quote (JArr vs) @ r) = accepts (EndValue, ks) r"
    proof (cases vs)
      case Nil
      with k show ?thesis by (simp add: accepts_punct)
    next
      case (Cons v vs')
      obtain c t where c: "print_elements json_quote vs = c # t" "\<not> json_space c" "c \<noteq> CHR '']''"
        by (rule print_elements_head [of vs]) (use JArr.prems Cons in simp_all)
      have "\<forall>v\<in>set vs. accepts_value v \<and> Suc (length ks + height v) \<le> max_nesting_depth"
        using JArr height_element r(2) by fastforce
      from accepts_elements [OF this, of r] c Cons
      have "accepts (BeginValue, ArrayValue # ks) (c # t @ CHR '']'' # r) = accepts (EndValue, ks) r"
        by (simp del: print_elements.simps)
      with k c begin_or_empty [OF c(2,3)] show ?thesis by (simp add: accepts_punct)
    qed
  qed
next
  case (JObj ms)
  show ?case unfolding accepts_value_def
  proof (intro allI impI, elim conjE)
    fix r and ks :: "pstate list" assume r: "stops r" "length ks + height (JObj ms) \<le> max_nesting_depth"
    then have k: "length ks < max_nesting_depth" by simp
    show "accepts (BeginValue, ks) (print_json json_quote (JObj ms) @ r) = accepts (EndValue, ks) r"
    proof (cases ms)
      case Nil
      with k show ?thesis by (simp add: accepts_punct)
    next
      case (Cons m ms')
      have "accepts_value (snd m) \<and> Suc (length ks + height (snd m)) \<le> max_nesting_depth" if "m \<in> set ms" for m
      proof -
        obtain k v where m: "m = (k, v)" by (cases m)
        from that JObj.prems have "printable v" by (auto simp: m)
        with JObj.IH [of m v] that height_member [of k v ms] r(2) show ?thesis by (simp add: m)
      qed
      then have "accepts (BeginString, ObjectKey # ks) (print_members json_quote ms @ CHR ''}'' # r) = accepts (EndValue, ks) r"
        using accepts_members [of ms ks r] Cons by simp
      with Cons k show ?thesis
        by (cases m) (simp add: accepts_punct begin_string_or_empty)
    qed
  qed
qed (auto simp: accepts_value_def accepts_quote accepts_run [OF scan_null] accepts_run [OF scan_int_dec]
   accepts_number accepts_Cons step_defs)

theorem json_valid_print:
  assumes "printable v" "height v \<le> max_nesting_depth"
  shows "json_valid (print_json json_quote v)"
  using accepts_valueD [OF accepts_print [OF assms(1)], of "[]" "[]"] assms(2)
  by (simp add: json_valid_accepts scan_init_def) (simp add: scan_eof_def end_value_def json_space_def)

section \<open>Parsing what was printed\<close>

lemma parse_print_elements:
  assumes "\<forall>v\<in>set vs. \<forall>r. stops r \<longrightarrow> parse_value (print_json json_quote v @ r) = Some (v, r)"
    "\<forall>v\<in>set vs. printable v" "vs \<noteq> []"
  shows "parse_elements (print_elements json_quote vs @ CHR '']'' # r) = Some (vs, r)"
  using assms
proof (induction vs)
  case (Cons v vs)
  show ?case
  proof (cases "vs = []")
    case True
    with Cons.prems show ?thesis
      by (simp add: parse_elements.simps [of "print_json json_quote v @ CHR '']'' # r"] skip_space_def json_space_def)
  next
    case False
    then obtain w ws where vs: "vs = w # ws" by (cases vs) auto
    let ?r = "print_elements json_quote vs @ CHR '']'' # r"
    have sk: "skip_space ?r = ?r" using skip_space_print [of w] Cons.prems(2) vs by simp
    have "parse_value (print_json json_quote v @ CHR '','' # ?r) = Some (v, CHR '','' # ?r)"
      using Cons.prems(1) by simp
    then show ?thesis
      using Cons False sk by (simp add: parse_elements.simps [of "print_json json_quote v @ CHR '','' # ?r"])
  qed
qed simp

lemma parse_members_quoted:
  assumes "utf8_valid k" "skip_space s = s"
  shows "parse_members (json_quote k @ CHR '':'' # s) =
    (case parse_value s of
       None \<Rightarrow> None
     | Some (v, z) \<Rightarrow>
         (case skip_space z of
            [] \<Rightarrow> None
          | e # z' \<Rightarrow>
              if e = CHR ''}'' then Some ([(k, v)], z')
              else if e = CHR '','' \<and> length (skip_space z') < length (json_quote k @ CHR '':'' # s)
              then map_option (\<lambda>(ms, y). ((k, v) # ms, y)) (parse_members (skip_space z'))
              else None))"
  using assms
  by (simp add: parse_members_Cons json_quote_def string_end_quote unquote_quote cong: if_cong list.case_cong option.case_cong)

lemma parse_print_members:
  assumes "\<forall>m\<in>set ms. \<forall>r. stops r \<longrightarrow> parse_value (print_json json_quote (snd m) @ r) = Some (snd m, r)"
    "\<forall>m\<in>set ms. utf8_valid (fst m) \<and> printable (snd m)" "ms \<noteq> []"
  shows "parse_members (print_members json_quote ms @ CHR ''}'' # r) = Some (ms, r)"
  using assms
proof (induction ms)
  case (Cons m ms)
  obtain k v where m: "m = (k, v)" by (cases m)
  show ?case
  proof (cases "ms = []")
    case True
    with Cons.prems show ?thesis
      by (simp add: m parse_members_quoted skip_space_print)
  next
    case False
    let ?r = "print_members json_quote ms @ CHR ''}'' # r"
    have sk: "skip_space ?r = ?r" using False by (cases ms) (auto simp: json_quote_def)
    have "parse_value (print_json json_quote v @ CHR '','' # ?r) = Some (v, CHR '','' # ?r)"
      using Cons.prems(1) by (simp add: m)
    then show ?thesis
      using Cons False sk
      by (simp add: m parse_members_quoted skip_space_print)
  qed
qed simp

lemma parse_print:
  "printable v \<Longrightarrow> stops r \<Longrightarrow> parse_value (print_json json_quote v @ r) = Some (v, r)"
proof (induction v arbitrary: r)
  case (JArr vs)
  show ?case
  proof (cases vs)
    case Nil
    then show ?thesis by (simp add: parse_value_Cons skip_space_def json_space_def)
  next
    case (Cons v vs')
    obtain c t where c: "print_elements json_quote vs = c # t" "\<not> json_space c" "c \<noteq> CHR '']''"
      by (rule print_elements_head [of vs]) (use JArr.prems(1) Cons in simp_all)
    then have "skip_space (print_elements json_quote vs @ CHR '']'' # r) = print_elements json_quote vs @ CHR '']'' # r"
      by (simp add: skip_space_def)
    with c parse_print_elements [of vs r] JArr Cons show ?thesis
      by (simp add: parse_value_Cons)
  qed
next
  case (JObj ms)
  show ?case
  proof (cases ms)
    case Nil
    then show ?thesis by (simp add: parse_value_Cons)
  next
    case (Cons m ms')
    obtain t where c: "print_members json_quote ms = CHR 0x22 # t"
      using Cons by (cases m) (simp add: json_quote_def)
    have "parse_value (print_json json_quote (snd m) @ r) = Some (snd m, r)" if "m \<in> set ms" "stops r" for m r
      using JObj.IH [of m "snd m" r] JObj.prems(1) that by (cases m) auto
    with c parse_print_members [of ms r] JObj.prems(1) Cons show ?thesis
      by (simp add: parse_value_Cons)
  qed
next
  case (JBool b)
  then show ?case by (cases b) (simp_all add: parse_value_Cons has_prefix_Cons)
next
  case (JNum n)
  then show ?case using parse_int_dec [of r] by (auto simp: stops_def)
qed (auto simp: parse_quoted parse_int_dec stops_def json_null_def parse_value_Cons has_prefix_Cons)

text \<open>Printing and parsing again.\<close>

theorem json_parse_print:
  assumes "printable v" "height v \<le> max_nesting_depth"
  shows "json_parse (print_json json_quote v) = Some v"
  using json_valid_print [OF assms] parse_print [OF assms(1), of "[]"] skip_space_print [OF assms(1), of "[]"]
  by (simp add: json_parse_def)

end
