(* ===== verification/Collector_Facts.thy ===== *)
theory Collector_Facts
  imports Collector Collector_Store_Facts Json_Accept
begin

text \<open>
  What the collector guarantees: who may use it, what a request can change, that the tables stay
  well formed whatever is sent to it, and what its configuration has once it was read.
\<close>

section \<open>Who may use it\<close>

lemma authorized_iff:
  "authorized (new_server c) v \<longleftrightarrow> (\<exists>t. v = bearer_prefix @ t \<and> sha256 t \<in> sha256 ` set (cc_tokens c))"
  by (auto simp: authorized_def new_server_def has_prefix_iff list_ex_iff image_iff)

text \<open>The status of what the handlers answer.\<close>

lemma api_error_status [simp]: "re_status (api_error n code m) = n" "re_status (respond n a) = n"
  "re_status (method_not_allowed al) = 405" "re_status storage_unavailable = 503"
  by (simp_all add: api_error_def respond_def method_not_allowed_def storage_unavailable_def)

lemma body_error_status: "re_status (body_error_response e) \<in> {400, 413}"
  by (simp add: body_error_response_def)

section \<open>What a request changes\<close>

text \<open>The batch or the heartbeat that a body holds, once it has been read, decoded and validated.\<close>

definition accepted_batch :: "backend \<Rightarrow> server \<Rightarrow> request \<Rightarrow> events_request option" where
  "accepted_batch bk sv r =
     (case read_body (bk_gunzip bk) sv r of
        Inl e \<Rightarrow> None
      | Inr body \<Rightarrow>
          (case decode_strict store_events_request zero_events_request body of
             None \<Rightarrow> None
           | Some q \<Rightarrow> if validate_events q = None \<and> length (er_events q) \<le> max_events then Some q else None))"

definition accepted_heartbeat :: "backend \<Rightarrow> server \<Rightarrow> request \<Rightarrow> (heartbeat_request \<times> bytes) option" where
  "accepted_heartbeat bk sv r =
     (case read_body (bk_gunzip bk) sv r of
        Inl e \<Rightarrow> None
      | Inr body \<Rightarrow>
          (case decode_strict store_heartbeat_request zero_heartbeat_request body of
             None \<Rightarrow> None
           | Some q \<Rightarrow> if validate_heartbeat q = None then Some (q, body) else None))"

definition saved_answer :: "events_request \<Rightarrow> tables \<times> (int \<times> int) option \<Rightarrow> tables \<times> response" where
  "saved_answer q x =
     (case x of
        (s, None) \<Rightarrow> (s, storage_unavailable)
      | (s, Some (a, d)) \<Rightarrow> (s, respond 200 (EventsOk (int (length (er_events q))) a d)))"

lemma handle_events_alt:
  assumes "accepted_batch bk sv r = Some q"
  shows "handle_events bk sv r s = saved_answer q (save_events (bk_number bk) (bk_database bk) q s)"
  using assms
  by (auto simp: accepted_batch_def handle_events_def saved_answer_def split: sum.splits option.splits if_splits)

lemma handle_events_refuse:
  assumes "accepted_batch bk sv r = None"
  shows "\<exists>resp. handle_events bk sv r s = (s, resp) \<and> re_status resp \<in> {400, 413}"
  using assms body_error_status
  by (auto simp: accepted_batch_def handle_events_def split: sum.splits option.splits if_splits)

definition heartbeat_row_of :: "heartbeat_request \<Rightarrow> bytes \<Rightarrow> heartbeat_row" where
  "heartbeat_row_of h raw =
     \<lparr>hr_site_id = hq_site_id h, hr_agent_version = hq_agent_version h, hr_sent_at = hq_sent_at h,
      hr_payload = raw\<rparr>"

definition put_heartbeat :: "heartbeat_request \<Rightarrow> bytes \<Rightarrow> tables \<Rightarrow> tables" where
  "put_heartbeat h raw s =
     s\<lparr>tb_heartbeats := AList.update (pg_uuid (hq_agent_id h)) (heartbeat_row_of h raw) (tb_heartbeats s)\<rparr>"

lemma handle_heartbeat_cases:
  assumes "handle_heartbeat bk sv r s = (s', resp)"
  obtains (refused) "s' = s" "re_status resp \<in> {400, 413, 503}"
  | (stored) h raw where "accepted_heartbeat bk sv r = Some (h, raw)" "s' = put_heartbeat h raw s"
      "resp = respond 200 (HeartbeatOk (sv_min_version sv))"
  using assms body_error_status
  by (auto simp: handle_heartbeat_def accepted_heartbeat_def save_heartbeat_def put_heartbeat_def
      heartbeat_row_of_def Let_def split: sum.splits option.splits if_splits prod.splits bool.splits)

section \<open>Well-formed tables\<close>

text \<open>
  Beside the unique keys: every event row refers to a row of its batch, has been validated, and
  stands under the key that its content gives; no batch has more rows than events.
\<close>

definition event_row_ok :: "(string \<times> string) \<times> event_row \<Rightarrow> bool" where
  "event_row_ok x \<longleftrightarrow>
     (case x of ((agent, key), row) \<Rightarrow>
        valid_rfc3339 (rw_received_at row) \<and> rw_raw row \<noteq> [] \<and> rw_raw_hash row = raw_hash (rw_raw row)
        \<and> (case rw_source_ip row of None \<Rightarrow> True | Some ip \<Rightarrow> is_ip ip)
        \<and> key = (case rw_event_id row of
                   Some i \<Rightarrow> ''event_id:'' @ i
                 | None \<Rightarrow> ''fallback:'' @ rw_received_at row @ '':'' @ rw_raw_hash row))"

definition batch_row_ok :: "(string \<times> string) \<times> batch_row \<Rightarrow> bool" where
  "batch_row_ok x \<longleftrightarrow>
     (case x of ((agent, i), row) \<Rightarrow>
        is_uuid agent \<and> trim_space i \<noteq> [] \<and> is_site_id (br_site_id row) \<and> is_semver (br_agent_version row)
        \<and> valid_rfc3339 (br_sent_at row) \<and> 1 \<le> br_event_count row \<and> br_event_count row \<le> int max_events)"

definition rows_of_batch :: "(string \<times> string) \<Rightarrow> tables \<Rightarrow> ((string \<times> string) \<times> event_row) list" where
  "rows_of_batch b s = filter (\<lambda>((agent, key), row). (agent, rw_batch_id row) = b) (tb_events s)"

definition heartbeat_row_ok :: "string \<times> heartbeat_row \<Rightarrow> bool" where
  "heartbeat_row_ok x \<longleftrightarrow>
     (case x of (agent, row) \<Rightarrow>
        is_uuid agent \<and> is_site_id (hr_site_id row) \<and> is_semver (hr_agent_version row)
        \<and> valid_rfc3339 (hr_sent_at row))"

definition tables_ok :: "tables \<Rightarrow> bool" where
  "tables_ok s \<longleftrightarrow>
     keys_unique s
     \<and> list_all event_row_ok (tb_events s) \<and> list_all batch_row_ok (tb_batches s)
     \<and> list_all heartbeat_row_ok (tb_heartbeats s)
     \<and> list_all (\<lambda>((agent, key), row). (agent, rw_batch_id row) \<in> set (map fst (tb_batches s))) (tb_events s)
     \<and> list_all (\<lambda>(b, row). int (length (rows_of_batch b s)) \<le> br_event_count row) (tb_batches s)"

lemma is_hex_lower: "is_hex c \<Longrightarrow> is_hex (to_lower c)"
  by (auto simp: is_hex_def to_lower_def is_digit_of_char byte_in_def less_eq_char_def)

lemma to_lower_hyphen [simp]: "to_lower CHR ''-'' = CHR ''-''"
  by (simp add: to_lower_def less_eq_char_def)

lemma hex_groups_lower: "hex_groups ns s \<Longrightarrow> hex_groups ns (map to_lower s)"
proof (induction ns s rule: hex_groups.induct)
  case (2 n s)
  then show ?case by (auto simp: list_all_iff is_hex_lower)
next
  case (3 n m ns s)
  then have "map to_lower s ! n = CHR ''-''" by simp
  with 3 show ?case by (auto simp: list_all_iff is_hex_lower take_map drop_map)
qed simp

lemma pg_uuid_ok: "is_uuid s \<Longrightarrow> is_uuid (pg_uuid s)"
  unfolding is_uuid_def pg_uuid_def by (rule hex_groups_lower)

lemma validate_commonD:
  "validate_common a si v t = None \<Longrightarrow> is_uuid a \<and> is_site_id si \<and> is_semver v \<and> valid_rfc3339 t"
  by (auto simp: validate_common_def split: if_splits)

lemma validate_event_listD:
  "validate_event_list i es = None \<Longrightarrow> e \<in> set es \<Longrightarrow>
   valid_rfc3339 (ev_received_at e) \<and> ev_raw e \<noteq> [] \<and> (ev_source_ip e = [] \<or> is_ip (ev_source_ip e))"
  by (induction i es rule: validate_event_list.induct)
     (auto simp: validate_event_def split: option.splits if_splits)

lemma validate_eventsD:
  assumes "validate_events q = None"
  shows "validate_common (er_agent_id q) (er_site_id q) (er_agent_version q) (er_sent_at q) = None"
    "trim_space (er_batch_id q) \<noteq> []" "er_events q \<noteq> []" "validate_event_list 0 (er_events q) = None"
  using assms by (auto simp: validate_events_def split: option.splits if_splits)

lemma event_key_form:
  "fst (event_key num e) =
     (case null_if_empty (snd (event_key num e)) of
        Some i \<Rightarrow> ''event_id:'' @ i
      | None \<Rightarrow> ''fallback:'' @ ev_received_at e @ '':'' @ raw_hash (ev_raw e))"
  by (simp add: event_key_def Let_def null_if_empty_def split: option.split)

lemma event_entry_ok:
  assumes "validate_events q = None" "e \<in> set (er_events q)"
  shows "event_row_ok (event_entry num q e)"
  using validate_event_listD [OF validate_eventsD(4) [OF assms(1)] assms(2)] event_key_form [of num e]
  by (auto simp: event_row_ok_def event_entry_def event_row_of_def null_if_empty_def)

lemma batch_entry_ok:
  assumes "validate_events q = None" "length (er_events q) \<le> max_events"
  shows "batch_row_ok (batch_key q, batch_row_of q)"
  using validate_eventsD [OF assms(1)] validate_commonD [of "er_agent_id q"] assms(2) pg_uuid_ok [of "er_agent_id q"]
  by (auto simp: batch_row_ok_def batch_key_def batch_row_of_def Suc_le_eq)

lemma add_batch_keys_unique: "keys_unique s \<Longrightarrow> \<not> has_batch r s \<Longrightarrow> keys_unique (add_batch num r s)"
  by (auto simp: keys_unique_def add_batch_def has_batch_def add_rows_distinct simp del: set_map)

lemma tables_okD:
  assumes "tables_ok s"
  shows "keys_unique s" "x \<in> set (tb_events s) \<Longrightarrow> event_row_ok x" "y \<in> set (tb_batches s) \<Longrightarrow> batch_row_ok y"
    "z \<in> set (tb_heartbeats s) \<Longrightarrow> heartbeat_row_ok z"
    "((agent, key), row) \<in> set (tb_events s) \<Longrightarrow> (agent, rw_batch_id row) \<in> set (map fst (tb_batches s))"
    "(b, brow) \<in> set (tb_batches s) \<Longrightarrow> int (length (rows_of_batch b s)) \<le> br_event_count brow"
  using assms by (auto simp: tables_ok_def list_all_iff simp del: set_map)

lemma tables_okI:
  assumes "keys_unique s" "\<And>x. x \<in> set (tb_events s) \<Longrightarrow> event_row_ok x"
    "\<And>y. y \<in> set (tb_batches s) \<Longrightarrow> batch_row_ok y" "\<And>z. z \<in> set (tb_heartbeats s) \<Longrightarrow> heartbeat_row_ok z"
    "\<And>agent key row. ((agent, key), row) \<in> set (tb_events s) \<Longrightarrow> (agent, rw_batch_id row) \<in> set (map fst (tb_batches s))"
    "\<And>b brow. (b, brow) \<in> set (tb_batches s) \<Longrightarrow> int (length (rows_of_batch b s)) \<le> br_event_count brow"
  shows "tables_ok s"
  using assms by (auto simp: tables_ok_def list_all_iff simp del: set_map)

lemma rows_of_new_batch:
  assumes "tables_ok s" "\<not> has_batch q s"
  shows "rows_of_batch (batch_key q) s = []"
proof -
  have "(agent, rw_batch_id row) \<noteq> batch_key q" if "((agent, key), row) \<in> set (tb_events s)" for agent key row
    using tables_okD(5) [OF assms(1) that] assms(2) by (auto simp: has_batch_def simp del: set_map)
  then show ?thesis by (auto simp: rows_of_batch_def filter_empty_conv)
qed

lemma add_batch_ok:
  assumes ok: "tables_ok s" and new: "\<not> has_batch q s"
    and q: "validate_events q = None" "length (er_events q) \<le> max_events"
  shows "tables_ok (add_batch num q s)"
proof -
  obtain u where u: "add_rows (tb_events s) (event_entries num q) = tb_events s @ u"
    "set u \<subseteq> set (event_entries num q)" "length u \<le> length (er_events q)"
    using add_rows_prefix [of "tb_events s" "event_entries num q"] by (auto simp: event_entries_def)
  have ub: "(agent, rw_batch_id row) = batch_key q" if "((agent, key), row) \<in> set u" for agent key row
    using that u(2) by (auto simp: event_entries_def event_entry_def event_row_of_def batch_key_def)
  have old: "rows_of_batch (batch_key q) s = []"
    by (rule rows_of_new_batch [OF ok new])
  have rows: "length (rows_of_batch b (add_batch num q s)) \<le>
      (if b = batch_key q then length (er_events q) else length (rows_of_batch b s))" for b
  proof (cases "b = batch_key q")
    case True
    with old u(3) le_trans [OF length_filter_le u(3)] show ?thesis
      by (simp add: rows_of_batch_def add_batch_def u(1))
  next
    case False
    then have "filter (\<lambda>((agent, key), row). (agent, rw_batch_id row) = b) u = []"
      using ub by (auto simp: filter_empty_conv)
    with False show ?thesis by (simp add: rows_of_batch_def add_batch_def u(1))
  qed
  let ?s = "add_batch num q s"
  have e: "tb_events ?s = tb_events s @ u" "tb_batches ?s = tb_batches s @ [(batch_key q, batch_row_of q)]"
    "tb_heartbeats ?s = tb_heartbeats s"
    by (simp_all add: add_batch_def u(1))
  show ?thesis
  proof (rule tables_okI)
    show "keys_unique ?s" using add_batch_keys_unique [OF tables_okD(1) [OF ok] new] .
    show "event_row_ok x" if "x \<in> set (tb_events ?s)" for x
    proof -
      from that u(2) have "x \<in> set (tb_events s) \<or> (\<exists>e\<in>set (er_events q). x = event_entry num q e)"
        by (auto simp: e event_entries_def simp del: split_paired_Ex)
      with tables_okD(2) [OF ok] event_entry_ok [OF q(1)] show ?thesis by blast
    qed
    show "batch_row_ok y" if "y \<in> set (tb_batches ?s)" for y
    proof -
      from that have "y \<in> set (tb_batches s) \<or> y = (batch_key q, batch_row_of q)" by (simp add: e) blast
      with tables_okD(3) [OF ok] batch_entry_ok [OF q] show ?thesis by blast
    qed
    show "heartbeat_row_ok z" if "z \<in> set (tb_heartbeats ?s)" for z
      using that tables_okD(4) [OF ok] by (simp add: e)
    show "(agent, rw_batch_id row) \<in> set (map fst (tb_batches ?s))" if "((agent, key), row) \<in> set (tb_events ?s)" for agent key row
      using that tables_okD(5) [OF ok, of agent key row] ub [of agent key row] by (auto simp: e)
    show "int (length (rows_of_batch b ?s)) \<le> br_event_count brow" if "(b, brow) \<in> set (tb_batches ?s)" for b brow
    proof (cases "(b, brow) = (batch_key q, batch_row_of q)")
      case True
      with rows [of b] show ?thesis by (simp add: batch_row_of_def)
    next
      case False
      with that have m: "(b, brow) \<in> set (tb_batches s)" by (auto simp: e)
      with new have "b \<noteq> batch_key q" by (force simp: has_batch_def)
      with rows [of b] tables_okD(6) [OF ok m] show ?thesis by simp
    qed
  qed
qed

lemma put_heartbeat_ok:
  assumes ok: "tables_ok s" and h: "validate_heartbeat h = None"
  shows "tables_ok (put_heartbeat h raw s)"
proof -
  have "validate_common (hq_agent_id h) (hq_site_id h) (hq_agent_version h) (hq_sent_at h) = None"
    using h by (simp add: validate_heartbeat_def split: option.splits)
  from validate_commonD [OF this] have "heartbeat_row_ok (pg_uuid (hq_agent_id h), heartbeat_row_of h raw)"
    by (simp add: heartbeat_row_ok_def heartbeat_row_of_def pg_uuid_ok)
  then have "heartbeat_row_ok z" if "z \<in> set (AList.update (pg_uuid (hq_agent_id h)) (heartbeat_row_of h raw) (tb_heartbeats s))" for z
  proof -
    have "set (AList.update k v al) \<subseteq> insert (k, v) (set al)" for k :: string and v :: heartbeat_row and al
      by (induction al) auto
    with that \<open>heartbeat_row_ok (pg_uuid (hq_agent_id h), heartbeat_row_of h raw)\<close> tables_okD(4) [OF ok]
    show ?thesis by blast
  qed
  with ok show ?thesis
    by (intro tables_okI)
       (auto simp: put_heartbeat_def keys_unique_def rows_of_batch_def distinct_update dest: tables_okD simp del: set_map)
qed

section \<open>An example\<close>

definition example_collector :: collector_config where
  "example_collector =
     \<lparr>cc_listen_addr = '':8080'', cc_database_url = ''postgres:'', cc_tokens = [''secret'', ''other''],
      cc_min_version = ''1.0.0'', cc_max_body = 1024, cc_read_timeout = 30 * second,
      cc_write_timeout = 30 * second, cc_shutdown_timeout = 15 * second\<rparr>"

definition example_backend :: backend where
  "example_backend =
     \<lparr>bk_gunzip = (\<lambda>n b. NoStream), bk_number = Some, bk_database = working_database, bk_ping = True, bk_now = 0\<rparr>"

definition example_json :: json where
  "example_json =
     JObj [(''agent_id'', JStr ''01234567-89ab-cdef-0123-456789abcdef''), (''site_id'', JStr ''site-1''),
           (''agent_version'', JStr ''1.0.0''), (''batch_id'', JStr ''b1''),
           (''sent_at'', JStr ''2024-02-29T00:00:00.000Z''),
           (''events'', JArr (replicate 2
              (JObj [(''received_at'', JStr ''2024-02-29T00:00:00.000000Z''), (''raw'', JStr ''one'')])))]"

definition example_body :: bytes where
  "example_body = print_json json_quote example_json"

definition example_post :: request where
  "example_post =
     \<lparr>in_method = ''POST'', in_path = ''/events'', in_authorization = ''Bearer secret'',
      in_content_type = ''application/json; charset=utf-8'', in_content_encoding = [], in_body = example_body\<rparr>"

abbreviation example_server :: server where
  "example_server \<equiv> new_server example_collector"

lemma example_decoded:
  "decode_strict store_events_request zero_events_request example_body = Some example_request"
proof -
  have "printable example_json"
    by (simp add: example_json_def utf8_valid_safe safe_byte_def byte_in_def numeral_2_eq_2)
  moreover have "height example_json \<le> max_nesting_depth" by (simp add: example_json_def max_nesting_depth_def numeral_2_eq_2)
  ultimately have "json_parse example_body = Some example_json" by (simp add: example_body_def json_parse_print)
  moreover have "store_events_request example_json zero_events_request = (example_request, False)" by code_simp
  ultimately show ?thesis by (simp add: decode_strict_def unmarshal_def)
qed

lemma example_valid: "validate_events example_request = None"
  by code_simp

lemma example_read:
  "content_type_ok (in_content_type example_post)" "trim_space (lower_text (in_content_encoding example_post)) = []"
  "length example_body \<le> 1024"
  by code_simp+

lemma example_accepted:
  "accepted_batch example_backend example_server example_post = Some example_request"
proof -
  have "read_body (bk_gunzip example_backend) example_server example_post = Inr example_body"
    using example_read
    by (simp add: read_body_def read_limited_def example_backend_def new_server_def example_collector_def
        example_post_def)
  then show ?thesis
    using example_valid
    by (simp add: accepted_batch_def example_decoded) (simp add: example_request_def max_events_def)
qed

lemma example_authorized: "authorized example_server (in_authorization example_post)"
proof -
  have "in_authorization example_post = bearer_prefix @ ''secret''" by (simp add: example_post_def bearer_prefix_def)
  then show ?thesis by (auto simp: authorized_iff example_collector_def)
qed

lemma example_served:
  "\<exists>resp. serve_http example_backend example_server example_post empty_tables
     = (add_batch Some example_request empty_tables, resp) \<and> re_status resp = 200"
proof -
  have "serve_http example_backend example_server example_post empty_tables
    = handle_events example_backend example_server example_post empty_tables"
    using example_authorized by (simp add: serve_http_def example_post_def)
  moreover have "bk_number example_backend = Some" "bk_database example_backend = working_database"
    by (simp_all add: example_backend_def)
  ultimately show ?thesis
    using handle_events_alt [OF example_accepted, of empty_tables]
      working_database_saves [OF not_in_empty_tables, of Some example_request]
    by (auto simp: saved_answer_def)
qed

section \<open>The server as a whole\<close>

lemma accepted_batchD:
  "accepted_batch bk sv r = Some q \<Longrightarrow> validate_events q = None \<and> length (er_events q) \<le> max_events"
  by (auto simp: accepted_batch_def split: sum.splits option.splits if_splits)

lemma accepted_heartbeatD:
  "accepted_heartbeat bk sv r = Some (h, raw) \<Longrightarrow> validate_heartbeat h = None"
  by (auto simp: accepted_heartbeat_def split: sum.splits option.splits if_splits)

lemma serve_http_cases:
  assumes "serve_http bk sv r s = (s', resp)"
  obtains (unauthorized) "\<not> authorized sv (in_authorization r)" "s' = s" "re_status resp = 401"
  | (answered) "authorized sv (in_authorization r)" "s' = s" "re_status resp \<notin> {200, 401}"
  | (health) "authorized sv (in_authorization r)" "in_path r = ''/healthz''" "in_method r = ''GET''" "s' = s"
      "re_status resp = 200"
  | (events) q where "authorized sv (in_authorization r)" "in_path r = ''/events''" "in_method r = ''POST''"
      "accepted_batch bk sv r = Some q" "saved_answer q (save_events (bk_number bk) (bk_database bk) q s) = (s', resp)"
  | (heartbeat) h raw where "authorized sv (in_authorization r)" "in_path r = ''/heartbeat''" "in_method r = ''POST''"
      "accepted_heartbeat bk sv r = Some (h, raw)" "s' = put_heartbeat h raw s" "re_status resp = 200"
proof (cases "authorized sv (in_authorization r)")
  case False
  with assms show ?thesis by (intro unauthorized) (auto simp: serve_http_def)
next
  case True
  consider (h) "in_path r = ''/healthz''" "in_method r = ''GET''"
    | (e) "in_path r = ''/events''" "in_method r = ''POST''"
    | (b) "in_path r = ''/heartbeat''" "in_method r = ''POST''"
    | (other) "s' = s" "re_status resp \<in> {404, 405}"
    using assms True by (auto simp: serve_http_def split: if_splits)
  then show ?thesis
  proof cases
    case h
    with assms True have "s' = s" "re_status resp = 200 \<or> re_status resp = 503"
      by (auto simp: serve_http_def handle_health_def split: if_splits)
    with h True show ?thesis by (auto intro: health answered)
  next
    case e
    with assms True have run: "handle_events bk sv r s = (s', resp)" by (simp add: serve_http_def)
    show ?thesis
    proof (cases "accepted_batch bk sv r")
      case None
      with handle_events_refuse [OF None, of s] run True show ?thesis by (auto intro: answered)
    next
      case (Some q)
      with handle_events_alt [OF Some, of s] run True e show ?thesis by (auto intro: events)
    qed
  next
    case b
    with assms True have "handle_heartbeat bk sv r s = (s', resp)" by (simp add: serve_http_def)
    then show ?thesis using b True by (cases rule: handle_heartbeat_cases) (auto intro: answered heartbeat)
  next
    case other
    with True show ?thesis by (auto intro: answered)
  qed
qed

lemma saved_answer_cases:
  assumes "saved_answer q (save_events num db q s) = (s', resp)"
  shows "re_status resp = 200 \<and> has_batch q s' \<and> (s' = s \<or> s' = add_batch num q s \<and> \<not> has_batch q s)
    \<or> re_status resp = 503 \<and> (s' = s \<or> s' = add_batch num q s \<and> \<not> has_batch q s \<and> db_commit db = Lost)"
proof -
  obtain t out where t: "save_events num db q s = (t, out)" by (cases "save_events num db q s")
  then show ?thesis
    by (rule save_events_cases) (use assms t in \<open>auto simp: saved_answer_def\<close>)
qed

text \<open>
  C28: Only a request whose bearer token has the digest of a configured token gets anything but
  401, and a 401 changes nothing.
\<close>

theorem serve_http_guarded:
  assumes "serve_http bk (new_server c) r s = (s', resp)"
  shows "(re_status resp = 401 \<longleftrightarrow>
      (\<nexists>t. in_authorization r = bearer_prefix @ t \<and> sha256 t \<in> sha256 ` set (cc_tokens c)))
    \<and> (re_status resp = 401 \<longrightarrow> s' = s)"
  using assms
proof (cases rule: serve_http_cases)
  case (events q)
  with saved_answer_cases [OF events(5)] show ?thesis by (auto simp: authorized_iff [symmetric])
qed (auto simp: authorized_iff [symmetric])

theorem serve_http_guarded_witness:
  "re_status (snd (serve_http example_backend example_server (example_post\<lparr>in_authorization := ''Basic secret''\<rparr>) empty_tables)) = 401
   \<and> re_status (snd (serve_http example_backend example_server example_post empty_tables)) \<noteq> 401"
proof -
  let ?p = "example_post\<lparr>in_authorization := ''Basic secret''\<rparr>"
  obtain s1 r1 s2 r2 where runs: "serve_http example_backend example_server ?p empty_tables = (s1, r1)"
    "serve_http example_backend example_server example_post empty_tables = (s2, r2)"
    by (meson surj_pair)
  have "\<nexists>t. ''Basic secret'' = bearer_prefix @ t" by (simp add: bearer_prefix_def)
  then have "re_status r1 = 401" using serve_http_guarded [OF runs(1)] by simp
  moreover have "in_authorization example_post = bearer_prefix @ ''secret''" "''secret'' \<in> set (cc_tokens example_collector)"
    by (simp_all add: example_post_def bearer_prefix_def example_collector_def)
  then have "re_status r2 \<noteq> 401" using serve_http_guarded [OF runs(2)] by blast
  ultimately show ?thesis by (simp add: runs)
qed

text \<open>
  C26: The tables stay well formed under every request, whatever the database refuses: unique
  keys, validated rows under the keys of their content, no event row without its batch, no batch
  with more rows than events.
\<close>

theorem serve_http_tables_ok:
  assumes "tables_ok s" and "serve_http bk sv r s = (s', resp)"
  shows "tables_ok s'"
  using assms(2)
proof (cases rule: serve_http_cases)
  case (events q)
  from accepted_batchD [OF events(4)] saved_answer_cases [OF events(5)] assms(1) show ?thesis
    by (auto intro: add_batch_ok)
next
  case (heartbeat h raw)
  with accepted_heartbeatD [OF heartbeat(4)] put_heartbeat_ok [OF assms(1)] show ?thesis by simp
qed (use assms(1) in simp_all)

lemma empty_tables_ok: "tables_ok empty_tables"
  by (simp add: tables_ok_def empty_tables_unique) (simp add: empty_tables_def)

theorem serve_http_tables_ok_witness:
  "tables_ok (fst (serve_http example_backend example_server example_post empty_tables))"
  using serve_http_tables_ok [OF empty_tables_ok, of example_backend example_server example_post]
  by (metis prod.collapse)

text \<open>
  C27: A request that is not answered with 200 has changed nothing, unless the answer of a commit
  was lost; one answered with 200 on the path of events has its batch stored, and one on the path
  of heartbeats is the agent's row with its body as it was sent.
\<close>

theorem serve_http_atomic:
  assumes "serve_http bk sv r s = (s', resp)"
  shows "(re_status resp \<noteq> 200 \<and> db_commit (bk_database bk) \<noteq> Lost \<longrightarrow> s' = s)
    \<and> (re_status resp = 200 \<and> in_path r = ''/events'' \<longrightarrow>
        (\<exists>q. accepted_batch bk sv r = Some q \<and> has_batch q s'
           \<and> s' = (if has_batch q s then s else add_batch (bk_number bk) q s)))
    \<and> (re_status resp = 200 \<and> in_path r = ''/heartbeat'' \<longrightarrow>
        (\<exists>h raw. accepted_heartbeat bk sv r = Some (h, raw)
           \<and> map_of (tb_heartbeats s') (pg_uuid (hq_agent_id h)) = Some (heartbeat_row_of h raw)
           \<and> tb_events s' = tb_events s \<and> tb_batches s' = tb_batches s))"
  using assms
proof (cases rule: serve_http_cases)
  case (events q)
  with saved_answer_cases [OF events(5)] show ?thesis by auto
next
  case (heartbeat h raw)
  then show ?thesis by (auto simp: put_heartbeat_def update_conv')
qed simp_all

theorem serve_http_atomic_witness:
  "has_batch example_request (fst (serve_http example_backend example_server example_post empty_tables))"
proof -
  obtain resp where r: "serve_http example_backend example_server example_post empty_tables
      = (add_batch Some example_request empty_tables, resp)" "re_status resp = 200"
    using example_served by blast
  moreover have "in_path example_post = ''/events''" by (simp add: example_post_def)
  ultimately have "\<exists>q. accepted_batch example_backend example_server example_post = Some q
      \<and> has_batch q (add_batch Some example_request empty_tables)"
    using serve_http_atomic [OF r(1)] by blast
  with example_accepted r show ?thesis by simp
qed

end
