(* ===== verification/Json_Grammar.thy ===== *)
theory Json_Grammar
  imports Json_Accept
begin

text \<open>
  The grammar of JSON as an inductive relation between a value, its text and its compact text.
  The scanner accepts exactly the texts of the grammar that do not nest too deep and compacts them
  as the grammar says, and the parser reads the same value from a text and from its compaction.
\<close>

section \<open>The grammar\<close>

definition spaces :: "bytes \<Rightarrow> bool" where
  "spaces w \<longleftrightarrow> list_all json_space w"

lemma spaces_simps [simp]: "spaces []" "spaces (c # w) \<longleftrightarrow> json_space c \<and> spaces w"
  by (simp_all add: spaces_def)

text \<open>What may stand between the quotes of a string.\<close>

function string_body :: "bytes \<Rightarrow> bool" where
  "string_body s =
     (case s of
        [] \<Rightarrow> True
      | c # r \<Rightarrow>
          if c = CHR 0x5C
          then (case r of
                  [] \<Rightarrow> False
                | d # q \<Rightarrow>
                    if d = CHR ''u'' then 4 \<le> length q \<and> list_all is_hex (take 4 q) \<and> string_body (drop 4 q)
                    else (d \<in> set ''bfnrt/'' \<or> d = CHR 0x5C \<or> d = CHR 0x22) \<and> string_body q)
          else c \<noteq> CHR 0x22 \<and> \<not> byte_in c 0 0x1F \<and> string_body r)"
  by pat_completeness auto
termination
  by (relation "measure length") auto

declare string_body.simps [simp del]

lemma string_body_Nil [simp]: "string_body []"
  by (simp add: string_body.simps [of "[]"])

lemma string_body_plain: "c \<noteq> CHR 0x5C \<Longrightarrow> string_body (c # r) \<longleftrightarrow> c \<noteq> CHR 0x22 \<and> \<not> byte_in c 0 0x1F \<and> string_body r"
  by (simp add: string_body.simps [of "c # r"])

lemma string_body_escape:
  "string_body (CHR 0x5C # d # q) \<longleftrightarrow>
     (if d = CHR ''u'' then 4 \<le> length q \<and> list_all is_hex (take 4 q) \<and> string_body (drop 4 q)
      else (d \<in> set ''bfnrt/'' \<or> d = CHR 0x5C \<or> d = CHR 0x22) \<and> string_body q)"
  "\<not> string_body [CHR 0x5C]"
  by (simp_all add: string_body.simps [of "CHR 0x5C # r" for r])

text \<open>A number is what the scanner reads as one.\<close>

definition number_text :: "bytes \<Rightarrow> bool" where
  "number_text n \<longleftrightarrow>
     n \<noteq> [] \<and> list_all number_char n
     \<and> (\<exists>q. num_end q \<and> (\<forall>ks. scan_run (BeginValue, ks) n = Some (n, q, ks)))"

inductive json_text :: "json \<Rightarrow> bytes \<Rightarrow> bytes \<Rightarrow> bool"
  and elements_text :: "json list \<Rightarrow> bytes \<Rightarrow> bytes \<Rightarrow> bool"
  and members_text :: "(bytes \<times> json) list \<Rightarrow> bytes \<Rightarrow> bytes \<Rightarrow> bool" where
  null_text: "json_text JNull ''null'' ''null''"
| true_text: "json_text (JBool True) ''true'' ''true''"
| false_text: "json_text (JBool False) ''false'' ''false''"
| number: "number_text n \<Longrightarrow> json_text (JNum n) n n"
| string_text: "string_body b \<Longrightarrow> unquote_body b = Some u \<Longrightarrow>
    json_text (JStr u) (CHR 0x22 # b @ [CHR 0x22]) (CHR 0x22 # b @ [CHR 0x22])"
| empty_array: "spaces w \<Longrightarrow> json_text (JArr []) (CHR ''['' # w @ '']'') ''[]''"
| array: "spaces w \<Longrightarrow> elements_text vs t c \<Longrightarrow> json_text (JArr vs) (CHR ''['' # w @ t @ '']'') (CHR ''['' # c @ '']'')"
| empty_object: "spaces w \<Longrightarrow> json_text (JObj []) (CHR ''{'' # w @ ''}'') ''{}''"
| object: "spaces w \<Longrightarrow> members_text ms t c \<Longrightarrow> json_text (JObj ms) (CHR ''{'' # w @ t @ ''}'') (CHR ''{'' # c @ ''}'')"
| last_element: "json_text v t c \<Longrightarrow> spaces w \<Longrightarrow> elements_text [v] (t @ w) c"
| more_elements: "json_text v t c \<Longrightarrow> spaces w \<Longrightarrow> spaces w' \<Longrightarrow> elements_text vs t' c' \<Longrightarrow>
    elements_text (v # vs) (t @ w @ CHR '','' # w' @ t') (c @ CHR '','' # c')"
| last_member: "string_body b \<Longrightarrow> unquote_body b = Some k \<Longrightarrow> spaces w1 \<Longrightarrow> spaces w2 \<Longrightarrow> json_text v t c \<Longrightarrow> spaces w3 \<Longrightarrow>
    members_text [(k, v)] (CHR 0x22 # b @ CHR 0x22 # w1 @ CHR '':'' # w2 @ t @ w3)
      (CHR 0x22 # b @ CHR 0x22 # CHR '':'' # c)"
| more_members: "string_body b \<Longrightarrow> unquote_body b = Some k \<Longrightarrow> spaces w1 \<Longrightarrow> spaces w2 \<Longrightarrow> json_text v t c \<Longrightarrow> spaces w3 \<Longrightarrow>
    spaces w4 \<Longrightarrow> members_text ms t' c' \<Longrightarrow>
    members_text ((k, v) # ms) (CHR 0x22 # b @ CHR 0x22 # w1 @ CHR '':'' # w2 @ t @ w3 @ CHR '','' # w4 @ t')
      (CHR 0x22 # b @ CHR 0x22 # CHR '':'' # c @ CHR '','' # c')"

text \<open>A compact text is a text of the same value.\<close>

lemma compact_is_text:
  "json_text v t c \<Longrightarrow> json_text v c c"
  "elements_text vs t c \<Longrightarrow> elements_text vs c c"
  "members_text ms t c \<Longrightarrow> members_text ms c c"
proof (induction rule: json_text_elements_text_members_text.inducts)
  case (array w vs t c)
  then show ?case using json_text_elements_text_members_text.array [of "[]" vs c c] by simp
next
  case (object w ms t c)
  then show ?case using json_text_elements_text_members_text.object [of "[]" ms c c] by simp
next
  case (empty_array w)
  then show ?case using json_text_elements_text_members_text.empty_array [of "[]"] by simp
next
  case (empty_object w)
  then show ?case using json_text_elements_text_members_text.empty_object [of "[]"] by simp
next
  case (last_element v t c w)
  then show ?case using json_text_elements_text_members_text.last_element [of v c c "[]"] by simp
next
  case (more_elements v t c w w' vs t' c')
  then show ?case using json_text_elements_text_members_text.more_elements [of v c c "[]" "[]" vs c' c'] by simp
next
  case (last_member b k w1 w2 v t c w3)
  then show ?case using json_text_elements_text_members_text.last_member [of b k "[]" "[]" v c c "[]"] by simp
next
  case (more_members b k w1 w2 v t c w3 w4 ms t' c')
  then show ?case
    using json_text_elements_text_members_text.more_members [of b k "[]" "[]" v c c "[]" "[]" ms c' c'] by simp
qed (auto intro: json_text_elements_text_members_text.intros)

section \<open>The scanner on strings and numbers\<close>

lemma list4: "4 \<le> length q \<Longrightarrow> \<exists>a b c d r. q = a # b # c # d # r"
  by (cases q; cases "tl q"; cases "tl (tl q)"; cases "tl (tl (tl q))") auto

lemma hex_not_quote: "is_hex c \<Longrightarrow> c \<noteq> CHR 0x22 \<and> c \<noteq> CHR 0x5C"
  by (auto simp: is_hex_def is_digit_of_char byte_in_def)

lemma scan_string_body: "string_body b \<Longrightarrow> scan_run (InString, ks) b = Some (b, InString, ks)"
proof (induction b rule: length_induct)
  case (1 b)
  show ?case
  proof (cases b)
    case (Cons c r)
    show ?thesis
    proof (cases "c = CHR 0x5C")
      case False
      with 1 Cons show ?thesis by (auto simp: string_body_plain goto_def)
    next
      case True
      with 1 Cons obtain d q where r: "r = d # q" by (cases r) (auto simp: string_body_escape)
      show ?thesis
      proof (cases "d = CHR ''u''")
        case False
        with 1 Cons True r show ?thesis by (auto simp: string_body_escape goto_def)
      next
        case u: True
        with 1 Cons True r have q: "4 \<le> length q" "list_all is_hex (take 4 q)" "string_body (drop 4 q)"
          by (simp_all add: string_body_escape)
        obtain x y z w p where "q = x # y # z # w # p" using list4 [OF q(1)] by blast
        with 1 Cons True r u q show ?thesis by (auto simp: goto_def)
      qed
    qed
  qed simp
qed

lemma string_end_body: "string_body b \<Longrightarrow> string_end (b @ CHR 0x22 # r) = Some (b, r)"
proof (induction b rule: length_induct)
  case (1 b)
  show ?case
  proof (cases b)
    case (Cons c r')
    show ?thesis
    proof (cases "c = CHR 0x5C")
      case False
      with 1 Cons show ?thesis by (auto simp: string_body_plain)
    next
      case True
      with 1 Cons obtain d q where r: "r' = d # q" by (cases r') (auto simp: string_body_escape)
      show ?thesis
      proof (cases "d = CHR ''u''")
        case False
        with 1 Cons True r show ?thesis by (auto simp: string_body_escape)
      next
        case u: True
        with 1 Cons True r have q: "4 \<le> length q" "list_all is_hex (take 4 q)" "string_body (drop 4 q)"
          by (simp_all add: string_body_escape)
        then obtain x y z w p where p: "q = x # y # z # w # p" using list4 [OF q(1)] by blast
        with q(2) have "\<forall>k\<in>set [x, y, z, w]. k \<noteq> CHR 0x22 \<and> k \<noteq> CHR 0x5C" using hex_not_quote by auto
        moreover have "string_end (p @ CHR 0x22 # r) = Some (p, r)" using 1 Cons True r p q by simp
        ultimately show ?thesis using Cons True r u p by simp
      qed
    qed
  qed simp
qed

lemma getu4_body:
  "getu4 s = Some x \<Longrightarrow> string_body s \<Longrightarrow> string_body (drop 6 s)"
  by (cases s; cases "tl s") (auto simp: getu4_def string_body_escape split: if_splits)

lemma unescape_body:
  assumes "string_body (CHR 0x5C # s)"
  shows "\<exists>b r. unescape s = Some (b, r) \<and> string_body r"
proof -
  obtain d q where s: "s = d # q" using assms by (cases s) (auto simp: string_body_escape)
  show ?thesis
  proof (cases "d = CHR ''u''")
    case False
    with assms show ?thesis by (auto simp: s string_body_escape unescape_def)
  next
    case True
    with assms have q: "4 \<le> length q" "list_all is_hex (take 4 q)" "string_body (drop 4 q)"
      by (simp_all add: s string_body_escape)
    then have "getu4 (CHR 0x5C # s) = Some (hex4 q)" by (simp add: s True getu4_def)
    moreover have "drop 5 s = drop 4 q" by (simp add: s)
    ultimately show ?thesis
      using q(3) getu4_body [OF _ q(3)]
      by (auto simp: unescape_def s True Let_def surrogate_pair_def split: option.splits)
  qed
qed

lemma rune_body:
  assumes "rune_size s = Some n" "string_body s" "hd s \<noteq> CHR 0x5C"
  shows "string_body (drop n s)"
proof (cases "n = 1")
  case True
  with assms show ?thesis by (cases s) (auto simp: string_body_plain rune_size.simps)
next
  case False
  have plain: "c \<noteq> CHR 0x5C" if "c \<in> set (take n s)" for c
    using rune_bytes_above [OF assms(1) False that] by simp
  have "string_body (p @ q) \<Longrightarrow> \<forall>c\<in>set p. c \<noteq> CHR 0x5C \<Longrightarrow> string_body q" for p q
    by (induction p) (auto simp: string_body_plain)
  from this [of "take n s" "drop n s"] plain assms(2) show ?thesis by simp
qed

lemma unquote_body_ok: "string_body b \<Longrightarrow> \<exists>u. unquote_body b = Some u"
proof (induction b rule: length_induct)
  case (1 b)
  show ?case
  proof (cases b)
    case Nil
    then show ?thesis by (simp add: unquote_body.simps [of "[]"])
  next
    case (Cons c r)
    show ?thesis
    proof (cases "c = CHR 0x5C")
      case True
      with 1 Cons unescape_body [of r] obtain x q where "unescape r = Some (x, q)" "string_body q" by auto
      with 1 Cons True unescape_shorter [of r x q] show ?thesis by (auto simp: unquote_escape)
    next
      case False
      show ?thesis
      proof (cases "rune_size b")
        case None
        with 1 Cons False show ?thesis
          by (auto simp: unquote_body.simps [of "c # r"] string_body_plain)
      next
        case (Some n)
        with 1 Cons False have "string_body (drop n b)" "length (drop n b) < length b"
          using rune_body [of b n] rune_size_bounds [OF Some] by auto
        with 1 Cons False Some show ?thesis by (auto simp: unquote_body.simps [of "c # r"])
      qed
    qed
  qed
qed

text \<open>What the scanner accepts as a string.\<close>

lemma accepts_string:
  "accepts (InString, ks) s \<Longrightarrow> \<exists>b r. s = b @ CHR 0x22 # r \<and> string_body b \<and> accepts (EndValue, ks) r"
proof (induction s rule: length_induct)
  case (1 s)
  have IH: "\<exists>b r. t = b @ CHR 0x22 # r \<and> string_body b \<and> accepts (EndValue, ks) r"
    if "length t < length s" "accepts (InString, ks) t" for t
    using "1.IH" that by blast
  show ?case
  proof (cases s)
    case Nil
    with 1 show ?thesis by (simp add: scan_eof_def goto_def byte_in_def)
  next
    case (Cons c t)
    consider "c = CHR 0x22" | "c = CHR 0x5C" | "c \<noteq> CHR 0x22" "c \<noteq> CHR 0x5C" by blast
    then show ?thesis
    proof cases
      case 1
      with Cons "1.prems" show ?thesis
        by (intro exI [of _ "[]"] exI [of _ t]) (simp add: accepts_Cons goto_def)
    next
      case 3
      with Cons "1.prems" have "accepts (InString, ks) t" "\<not> byte_in c 0 0x1F"
        by (auto simp: accepts_Cons goto_def split: if_splits)
      with IH [of t] Cons obtain b r where "t = b @ CHR 0x22 # r" "string_body b" "accepts (EndValue, ks) r" by auto
      with 3 Cons \<open>\<not> byte_in c 0 0x1F\<close> show ?thesis
        by (intro exI [of _ "c # b"] exI [of _ r]) (auto simp: string_body_plain)
    next
      case 2
      with Cons "1.prems" have e: "accepts (InStringEsc, ks) t" by (auto simp: accepts_Cons goto_def)
      then obtain d q where t: "t = d # q" by (cases t) (auto simp: scan_eof_def)
      show ?thesis
      proof (cases "d = CHR ''u''")
        case False
        with e t have d: "d \<in> set ''bfnrt/'' \<or> d = CHR 0x5C \<or> d = CHR 0x22" "accepts (InString, ks) q"
          by (auto simp: accepts_Cons goto_def split: if_splits)
        obtain b r where "q = b @ CHR 0x22 # r" "string_body b" "accepts (EndValue, ks) r"
          using IH [of q] d(2) Cons t by auto
        with 2 Cons t d False show ?thesis
          by (intro exI [of _ "c # d # b"] exI [of _ r]) (auto simp: string_body_escape)
      next
        case True
        with e t have "accepts (InEscU, ks) q" by (auto simp: accepts_Cons goto_def)
        then obtain x y z w p where q: "q = x # y # z # w # p" "list_all is_hex [x, y, z, w]" "accepts (InString, ks) p"
          by (cases q; cases "tl q"; cases "tl (tl q)"; cases "tl (tl (tl q))")
             (auto simp: accepts_Cons goto_def scan_eof_def split: if_splits)
        obtain b r where "p = b @ CHR 0x22 # r" "string_body b" "accepts (EndValue, ks) r"
          using IH [of p] q Cons t by auto
        with 2 Cons t q True show ?thesis
          by (intro exI [of _ "c # d # x # y # z # w # b"] exI [of _ r]) (auto simp: string_body_escape)
      qed
    qed
  qed
qed

text \<open>What it accepts as a number.\<close>

definition in_number :: "jstep \<Rightarrow> bool" where
  "in_number q \<longleftrightarrow> q \<in> {Neg, Num1, Num0, Dot, Dot0, ExpE, ExpSign, Exp0}"

lemma accepts_stops: "accepts (EndValue, ks) r \<Longrightarrow> stops r"
  by (cases r; cases ks)
     (auto simp: accepts_Cons end_value_def json_space_def number_char_def is_digit_of_char
       split: if_splits pstate.splits)

lemma in_number_step:
  assumes "in_number q" "scan_step (q, ks) c = Some x"
  shows "(\<exists>q'. x = (True, q', ks) \<and> in_number q' \<and> number_char c \<and> (\<forall>ks. scan_step (q, ks) c = Some (True, q', ks)))
    \<or> num_end q \<and> scan_step (q, ks) c = end_value ks c"
  using assms
  by (cases q) (simp_all add: in_number_def num_end_def goto_def number_char_def is_digit_of_char split: if_splits, auto)

lemma accepts_in_number:
  "accepts (q, ks) s \<Longrightarrow> in_number q \<Longrightarrow>
   \<exists>n r q'. s = n @ r \<and> list_all number_char n \<and> num_end q' \<and> (\<forall>ks. scan_run (q, ks) n = Some (n, q', ks))
     \<and> accepts (EndValue, ks) r"
proof (induction s arbitrary: q)
  case Nil
  then have "num_end q" by (auto simp: in_number_def num_end_def scan_eof_def goto_def is_digit_of_char)
  with Nil show ?case using accepts_number [of q "[]" ks] by (intro exI [of _ "[]"]) auto
next
  case (Cons c s)
  have "(\<exists>q'. in_number q' \<and> number_char c \<and> (\<forall>ks. scan_step (q, ks) c = Some (True, q', ks)) \<and> accepts (q', ks) s)
    \<or> num_end q \<and> accepts (EndValue, ks) (c # s)"
  proof -
    obtain x where x: "scan_step (q, ks) c = Some x" using Cons.prems(1) by (auto simp: accepts_Cons split: option.splits)
    have "accepts (EndValue, ks) (c # s)" if "scan_step (q, ks) c = end_value ks c"
      using Cons.prems(1) by (simp only: accepts_Cons that scan_step.simps(5))
    with in_number_step [OF Cons.prems(2) x] Cons.prems(1) x show ?thesis by (auto simp: accepts_Cons [of "(q, ks)"])
  qed
  then show ?case
  proof (elim disjE exE conjE)
    fix q' assume q': "in_number q'" "number_char c" "\<forall>ks. scan_step (q, ks) c = Some (True, q', ks)" "accepts (q', ks) s"
    from Cons.IH [OF q'(4,1)] obtain n r q2 where
      n: "s = n @ r" "list_all number_char n" "num_end q2" "\<forall>ks. scan_run (q', ks) n = Some (n, q2, ks)" "accepts (EndValue, ks) r"
      by blast
    with q' show ?thesis by (intro exI [of _ "c # n"] exI [of _ r] exI [of _ q2]) simp
  next
    assume "num_end q" "accepts (EndValue, ks) (c # s)"
    then show ?thesis by (intro exI [of _ "[]"] exI [of _ "c # s"] exI [of _ q]) simp
  qed
qed

lemma number_textI:
  assumes "begin_value BeginValue [] c = goto q []" "in_number q" "accepts (q, ks) s" "number_char c"
    "\<And>ks. begin_value BeginValue ks c = goto q ks"
  shows "\<exists>n r. c # s = n @ r \<and> number_text n \<and> accepts (EndValue, ks) r"
proof -
  from accepts_in_number [OF assms(3,2)] obtain n r q' where
    n: "s = n @ r" "list_all number_char n" "num_end q'" "\<forall>ks. scan_run (q, ks) n = Some (n, q', ks)" "accepts (EndValue, ks) r"
    by blast
  then have "number_text (c # n)"
    using assms(4,5) by (auto simp: number_text_def goto_def intro!: exI [of _ q'])
  with n show ?thesis by (intro exI [of _ "c # n"] exI [of _ r]) simp
qed

section \<open>The parser on the grammar\<close>

lemma skip_spaces [simp]: "spaces w \<Longrightarrow> skip_space (w @ s) = skip_space s"
  by (induction w) (simp_all add: skip_space_def)

lemma skip_space_head: "s \<noteq> [] \<Longrightarrow> \<not> json_space (hd s) \<Longrightarrow> skip_space s = s"
  by (cases s) (simp_all add: skip_space_def)

lemma number_char_not:
  "number_char c \<Longrightarrow> \<not> json_space c \<and> c \<noteq> CHR '']'' \<and> c \<noteq> CHR ''}'' \<and> c \<noteq> CHR ''{'' \<and> c \<noteq> CHR ''[''
     \<and> c \<noteq> CHR 0x22 \<and> c \<noteq> CHR ''n'' \<and> c \<noteq> CHR ''t'' \<and> c \<noteq> CHR ''f''"
  by (auto simp: number_char_def json_space_def is_digit_of_char)

lemma text_head:
  "json_text v t c \<Longrightarrow> \<exists>x y. t = x # y \<and> \<not> json_space x \<and> x \<noteq> CHR '']''"
  "elements_text vs t c \<Longrightarrow> \<exists>x y. t = x # y \<and> \<not> json_space x \<and> x \<noteq> CHR '']''"
  "members_text ms t c \<Longrightarrow> \<exists>y. t = CHR 0x22 # y"
proof (induction rule: json_text_elements_text_members_text.inducts)
  case (number n)
  then show ?case by (cases n) (auto simp: number_text_def dest: number_char_not)
qed (auto simp: json_space_def)

lemma skip_text [simp]:
  "json_text v t c \<Longrightarrow> skip_space (t @ r) = t @ r"
  "elements_text vs t c \<Longrightarrow> skip_space (t @ r) = t @ r"
  "members_text ms t c \<Longrightarrow> skip_space (t @ r) = t @ r"
  by (fastforce dest: text_head simp: skip_space_def json_space_def)+

lemma space_stops [simp]: "json_space c \<Longrightarrow> \<not> number_char c"
  by (auto dest: number_char_not)

lemma stops_spaces [simp]: "spaces w \<Longrightarrow> \<not> number_char x \<Longrightarrow> stops (w @ x # r)"
  by (cases w) auto

lemma parse_number_text:
  assumes "number_text n" "stops r"
  shows "parse_value (n @ r) = Some (JNum n, r)"
proof -
  obtain c m where n: "n = c # m" using assms(1) by (cases n) (auto simp: number_text_def)
  from assms(1) have all: "list_all number_char n" by (simp add: number_text_def)
  with n number_char_not [of c] have "c \<noteq> CHR ''{''" "c \<noteq> CHR ''[''" "c \<noteq> CHR 0x22"
    "\<not> has_prefix (n @ r) ''null''" "\<not> has_prefix (n @ r) ''true''" "\<not> has_prefix (n @ r) ''false''"
    by (auto simp: has_prefix_Cons)
  moreover have "takeWhile number_char (n @ r) = n"
    using all assms(2) by (cases r) (auto simp: list_all_iff takeWhile_append)
  ultimately show ?thesis using n by (simp add: parse_value_Cons split: if_splits)
qed

lemma skip_punct [simp]:
  "skip_space (CHR '']'' # r) = CHR '']'' # r" "skip_space (CHR ''['' # r) = CHR ''['' # r"
  by (simp_all add: skip_space_def json_space_def)

lemma parse_members_text:
  assumes "string_body b" "unquote_body b = Some k" "spaces w1" "spaces w2" "skip_space s = s"
  shows "parse_members (CHR 0x22 # b @ CHR 0x22 # w1 @ CHR '':'' # w2 @ s) =
    (case parse_value s of
       None \<Rightarrow> None
     | Some (v, z) \<Rightarrow>
         (case skip_space z of
            [] \<Rightarrow> None
          | e # z' \<Rightarrow>
              if e = CHR ''}'' then Some ([(k, v)], z')
              else if e = CHR '','' \<and> length (skip_space z') < length (CHR 0x22 # b @ CHR 0x22 # w1 @ CHR '':'' # w2 @ s)
              then map_option (\<lambda>(ms, y). ((k, v) # ms, y)) (parse_members (skip_space z'))
              else None))"
  using assms
  by (simp add: parse_members_Cons string_end_body cong: if_cong list.case_cong option.case_cong)

lemma parse_array_text:
  "spaces w \<Longrightarrow> s = x # y \<Longrightarrow> \<not> json_space x \<Longrightarrow> x \<noteq> CHR '']'' \<Longrightarrow>
   parse_value (CHR ''['' # w @ s) = map_option (\<lambda>(vs, q). (JArr vs, q)) (parse_elements s)"
  using skip_space_head [of s] by (simp add: parse_value_Cons)

lemma parse_object_text:
  "spaces w \<Longrightarrow> s = CHR 0x22 # y \<Longrightarrow>
   parse_value (CHR ''{'' # w @ s) = map_option (\<lambda>(ms, q). (JObj ms, q)) (parse_members s)"
  by (simp add: parse_value_Cons)

lemma parse_text:
  "json_text v t c \<Longrightarrow> stops r \<Longrightarrow> parse_value (t @ r) = Some (v, r)"
  "elements_text vs t c \<Longrightarrow> parse_elements (t @ CHR '']'' # r) = Some (vs, r)"
  "members_text ms t c \<Longrightarrow> parse_members (t @ CHR ''}'' # r) = Some (ms, r)"
proof (induction arbitrary: r and r and r rule: json_text_elements_text_members_text.inducts)
  case (number n)
  then show ?case by (simp add: parse_number_text)
next
  case (string_text b u)
  then show ?case by (simp add: parse_value_Cons string_end_body)
next
  case (array w vs t c)
  obtain x y where "t = x # y" "\<not> json_space x" "x \<noteq> CHR '']''" using text_head(2) [OF array(2)] by blast
  then show ?case using array parse_array_text [of w "t @ CHR '']'' # r" x "y @ CHR '']'' # r"] by simp
next
  case (object w ms t c)
  obtain y where "t = CHR 0x22 # y" using text_head(3) [OF object(2)] by blast
  then show ?case using object parse_object_text [of w "t @ CHR ''}'' # r" "y @ CHR ''}'' # r"] by simp
next
  case (last_element v t c w)
  then show ?case by (simp add: parse_elements.simps [of "t @ w @ CHR '']'' # r"])
next
  case (more_elements v t c w w' vs t' c')
  then show ?case
    by (simp add: parse_elements.simps [of "t @ w @ CHR '','' # w' @ t' @ CHR '']'' # r"])
next
  case (last_member b k w1 w2 v t c w3)
  then show ?case by (simp add: parse_members_text)
next
  case (more_members b k w1 w2 v t c w3 w4 ms t' c')
  then show ?case by (simp add: parse_members_text)
qed (simp_all add: parse_value_Cons has_prefix_Cons)

section \<open>The scanner on the grammar\<close>

text \<open>The states after a value inside the open objects and arrays \<open>ks\<close>.\<close>

definition ended :: "jscan \<Rightarrow> pstate list \<Rightarrow> bool" where
  "ended st ks \<longleftrightarrow>
     st = (EndValue, ks) \<or> (\<exists>q. num_end q \<and> st = (q, ks)) \<or> ks = [] \<and> st = (EndTop, [])"

lemma ended_value [simp]: "ended (EndValue, ks) ks"
  by (simp add: ended_def)

lemma scan_spaces:
  assumes "spaces w"
  shows "scan_run (BeginValue, ks) (w @ s) = scan_run (BeginValue, ks) s"
    "scan_run (BeginString, ks) (w @ s) = scan_run (BeginString, ks) s"
    "scan_run (BeginValueOrEmpty, ks) (w @ s) = scan_run (BeginValueOrEmpty, ks) s"
    "scan_run (BeginStringOrEmpty, ks) (w @ s) = scan_run (BeginStringOrEmpty, ks) s"
    "scan_run (EndTop, ks) (w @ s) = scan_run (EndTop, ks) s"
    "scan_run (EndValue, k # ks) (w @ s) = scan_run (EndValue, k # ks) s"
  using assms
  by (induction w)
     (auto simp: begin_value_def begin_string_def end_value_def json_space_def map_option_case split: option.splits)

lemma accepts_spaces:
  assumes "spaces w"
  shows "accepts (BeginValue, ks) (w @ s) = accepts (BeginValue, ks) s"
    "accepts (BeginString, ks) (w @ s) = accepts (BeginString, ks) s"
    "accepts (BeginValueOrEmpty, ks) (w @ s) = accepts (BeginValueOrEmpty, ks) s"
    "accepts (BeginStringOrEmpty, ks) (w @ s) = accepts (BeginStringOrEmpty, ks) s"
    "accepts (EndValue, k # ks) (w @ s) = accepts (EndValue, k # ks) s"
  using assms by (simp_all add: accepts_iff scan_spaces)

lemma scan_ended:
  assumes "ended st (k # ks)" "spaces w" "x \<in> set [CHR '','', CHR '']'', CHR ''}'', CHR '':'']"
  shows "scan_run st (w @ x # r) = scan_run (EndValue, k # ks) (x # r)"
proof -
  from assms(1) consider "st = (EndValue, k # ks)" | q where "num_end q" "st = (q, k # ks)"
    by (auto simp: ended_def)
  then show ?thesis
  proof cases
    case 1
    with assms(2) show ?thesis by (simp add: scan_spaces)
  next
    case (2 q)
    show ?thesis
    proof (cases w)
      case Nil
      have "scan_step (q, k # ks) x = end_value (k # ks) x"
        using 2(1) assms(3) by (auto simp: num_end_def is_digit_of_char)
      with Nil 2 show ?thesis by simp
    next
      case (Cons c w')
      then have "scan_step (q, k # ks) c = Some (False, EndValue, k # ks)"
        using 2(1) assms(2) by (auto simp: num_end_def end_value_def json_space_def is_digit_of_char)
      with Cons 2 assms(2) show ?thesis by (simp add: scan_spaces map_option_case split: option.splits)
    qed
  qed
qed

lemma scan_close:
  "\<exists>st. scan_run (EndValue, ArrayValue # ks) ('']'') = Some ('']'', st) \<and> ended st ks"
  "\<exists>st. scan_run (EndValue, ObjectValue # ks) (''}'') = Some (''}'', st) \<and> ended st ks"
  "\<exists>st. scan_run (BeginValueOrEmpty, ArrayValue # ks) ('']'') = Some ('']'', st) \<and> ended st ks"
  "\<exists>st. scan_run (BeginStringOrEmpty, ObjectKey # ks) (''}'') = Some (''}'', st) \<and> ended st ks"
  by (cases ks; simp add: step_defs ended_def)+

lemma scan_or_empty:
  "t = x # y \<Longrightarrow> \<not> json_space x \<Longrightarrow> x \<noteq> CHR '']'' \<Longrightarrow> scan_run (BeginValueOrEmpty, ks) (t @ r) = scan_run (BeginValue, ks) (t @ r)"
  "t = CHR 0x22 # y \<Longrightarrow> scan_run (BeginStringOrEmpty, ks) (t @ r) = scan_run (BeginString, ks) (t @ r)"
  by (simp_all add: begin_value_def begin_string_def json_space_def)

lemma foldr_max_le: "foldr (\<lambda>x n. max (f x) n) xs 0 \<le> (m :: nat) \<longleftrightarrow> (\<forall>x\<in>set xs. f x \<le> m)"
  by (induction xs) auto

lemma scan_key_text:
  assumes "string_body b" "spaces w1" "spaces w2"
  shows "scan_run (BeginString, ObjectKey # ks) (CHR 0x22 # b @ CHR 0x22 # w1 @ CHR '':'' # w2 @ s)
    = map_option (\<lambda>(out, st). (CHR 0x22 # b @ CHR 0x22 # CHR '':'' # out, st)) (scan_run (BeginValue, ObjectValue # ks) s)"
proof -
  have k: "scan_run (BeginString, ObjectKey # ks) (CHR 0x22 # b @ [CHR 0x22])
    = Some (CHR 0x22 # b @ [CHR 0x22], EndValue, ObjectKey # ks)"
    using assms(1) by (simp add: scan_run_append scan_string_body step_defs)
  have c: "scan_run (EndValue, ObjectKey # ks) (w1 @ CHR '':'' # w2 @ s)
    = map_option (\<lambda>(out, st). (CHR '':'' # out, st)) (scan_run (BeginValue, ObjectValue # ks) s)"
    using assms(2,3) by (simp add: scan_spaces) (simp add: step_defs scan_spaces)
  have "CHR 0x22 # b @ CHR 0x22 # w1 @ CHR '':'' # w2 @ s
    = (CHR 0x22 # b @ [CHR 0x22]) @ (w1 @ CHR '':'' # w2 @ s)" by simp
  then show ?thesis
    using k c by (simp only: scan_run_append) (auto simp: map_option_case split: option.splits)
qed

lemma scan_text:
  "json_text v t c \<Longrightarrow> length ks + height v \<le> max_nesting_depth \<Longrightarrow>
   \<exists>st. scan_run (BeginValue, ks) t = Some (c, st) \<and> ended st ks"
  "elements_text vs t c \<Longrightarrow> \<forall>v\<in>set vs. Suc (length ks) + height v \<le> max_nesting_depth \<Longrightarrow>
   \<exists>st. scan_run (BeginValue, ArrayValue # ks) (t @ '']'') = Some (c @ '']'', st) \<and> ended st ks"
  "members_text ms t c \<Longrightarrow> \<forall>m\<in>set ms. Suc (length ks) + height (snd m) \<le> max_nesting_depth \<Longrightarrow>
   \<exists>st. scan_run (BeginString, ObjectKey # ks) (t @ ''}'') = Some (c @ ''}'', st) \<and> ended st ks"
proof (induction arbitrary: ks and ks and ks rule: json_text_elements_text_members_text.inducts)
  case (number n)
  then show ?case by (auto simp: number_text_def ended_def)
next
  case (string_text b u)
  then show ?case by (simp add: scan_run_append scan_string_body step_defs)
next
  case (empty_array w)
  then show ?case using scan_close(3) [of ks] by (auto simp: scan_spaces step_defs)
next
  case (empty_object w)
  then show ?case using scan_close(4) [of ks] by (auto simp: scan_spaces step_defs)
next
  case (array w vs t c)
  obtain x y where x: "t = x # y" "\<not> json_space x" "x \<noteq> CHR '']''" using text_head(2) [OF array(2)] by blast
  from array.prems have d: "length ks < max_nesting_depth" "\<forall>v\<in>set vs. Suc (length ks) + height v \<le> max_nesting_depth"
    using foldr_max_le [of height vs "max_nesting_depth - Suc (length ks)"] by (auto simp: le_diff_conv2)
  from array.IH [OF d(2)] obtain st where
    "scan_run (BeginValue, ArrayValue # ks) (t @ '']'') = Some (c @ '']'', st)" "ended st ks" by blast
  with scan_or_empty(1) [OF x, of "ArrayValue # ks" "'']''"]
  have "scan_run (BeginValueOrEmpty, ArrayValue # ks) (w @ t @ '']'') = Some (c @ '']'', st)"
    using array(1) by (simp add: scan_spaces)
  moreover have "scan_step (BeginValue, ks) CHR ''['' = Some (True, BeginValueOrEmpty, ArrayValue # ks)"
    using d(1) by (simp add: step_defs)
  ultimately show ?case using \<open>ended st ks\<close> by simp
next
  case (object w ms t c)
  obtain y where y: "t = CHR 0x22 # y" using text_head(3) [OF object(2)] by blast
  from object.prems have d: "length ks < max_nesting_depth"
    "\<forall>m\<in>set ms. Suc (length ks) + height (snd m) \<le> max_nesting_depth"
    using foldr_max_le [of "\<lambda>m. height (snd m)" ms "max_nesting_depth - Suc (length ks)"] by (auto simp: le_diff_conv2)
  from object.IH [OF d(2)] obtain st where
    "scan_run (BeginString, ObjectKey # ks) (t @ ''}'') = Some (c @ ''}'', st)" "ended st ks" by blast
  with scan_or_empty(2) [OF y, of "ObjectKey # ks" "''}''"]
  have "scan_run (BeginStringOrEmpty, ObjectKey # ks) (w @ t @ ''}'') = Some (c @ ''}'', st)"
    using object(1) by (simp add: scan_spaces)
  moreover have "scan_step (BeginValue, ks) CHR ''{'' = Some (True, BeginStringOrEmpty, ObjectKey # ks)"
    using d(1) by (simp add: step_defs)
  ultimately show ?case using \<open>ended st ks\<close> by simp
next
  case (last_element v t c w)
  obtain st where st: "scan_run (BeginValue, ArrayValue # ks) t = Some (c, st)" "ended st (ArrayValue # ks)"
    using last_element.IH [of "ArrayValue # ks"] last_element.prems by auto
  with scan_ended [OF st(2) last_element(2), of "CHR '']''" "[]"] scan_close(1) [of ks] show ?case
    by (auto simp: scan_run_append)
next
  case (more_elements v t c w w' vs t' c')
  obtain st where st: "scan_run (BeginValue, ArrayValue # ks) t = Some (c, st)" "ended st (ArrayValue # ks)"
    using more_elements.IH(1) [of "ArrayValue # ks"] more_elements.prems by auto
  obtain st' where st': "scan_run (BeginValue, ArrayValue # ks) (t' @ '']'') = Some (c' @ '']'', st')" "ended st' ks"
    using more_elements.IH(2) [of ks] more_elements.prems by auto
  have "scan_run st (w @ CHR '','' # w' @ t' @ '']'') = Some (CHR '','' # c' @ '']'', st')"
    using scan_ended [OF st(2) more_elements(2), of "CHR '',''" "w' @ t' @ '']''"] st'(1) more_elements(3)
    by (simp add: end_value_def goto_def json_space_def scan_spaces)
  with st st'(2) show ?case by (simp add: scan_run_append [of _ t])
next
  case (last_member b k w1 w2 v t c w3)
  obtain st where st: "scan_run (BeginValue, ObjectValue # ks) t = Some (c, st)" "ended st (ObjectValue # ks)"
    using last_member.IH [of "ObjectValue # ks"] last_member.prems by auto
  obtain st' where st': "scan_run st (w3 @ ''}'') = Some (''}'', st')" "ended st' ks"
    using scan_ended [OF st(2) last_member(6), of "CHR ''}''" "[]"] scan_close(2) [of ks] by auto
  have "scan_run (BeginValue, ObjectValue # ks) (t @ w3 @ ''}'') = Some (c @ ''}'', st')"
    using st(1) st'(1) by (simp add: scan_run_append [of _ t])
  with st'(2) last_member(1,3,4) show ?case by (simp add: scan_key_text del: scan_run.simps(2))
next
  case (more_members b k w1 w2 v t c w3 w4 ms t' c')
  obtain st where st: "scan_run (BeginValue, ObjectValue # ks) t = Some (c, st)" "ended st (ObjectValue # ks)"
    using more_members.IH(1) [of "ObjectValue # ks"] more_members.prems by auto
  obtain st' where st': "scan_run (BeginString, ObjectKey # ks) (t' @ ''}'') = Some (c' @ ''}'', st')" "ended st' ks"
    using more_members.IH(2) [of ks] more_members.prems by auto
  have "scan_run st (w3 @ CHR '','' # w4 @ t' @ ''}'') = Some (CHR '','' # c' @ ''}'', st')"
    using scan_ended [OF st(2) more_members(6), of "CHR '',''" "w4 @ t' @ ''}''"] st'(1) more_members(7)
    by (simp add: end_value_def goto_def json_space_def scan_spaces)
  with st have "scan_run (BeginValue, ObjectValue # ks) (t @ w3 @ CHR '','' # w4 @ t' @ ''}'')
    = Some (c @ CHR '','' # c' @ ''}'', st')" by (simp add: scan_run_append [of _ t])
  with st'(2) more_members(1,3,4) show ?case by (simp add: scan_key_text del: scan_run.simps(2))
qed (simp_all add: step_defs)

section \<open>The scanner accepts nothing else\<close>

text \<open>What is shown by induction on a bound for the length: a value, the elements of an array and
  the members of an object up to their closing bracket.\<close>

definition value_found :: "pstate list \<Rightarrow> bytes \<Rightarrow> bool" where
  "value_found ks s \<longleftrightarrow>
     (\<exists>v t c r. s = t @ r \<and> json_text v t c \<and> accepts (EndValue, ks) r \<and> length ks + height v \<le> max_nesting_depth)"

definition elements_found :: "pstate list \<Rightarrow> bytes \<Rightarrow> bool" where
  "elements_found ks s \<longleftrightarrow>
     (\<exists>vs t c r. s = t @ CHR '']'' # r \<and> elements_text vs t c \<and> accepts (EndValue, ks) r
        \<and> (\<forall>v\<in>set vs. Suc (length ks) + height v \<le> max_nesting_depth))"

definition members_found :: "pstate list \<Rightarrow> bytes \<Rightarrow> bool" where
  "members_found ks s \<longleftrightarrow>
     (\<exists>ms t c r. s = t @ CHR ''}'' # r \<and> members_text ms t c \<and> accepts (EndValue, ks) r
        \<and> (\<forall>m\<in>set ms. Suc (length ks) + height (snd m) \<le> max_nesting_depth))"

lemma value_foundI:
  "s = t @ r \<Longrightarrow> json_text v t c \<Longrightarrow> accepts (EndValue, ks) r \<Longrightarrow> length ks + height v \<le> max_nesting_depth \<Longrightarrow>
   value_found ks s"
  unfolding value_found_def by blast

lemma split_spaces: "\<exists>w r. s = w @ r \<and> spaces w \<and> (r = [] \<or> \<not> json_space (hd r))"
  by (rule exI [of _ "takeWhile json_space s"], rule exI [of _ "dropWhile json_space s"])
     (use hd_dropWhile [of json_space s] in \<open>auto simp: spaces_def list_all_iff dest: set_takeWhileD\<close>)

lemma no_eof:
  "\<not> scan_eof (BeginValue, ks)" "\<not> scan_eof (BeginString, ks)" "\<not> scan_eof (BeginValueOrEmpty, ks)"
  "\<not> scan_eof (BeginStringOrEmpty, ks)" "\<not> scan_eof (EndValue, k # ks)"
  by (auto simp: scan_eof_def step_defs)

lemma accepts_literal:
  "accepts (LitT, ks) s \<Longrightarrow> \<exists>r. s = ''rue'' @ r \<and> accepts (EndValue, ks) r"
  "accepts (LitF, ks) s \<Longrightarrow> \<exists>r. s = ''alse'' @ r \<and> accepts (EndValue, ks) r"
  "accepts (LitN, ks) s \<Longrightarrow> \<exists>r. s = ''ull'' @ r \<and> accepts (EndValue, ks) r"
  by (cases s; cases "tl s"; cases "tl (tl s)"; cases "tl (tl (tl s))";
      auto simp: accepts_Cons expect_def goto_def scan_eof_def split: if_splits)+

lemma array_found:
  assumes rec: "\<And>ks s. length s \<le> n \<Longrightarrow> accepts (BeginValue, ArrayValue # ks) s \<Longrightarrow> s \<noteq> [] \<Longrightarrow> \<not> json_space (hd s)
      \<Longrightarrow> length ks < max_nesting_depth \<Longrightarrow> elements_found ks s"
    and s: "length s \<le> n" "accepts (BeginValueOrEmpty, ArrayValue # ks) s" "length ks < max_nesting_depth"
  shows "value_found ks (CHR ''['' # s)"
proof -
  obtain w r where w: "s = w @ r" "spaces w" "r = [] \<or> \<not> json_space (hd r)" using split_spaces by blast
  with s(2) have a: "accepts (BeginValueOrEmpty, ArrayValue # ks) r" by (simp add: accepts_spaces)
  with no_eof obtain x y where r: "r = x # y" by (cases r) auto
  show ?thesis
  proof (cases "x = CHR '']''")
    case True
    with a r have "accepts (EndValue, ks) y" by (simp add: accepts_punct)
    with w r True s(3) show ?thesis
      by (intro value_foundI [OF _ empty_array [OF w(2)]]) auto
  next
    case False
    with a r w(3) have "accepts (BeginValue, ArrayValue # ks) r" using begin_or_empty [of x] by simp
    with rec [of r ks] w s(1,3) r obtain vs t c q where
      e: "r = t @ CHR '']'' # q" "elements_text vs t c" "accepts (EndValue, ks) q"
      "\<forall>v\<in>set vs. Suc (length ks) + height v \<le> max_nesting_depth"
      by (auto simp: elements_found_def)
    then have "length ks + height (JArr vs) \<le> max_nesting_depth"
      using foldr_max_le [of height vs "max_nesting_depth - Suc (length ks)"] s(3) by fastforce
    with e w show ?thesis
      by (intro value_foundI [OF _ array [OF w(2) e(2)] e(3)]) auto
  qed
qed

lemma object_found:
  assumes rec: "\<And>ks s. length s \<le> n \<Longrightarrow> accepts (BeginString, ObjectKey # ks) s \<Longrightarrow> s \<noteq> [] \<Longrightarrow> \<not> json_space (hd s)
      \<Longrightarrow> length ks < max_nesting_depth \<Longrightarrow> members_found ks s"
    and s: "length s \<le> n" "accepts (BeginStringOrEmpty, ObjectKey # ks) s" "length ks < max_nesting_depth"
  shows "value_found ks (CHR ''{'' # s)"
proof -
  obtain w r where w: "s = w @ r" "spaces w" "r = [] \<or> \<not> json_space (hd r)" using split_spaces by blast
  with s(2) have a: "accepts (BeginStringOrEmpty, ObjectKey # ks) r" by (simp add: accepts_spaces)
  with no_eof obtain x y where r: "r = x # y" by (cases r) auto
  show ?thesis
  proof (cases "x = CHR ''}''")
    case True
    with a r have "accepts (EndValue, ks) y" by (simp add: accepts_punct)
    with w r True s(3) show ?thesis
      by (intro value_foundI [OF _ empty_object [OF w(2)]]) auto
  next
    case False
    with a r w(3) have "accepts (BeginString, ObjectKey # ks) r"
      by (auto simp: accepts_Cons begin_string_def goto_def split: if_splits)
    with rec [of r ks] w s(1,3) r obtain ms t c q where
      e: "r = t @ CHR ''}'' # q" "members_text ms t c" "accepts (EndValue, ks) q"
      "\<forall>m\<in>set ms. Suc (length ks) + height (snd m) \<le> max_nesting_depth"
      by (auto simp: members_found_def)
    then have "length ks + height (JObj ms) \<le> max_nesting_depth"
      using foldr_max_le [of "\<lambda>m. height (snd m)" ms "max_nesting_depth - Suc (length ks)"] s(3) by fastforce
    with e w show ?thesis
      by (intro value_foundI [OF _ object [OF w(2) e(2)] e(3)]) auto
  qed
qed

lemma value_found_step:
  assumes ea: "\<And>ks s. length s \<le> n \<Longrightarrow> accepts (BeginValue, ArrayValue # ks) s \<Longrightarrow> s \<noteq> [] \<Longrightarrow> \<not> json_space (hd s)
      \<Longrightarrow> length ks < max_nesting_depth \<Longrightarrow> elements_found ks s"
    and eo: "\<And>ks s. length s \<le> n \<Longrightarrow> accepts (BeginString, ObjectKey # ks) s \<Longrightarrow> s \<noteq> [] \<Longrightarrow> \<not> json_space (hd s)
      \<Longrightarrow> length ks < max_nesting_depth \<Longrightarrow> members_found ks s"
    and s: "length s \<le> Suc n" "accepts (BeginValue, ks) s" "s \<noteq> []" "\<not> json_space (hd s)" "length ks \<le> max_nesting_depth"
  shows "value_found ks s"
proof -
  obtain c t where ct: "s = c # t" "\<not> json_space c" using s(3,4) by (cases s) auto
  obtain k st where step: "begin_value BeginValue ks c = Some (k, st)" "accepts st t"
    using s(2) ct by (auto simp: accepts_Cons split: option.splits)
  have num: "value_found ks s" if "number_char c" "in_number q" "st = (q, ks)" "\<And>ks. begin_value BeginValue ks c = goto q ks" for q
  proof -
    from number_textI [OF that(4) that(2) _ that(1) that(4)] step(2) that(3) obtain n r where
      n: "c # t = n @ r" "number_text n" "accepts (EndValue, ks) r" by blast
    show ?thesis by (rule value_foundI [OF _ number [OF n(2)] n(3)]) (use n ct s(5) in auto)
  qed
  consider "c = CHR ''{''" | "c = CHR ''[''" | "c = CHR 0x22" | "c = CHR ''t''" | "c = CHR ''f''" | "c = CHR ''n''"
    | q where "number_char c" "in_number q" "\<And>ks. begin_value BeginValue ks c = goto q ks"
    using step(1) ct(2)
    by (fastforce simp: begin_value_def number_char_def in_number_def is_digit_of_char split: if_splits)
  then show ?thesis
  proof cases
    case 1
    with step have "accepts (BeginStringOrEmpty, ObjectKey # ks) t" "length ks < max_nesting_depth"
      by (auto simp: step_defs split: if_splits)
    with object_found [OF eo, of n t ks] s(1) ct(1) 1 show ?thesis by simp
  next
    case 2
    with step have "accepts (BeginValueOrEmpty, ArrayValue # ks) t" "length ks < max_nesting_depth"
      by (auto simp: step_defs split: if_splits)
    with array_found [OF ea, of n t ks] s(1) ct(1) 2 show ?thesis by simp
  next
    case 3
    with step have "accepts (InString, ks) t" by (simp add: step_defs)
    from accepts_string [OF this] obtain b r where b: "t = b @ CHR 0x22 # r" "string_body b" "accepts (EndValue, ks) r"
      by blast
    obtain u where "unquote_body b = Some u" using unquote_body_ok [OF b(2)] by blast
    from value_foundI [OF _ string_text [OF b(2) this] b(3)] b(1) ct(1) 3 s(5) show ?thesis by simp
  next
    case 4
    with step have "accepts (LitT, ks) t" by (simp add: step_defs)
    from accepts_literal(1) [OF this] ct(1) 4 s(5) show ?thesis by (auto intro!: value_foundI [OF _ true_text])
  next
    case 5
    with step have "accepts (LitF, ks) t" by (simp add: step_defs)
    from accepts_literal(2) [OF this] ct(1) 5 s(5) show ?thesis by (auto intro!: value_foundI [OF _ false_text])
  next
    case 6
    with step have "accepts (LitN, ks) t" by (simp add: step_defs)
    from accepts_literal(3) [OF this] ct(1) 6 s(5) show ?thesis by (auto intro!: value_foundI [OF _ null_text])
  next
    case (7 q)
    with step(1) have "st = (q, ks)" by (simp add: goto_def)
    with num 7 show ?thesis by blast
  qed
qed

lemma elements_found_step:
  assumes v: "\<And>s. length s \<le> Suc n \<Longrightarrow> accepts (BeginValue, ArrayValue # ks) s \<Longrightarrow> s \<noteq> [] \<Longrightarrow> \<not> json_space (hd s)
      \<Longrightarrow> value_found (ArrayValue # ks) s"
    and rec: "\<And>s. length s \<le> n \<Longrightarrow> accepts (BeginValue, ArrayValue # ks) s \<Longrightarrow> s \<noteq> [] \<Longrightarrow> \<not> json_space (hd s)
      \<Longrightarrow> elements_found ks s"
    and s: "length s \<le> Suc n" "accepts (BeginValue, ArrayValue # ks) s" "s \<noteq> []" "\<not> json_space (hd s)"
  shows "elements_found ks s"
proof -
  from v [OF s] obtain x t c r where x: "s = t @ r" "json_text x t c" "accepts (EndValue, ArrayValue # ks) r"
    "Suc (length ks) + height x \<le> max_nesting_depth"
    by (auto simp: value_found_def)
  obtain w q where w: "r = w @ q" "spaces w" "q = [] \<or> \<not> json_space (hd q)" using split_spaces by blast
  with x(3) have a: "accepts (EndValue, ArrayValue # ks) q" by (simp add: accepts_spaces)
  with no_eof obtain y q' where q: "q = y # q'" by (cases q) auto
  from a q w(3) have "y = CHR '','' \<or> y = CHR '']''"
    by (auto simp: accepts_Cons end_value_def split: if_splits)
  then show ?thesis
  proof
    assume "y = CHR '']''"
    with a q have "accepts (EndValue, ks) q'" by (simp add: accepts_punct)
    with x w q \<open>y = CHR '']''\<close> last_element [OF x(2) w(2)] show ?thesis
      unfolding elements_found_def by (intro exI [of _ "[x]"] exI [of _ "t @ w"] exI [of _ c] exI [of _ q']) simp
  next
    assume y: "y = CHR '',''"
    with a q have a': "accepts (BeginValue, ArrayValue # ks) q'" by (simp add: accepts_punct)
    obtain w' p where w': "q' = w' @ p" "spaces w'" "p = [] \<or> \<not> json_space (hd p)" using split_spaces by blast
    with a' have p: "accepts (BeginValue, ArrayValue # ks) p" by (simp add: accepts_spaces)
    with no_eof have "p \<noteq> []" by auto
    with rec [of p] p w' s(1) x(1) w(1) q obtain vs t' c' z where
      e: "p = t' @ CHR '']'' # z" "elements_text vs t' c'" "accepts (EndValue, ks) z"
      "\<forall>v\<in>set vs. Suc (length ks) + height v \<le> max_nesting_depth"
      by (auto simp: elements_found_def)
    with x w w' q y more_elements [OF x(2) w(2) w'(2) e(2)] show ?thesis
      unfolding elements_found_def
      by (intro exI [of _ "x # vs"] exI [of _ "t @ w @ CHR '','' # w' @ t'"] exI [of _ "c @ CHR '','' # c'"] exI [of _ z]) simp
  qed
qed

lemma members_found_step:
  assumes v: "\<And>s. length s \<le> n \<Longrightarrow> accepts (BeginValue, ObjectValue # ks) s \<Longrightarrow> s \<noteq> [] \<Longrightarrow> \<not> json_space (hd s)
      \<Longrightarrow> value_found (ObjectValue # ks) s"
    and rec: "\<And>s. length s \<le> n \<Longrightarrow> accepts (BeginString, ObjectKey # ks) s \<Longrightarrow> s \<noteq> [] \<Longrightarrow> \<not> json_space (hd s)
      \<Longrightarrow> members_found ks s"
    and s: "length s \<le> Suc n" "accepts (BeginString, ObjectKey # ks) s" "s \<noteq> []" "\<not> json_space (hd s)"
  shows "members_found ks s"
proof -
  obtain s' where s': "s = CHR 0x22 # s'" "accepts (InString, ObjectKey # ks) s'"
    using s(2-4) by (cases s) (auto simp: accepts_Cons begin_string_def goto_def split: if_splits)
  from accepts_string [OF s'(2)] obtain b r1 where b: "s' = b @ CHR 0x22 # r1" "string_body b"
    "accepts (EndValue, ObjectKey # ks) r1" by blast
  obtain k where k: "unquote_body b = Some k" using unquote_body_ok [OF b(2)] by blast
  obtain w1 q1 where w1: "r1 = w1 @ q1" "spaces w1" "q1 = [] \<or> \<not> json_space (hd q1)" using split_spaces by blast
  with b(3) have a1: "accepts (EndValue, ObjectKey # ks) q1" by (simp add: accepts_spaces)
  with no_eof w1(3) obtain q2 where q2: "q1 = CHR '':'' # q2"
    by (cases q1) (auto simp: accepts_Cons end_value_def split: if_splits)
  with a1 have "accepts (BeginValue, ObjectValue # ks) q2" by (simp add: accepts_punct)
  moreover obtain w2 q3 where w2: "q2 = w2 @ q3" "spaces w2" "q3 = [] \<or> \<not> json_space (hd q3)" using split_spaces by blast
  ultimately have q3: "accepts (BeginValue, ObjectValue # ks) q3" by (simp add: accepts_spaces)
  with no_eof have "q3 \<noteq> []" by auto
  with v [of q3] q3 w2 s(1) s'(1) b(1) w1(1) q2 obtain x t c r where x: "q3 = t @ r" "json_text x t c"
    "accepts (EndValue, ObjectValue # ks) r" "Suc (length ks) + height x \<le> max_nesting_depth"
    by (auto simp: value_found_def)
  obtain w3 q where w3: "r = w3 @ q" "spaces w3" "q = [] \<or> \<not> json_space (hd q)" using split_spaces by blast
  with x(3) have a: "accepts (EndValue, ObjectValue # ks) q" by (simp add: accepts_spaces)
  with no_eof obtain y q' where q: "q = y # q'" by (cases q) auto
  from a q w3(3) have "y = CHR '','' \<or> y = CHR ''}''"
    by (auto simp: accepts_Cons end_value_def split: if_splits)
  then show ?thesis
  proof
    assume y: "y = CHR ''}''"
    with a q have "accepts (EndValue, ks) q'" by (simp add: accepts_punct)
    with s' b w1 q2 w2 x w3 q y last_member [OF b(2) k w1(2) w2(2) x(2) w3(2)] show ?thesis
      unfolding members_found_def
      by (intro exI [of _ "[(k, x)]"] exI [of _ "CHR 0x22 # b @ CHR 0x22 # w1 @ CHR '':'' # w2 @ t @ w3"]
          exI [of _ "CHR 0x22 # b @ CHR 0x22 # CHR '':'' # c"] exI [of _ q']) simp
  next
    assume y: "y = CHR '',''"
    with a q have a': "accepts (BeginString, ObjectKey # ks) q'" by (simp add: accepts_punct)
    obtain w4 p where w4: "q' = w4 @ p" "spaces w4" "p = [] \<or> \<not> json_space (hd p)" using split_spaces by blast
    with a' have p: "accepts (BeginString, ObjectKey # ks) p" by (simp add: accepts_spaces)
    with no_eof have "p \<noteq> []" by auto
    with rec [of p] p w4 s(1) s'(1) b(1) w1(1) q2 w2(1) x(1) w3(1) q obtain ms t' c' z where
      e: "p = t' @ CHR ''}'' # z" "members_text ms t' c'" "accepts (EndValue, ks) z"
      "\<forall>m\<in>set ms. Suc (length ks) + height (snd m) \<le> max_nesting_depth"
      by (auto simp: members_found_def)
    with s' b w1 q2 w2 x w3 w4 q y more_members [OF b(2) k w1(2) w2(2) x(2) w3(2) w4(2) e(2)] show ?thesis
      unfolding members_found_def
      by (intro exI [of _ "(k, x) # ms"] exI [of _ "CHR 0x22 # b @ CHR 0x22 # w1 @ CHR '':'' # w2 @ t @ w3 @ CHR '','' # w4 @ t'"]
          exI [of _ "CHR 0x22 # b @ CHR 0x22 # CHR '':'' # c @ CHR '','' # c'"] exI [of _ z]) simp
  qed
qed

text \<open>The three together.\<close>

lemma all_found:
  "(\<forall>s ks. length s \<le> n \<and> accepts (BeginValue, ks) s \<and> s \<noteq> [] \<and> \<not> json_space (hd s) \<and> length ks \<le> max_nesting_depth
      \<longrightarrow> value_found ks s)
   \<and> (\<forall>s ks. length s \<le> n \<and> accepts (BeginValue, ArrayValue # ks) s \<and> s \<noteq> [] \<and> \<not> json_space (hd s)
      \<and> length ks < max_nesting_depth \<longrightarrow> elements_found ks s)
   \<and> (\<forall>s ks. length s \<le> n \<and> accepts (BeginString, ObjectKey # ks) s \<and> s \<noteq> [] \<and> \<not> json_space (hd s)
      \<and> length ks < max_nesting_depth \<longrightarrow> members_found ks s)"
proof (induction n)
  case 0
  then show ?case by auto
next
  case (Suc n)
  have v: "value_found ks s" if "length s \<le> Suc n" "accepts (BeginValue, ks) s" "s \<noteq> []" "\<not> json_space (hd s)"
    "length ks \<le> max_nesting_depth" for s ks
    using value_found_step [OF _ _ that] Suc.IH by blast
  have "elements_found ks s" if "length s \<le> Suc n" "accepts (BeginValue, ArrayValue # ks) s" "s \<noteq> []" "\<not> json_space (hd s)"
    "length ks < max_nesting_depth" for s ks
    by (rule elements_found_step [OF _ _ that(1-4)]) (use v [of _ "ArrayValue # ks"] Suc.IH that(5) in auto)
  moreover have "members_found ks s" if "length s \<le> Suc n" "accepts (BeginString, ObjectKey # ks) s" "s \<noteq> []" "\<not> json_space (hd s)"
    "length ks < max_nesting_depth" for s ks
    by (rule members_found_step [OF _ _ that(1-4)]) (use v [of _ "ObjectValue # ks"] Suc.IH that(5) in auto)
  ultimately show ?case using v by blast
qed

section \<open>Validity, compaction and parsing\<close>

text \<open>A text of the grammar with white space around it.\<close>

lemma json_text_compact:
  assumes "json_text v t c" "height v \<le> max_nesting_depth" "spaces w1" "spaces w2"
  shows "json_compact (w1 @ t @ w2) = Some c"
proof -
  obtain st where st: "scan_run (BeginValue, []) t = Some (c, st)" "ended st []"
    using scan_text(1) [OF assms(1), of "[]"] assms(2) by auto
  have "\<exists>st'. scan_run st w2 = Some ([], st') \<and> scan_eof st'"
  proof (cases w2)
    case Nil
    with st(2) show ?thesis
      by (auto simp: ended_def scan_eof_def num_end_def end_value_def json_space_def is_digit_of_char)
  next
    case (Cons x w)
    with st(2) assms(4) have "scan_step st x = Some (False, EndTop, [])"
      by (auto simp: ended_def num_end_def end_value_def json_space_def is_digit_of_char)
    with Cons assms(4) scan_spaces(5) [of w "[]" "[]"] show ?thesis by (simp add: scan_eof_def)
  qed
  then obtain st' where "scan_run st w2 = Some ([], st')" "scan_eof st'" by blast
  with st show ?thesis
    by (simp add: json_compact_def scan_init_def scan_spaces(1) [OF assms(3)] scan_run_append [of _ t])
qed

lemma json_text_parse:
  assumes "json_text v t c" "height v \<le> max_nesting_depth" "spaces w1" "spaces w2"
  shows "json_parse (w1 @ t @ w2) = Some v"
proof -
  have "stops w2" using assms(4) by (cases w2) auto
  with parse_text(1) [OF assms(1)] skip_text(1) [OF assms(1)] assms(3) have
    "parse_value (skip_space (w1 @ t @ w2)) = Some (v, w2)" by simp
  with json_text_compact [OF assms] show ?thesis by (simp add: json_parse_def json_valid_def)
qed

text \<open>The scanner accepts exactly the texts of the grammar.\<close>

theorem json_valid_iff:
  "json_valid s \<longleftrightarrow>
     (\<exists>v t c w1 w2. s = w1 @ t @ w2 \<and> spaces w1 \<and> spaces w2 \<and> json_text v t c \<and> height v \<le> max_nesting_depth)"
proof
  assume "json_valid s"
  then have a: "accepts (BeginValue, []) s" by (simp add: json_valid_accepts scan_init_def)
  obtain w r where w: "s = w @ r" "spaces w" "r = [] \<or> \<not> json_space (hd r)" using split_spaces by blast
  with a have r: "accepts (BeginValue, []) r" by (simp add: accepts_spaces)
  with no_eof have "r \<noteq> []" by auto
  with all_found [of "length r"] r w(3) have "value_found [] r" by auto
  then obtain v t c q where q: "r = t @ q" "json_text v t c" "accepts (EndValue, []) q" "height v \<le> max_nesting_depth"
    by (auto simp: value_found_def)
  have "accepts (EndTop, []) q \<Longrightarrow> spaces q" for q
    by (induction q) (auto simp: accepts_Cons simp del: accepts_end_top split: if_splits)
  with q(3) have "spaces q" by simp
  with q w show "\<exists>v t c w1 w2. s = w1 @ t @ w2 \<and> spaces w1 \<and> spaces w2 \<and> json_text v t c \<and> height v \<le> max_nesting_depth"
    by blast
next
  assume "\<exists>v t c w1 w2. s = w1 @ t @ w2 \<and> spaces w1 \<and> spaces w2 \<and> json_text v t c \<and> height v \<le> max_nesting_depth"
  then show "json_valid s" by (auto simp: json_valid_def json_text_compact)
qed

text \<open>Compaction keeps the value.\<close>

theorem json_compact_value:
  assumes "json_compact s = Some c"
  obtains v where "json_text v c c" "height v \<le> max_nesting_depth" "json_parse s = Some v" "json_parse c = Some v"
    "json_compact c = Some c"
proof -
  have "json_valid s" using assms by (simp add: json_valid_def)
  then obtain v t c' w1 w2 where t: "s = w1 @ t @ w2" "spaces w1" "spaces w2" "json_text v t c'" "height v \<le> max_nesting_depth"
    unfolding json_valid_iff by blast
  then have "c' = c" using assms json_text_compact by simp
  with t have c: "json_text v c c" using compact_is_text(1) by blast
  show ?thesis
    using that [OF c t(5)] json_text_parse [OF t(4,5,2,3)] json_text_parse [OF c t(5), of "[]" "[]"]
      json_text_compact [OF c t(5), of "[]" "[]"] t(1)
    by simp
qed

text \<open>A compact value inside open objects and arrays.\<close>

lemma accepts_text:
  assumes "json_text v t c" "length ks + height v \<le> max_nesting_depth" "stops r"
  shows "accepts (BeginValue, ks) (t @ r) = accepts (EndValue, ks) r"
proof -
  obtain st where st: "scan_run (BeginValue, ks) t = Some (c, st)" "ended st ks"
    using scan_text(1) [OF assms(1,2)] by blast
  have "accepts st r = accepts (EndValue, ks) r"
    using st(2) accepts_number [OF _ assms(3)] by (auto simp: ended_def)
  with accepts_run [OF st(1)] show ?thesis by simp
qed

end
