(* ===== verification/Exchange_Text.thy ===== *)
theory Exchange_Text
  imports Json_Grammar Syslog_Facts Forwarder_Facts Collector_Facts
begin

text \<open>
  What the agent prints and the collector reads: the text of a record and of a batch are texts of
  the grammar for known values, so the collector decodes exactly the fields of the records.
\<close>

section \<open>Pieces of printed text\<close>

lemma string_body_quote: "string_body (quote_body s)"
proof -
  have "scan_run (InString, []) (quote_body s @ [CHR 0x22]) = Some (quote_body s @ [CHR 0x22], EndValue, [])"
    by (simp add: scan_run_append scan_quote_body goto_def)
  then have "accepts (InString, []) (quote_body s @ [CHR 0x22])"
    by (simp add: accepts_iff) (simp add: scan_eof_def end_value_def json_space_def)
  from accepts_string [OF this] obtain b r where b: "quote_body s @ [CHR 0x22] = b @ CHR 0x22 # r" "string_body b" by blast
  with string_end_body [OF b(2), of r] string_end_quote [of s "[]"] have "quote_body s = b" by simp
  with b(2) show ?thesis by simp
qed

text \<open>A string as the decoder reads it back; bytes that are no UTF-8 have been replaced.\<close>

definition reread :: "string \<Rightarrow> string" where
  "reread s = the (unquote_body (quote_body s))"

lemma reread_valid [simp]: "utf8_valid s \<Longrightarrow> reread s = s"
  by (simp add: reread_def unquote_quote)

lemma quote_text [intro]: "json_text (JStr (reread s)) (json_quote s) (json_quote s)"
  using string_text [OF string_body_quote, of s "reread s"] unquote_body_ok [OF string_body_quote [of s]]
  by (auto simp: reread_def json_quote_def)

lemma int_text [intro]: "json_text (jint i) (int_dec i) (int_dec i)"
proof (rule number, unfold number_text_def, intro conjI)
  have "\<forall>c\<in>set (int_dec i). number_char c"
    by (auto simp: int_dec_def number_char_def dest: nat_dec_digits)
  then show "list_all number_char (int_dec i)" by (simp add: list_all_iff)
  show "int_dec i \<noteq> []" using int_dec_head [of i] by auto
  show "\<exists>q. num_end q \<and> (\<forall>ks. scan_run (BeginValue, ks) (int_dec i) = Some (int_dec i, q, ks))"
    by (intro exI [of _ "int_state i"]) (simp add: scan_int_dec)
qed

lemma null_json_text [intro]: "json_text JNull json_null json_null"
  by (simp add: json_null_def null_text)

lemma safe_string_body: "\<forall>c\<in>set k. safe_byte c \<Longrightarrow> string_body k \<and> unquote_body k = Some k"
  using string_body_quote [of k] by (simp add: quote_body_safe unquote_safe)

lemma member_last [intro]:
  assumes "\<forall>c\<in>set k. safe_byte c" "json_text v t t"
  shows "members_text [(k, v)] (json_key k @ t) (json_key k @ t)"
  using last_member [of k k "[]" "[]" v t t "[]"] safe_string_body [OF assms(1)] assms(2)
  by (simp add: json_key_def)

lemma member_next [intro]:
  assumes "\<forall>c\<in>set k. safe_byte c" "json_text v t t" "members_text ms m m"
  shows "members_text ((k, v) # ms) (json_key k @ t @ '','' @ m) (json_key k @ t @ '','' @ m)"
  using more_members [of k k "[]" "[]" v t t "[]" "[]" ms m m] safe_string_body [OF assms(1)] assms(2,3)
  by (simp add: json_key_def)

lemma object_text [intro]: "members_text ms m m \<Longrightarrow> json_text (JObj ms) (''{'' @ m @ ''}'') (''{'' @ m @ ''}'')"
  using object [of "[]" ms m m] by simp

section \<open>Records\<close>

definition parsed_json :: "parsed \<Rightarrow> json" where
  "parsed_json p =
     JObj [(''program'', JStr (reread (pa_program p))), (''hostname'', JStr (reread (pa_hostname p))),
           (''pid'', case pa_pid p of None \<Rightarrow> JNull | Some n \<Rightarrow> jint n), (''priority'', jint (pa_priority p)),
           (''payload'', case pa_payload p of None \<Rightarrow> JNull | Some raw \<Rightarrow> the (json_parse raw))]"

definition record_json :: "event_record \<Rightarrow> json" where
  "record_json r =
     JObj ([(''received_at'', JStr (reread (rec_received_at r))), (''source_ip'', JStr (reread (rec_source_ip r))),
            (''raw'', JStr (reread (rec_raw r)))]
           @ (if rec_raw_base64 r = [] then [] else [(''raw_base64'', JStr (reread (rec_raw_base64 r)))])
           @ [(''parsed'', case rec_parsed r of None \<Rightarrow> JNull | Some p \<Rightarrow> parsed_json p),
              (''parse_error'', case rec_parse_error r of None \<Rightarrow> JNull | Some e \<Rightarrow> JStr (reread e))])"

lemma safe_keys [simp]:
  "\<forall>c\<in>set ''program''. safe_byte c" "\<forall>c\<in>set ''hostname''. safe_byte c" "\<forall>c\<in>set ''pid''. safe_byte c"
  "\<forall>c\<in>set ''priority''. safe_byte c" "\<forall>c\<in>set ''payload''. safe_byte c" "\<forall>c\<in>set ''received_at''. safe_byte c"
  "\<forall>c\<in>set ''source_ip''. safe_byte c" "\<forall>c\<in>set ''raw''. safe_byte c" "\<forall>c\<in>set ''raw_base64''. safe_byte c"
  "\<forall>c\<in>set ''parsed''. safe_byte c" "\<forall>c\<in>set ''parse_error''. safe_byte c" "\<forall>c\<in>set ''agent_id''. safe_byte c"
  "\<forall>c\<in>set ''site_id''. safe_byte c" "\<forall>c\<in>set ''agent_version''. safe_byte c" "\<forall>c\<in>set ''batch_id''. safe_byte c"
  "\<forall>c\<in>set ''sent_at''. safe_byte c" "\<forall>c\<in>set ''events''. safe_byte c"
  unfolding list_all_iff [symmetric] by code_simp+

lemma raw_text:
  assumes "json_raw x = Some c"
  shows "json_text (case x of None \<Rightarrow> JNull | Some raw \<Rightarrow> the (json_parse raw)) c c"
proof (cases x)
  case (Some raw)
  with assms have "json_compact raw = Some c" by (simp add: json_raw_def)
  with Some show ?thesis by (auto elim: json_compact_value)
qed (use assms in \<open>auto simp: json_raw_def\<close>)

lemma marshal_parsed_text:
  assumes "marshal_parsed p = Some t"
  shows "json_text (parsed_json p) t t"
proof -
  obtain c where c: "json_raw (pa_payload p) = Some c" using assms by (auto simp: marshal_parsed_def)
  have pid: "json_text (case pa_pid p of None \<Rightarrow> JNull | Some n \<Rightarrow> jint n) (json_opt int_dec (pa_pid p)) (json_opt int_dec (pa_pid p))"
    by (auto simp: json_opt_def split: option.split)
  have "json_text (parsed_json p)
     (''{'' @ (json_key ''program'' @ json_quote (pa_program p)
         @ '','' @ json_key ''hostname'' @ json_quote (pa_hostname p)
         @ '','' @ json_key ''pid'' @ json_opt int_dec (pa_pid p)
         @ '','' @ json_key ''priority'' @ int_dec (pa_priority p)
         @ '','' @ json_key ''payload'' @ c) @ ''}'')
     (''{'' @ (json_key ''program'' @ json_quote (pa_program p)
         @ '','' @ json_key ''hostname'' @ json_quote (pa_hostname p)
         @ '','' @ json_key ''pid'' @ json_opt int_dec (pa_pid p)
         @ '','' @ json_key ''priority'' @ int_dec (pa_priority p)
         @ '','' @ json_key ''payload'' @ c) @ ''}'')"
    unfolding parsed_json_def
    by (intro object_text member_next member_last safe_keys quote_text pid int_text raw_text [OF c])
  then show ?thesis using assms by (simp add: marshal_parsed_def c)
qed

lemma marshal_record_text:
  assumes "marshal_record r = Some (t @ [nl])"
  shows "json_text (record_json r) t t"
proof -
  obtain p where p: "(case rec_parsed r of None \<Rightarrow> Some json_null | Some p \<Rightarrow> marshal_parsed p) = Some p"
    using assms by (auto simp: marshal_record_def)
  then have pt: "json_text (case rec_parsed r of None \<Rightarrow> JNull | Some p \<Rightarrow> parsed_json p) p p"
    using marshal_parsed_text by (auto split: option.splits)
  have et: "json_text (case rec_parse_error r of None \<Rightarrow> JNull | Some e \<Rightarrow> JStr (reread e))
    (json_opt json_quote (rec_parse_error r)) (json_opt json_quote (rec_parse_error r))"
    by (auto simp: json_opt_def split: option.split)
  define more_members where "more_members =
      (if rec_raw_base64 r = [] then [] else [(''raw_base64'', JStr (reread (rec_raw_base64 r)))])
       @ [(''parsed'', case rec_parsed r of None \<Rightarrow> JNull | Some p \<Rightarrow> parsed_json p),
          (''parse_error'', case rec_parse_error r of None \<Rightarrow> JNull | Some e \<Rightarrow> JStr (reread e))]"
  define m where "m = (if rec_raw_base64 r = [] then [] else json_key ''raw_base64'' @ json_quote (rec_raw_base64 r) @ '','')
         @ json_key ''parsed'' @ p @ '','' @ json_key ''parse_error'' @ json_opt json_quote (rec_parse_error r)"
  have tail: "members_text more_members m m"
  proof (cases "rec_raw_base64 r = []")
    case True
    then show ?thesis unfolding m_def more_members_def if_P [OF True] append_Nil
      by (intro member_next member_last safe_keys pt et)
  next
    case False
    then show ?thesis unfolding m_def more_members_def if_not_P [OF False] append_Nil append_Cons append_assoc
      by (intro member_next [simplified] member_last safe_keys pt et quote_text)
  qed
  have t: "t = ''{'' @ (json_key ''received_at'' @ json_quote (rec_received_at r)
      @ '','' @ json_key ''source_ip'' @ json_quote (rec_source_ip r)
      @ '','' @ json_key ''raw'' @ json_quote (rec_raw r) @ '','' @ m) @ ''}''"
    using assms p by (auto simp: marshal_record_def m_def)
  have j: "record_json r = JObj ((''received_at'', JStr (reread (rec_received_at r)))
      # (''source_ip'', JStr (reread (rec_source_ip r))) # (''raw'', JStr (reread (rec_raw r))) # more_members)"
    by (simp add: record_json_def more_members_def)
  show ?thesis unfolding t j
    by (intro object_text member_next safe_keys quote_text tail)
qed

text \<open>The event that the collector decodes from a record.\<close>

definition event_of_record :: "event_record \<Rightarrow> event" where
  "event_of_record r =
     \<lparr>ev_received_at = reread (rec_received_at r), ev_source_ip = reread (rec_source_ip r),
      ev_raw = reread (rec_raw r),
      ev_raw_base64 = (if rec_raw_base64 r = [] then [] else reread (rec_raw_base64 r)),
      ev_parsed = Some (case rec_parsed r of None \<Rightarrow> JNull | Some p \<Rightarrow> parsed_json p),
      ev_parse_error = map_option reread (rec_parse_error r)\<rparr>"

lemma match_event_fields [simp]:
  "match_field event_fields ''received_at'' = Some ''received_at''"
  "match_field event_fields ''source_ip'' = Some ''source_ip''"
  "match_field event_fields ''raw'' = Some ''raw''"
  "match_field event_fields ''raw_base64'' = Some ''raw_base64''"
  "match_field event_fields ''parsed'' = Some ''parsed''"
  "match_field event_fields ''parse_error'' = Some ''parse_error''"
  by code_simp+

lemma store_record: "store_event (record_json r) zero_event = (event_of_record r, False)"
  by (cases "rec_parse_error r")
     (auto simp: store_event_def strict_struct_def record_json_def store_event_field_def at_field_def store_string_def
        store_opt_string_def zero_event_def event_of_record_def)

section \<open>Batches\<close>

definition event_json :: "bytes \<Rightarrow> json" where
  "event_json e = the (json_parse e)"

definition batch_json :: "batch \<Rightarrow> json" where
  "batch_json b =
     JObj [(''agent_id'', JStr (reread (ba_agent_id b))), (''site_id'', JStr (reread (ba_site_id b))),
           (''agent_version'', JStr (reread (ba_agent_version b))), (''batch_id'', JStr (reread (ba_batch_id b))),
           (''sent_at'', JStr (reread (ba_sent_at b))), (''events'', JArr (map event_json (ba_events b)))]"

lemma event_text:
  assumes "json_compact e = Some c"
  shows "json_text (event_json e) c c"
  using assms by (auto simp: event_json_def elim: json_compact_value)

lemma json_list_text:
  "es \<noteq> [] \<Longrightarrow> json_list (map json_compact es) = Some l \<Longrightarrow> elements_text (map event_json es) l l"
proof (induction es arbitrary: l)
  case (Cons e es)
  show ?case
  proof (cases es)
    case Nil
    with Cons.prems show ?thesis using last_element [OF event_text [of e l], of "[]"] by simp
  next
    case (Cons x xs)
    with Cons.prems obtain a b where ab: "json_compact e = Some a" "json_list (map json_compact es) = Some b"
      "l = a @ '','' @ b"
      by (auto split: option.splits)
    with Cons Cons.IH [of b] more_elements [OF event_text [OF ab(1)], of "[]" "[]" "map event_json es" b b]
    show ?thesis by simp
  qed
qed simp

lemma json_array_text:
  assumes "json_array (map json_compact es) = Some a"
  shows "json_text (JArr (map event_json es)) a a"
proof (cases "es = []")
  case True
  with assms show ?thesis using empty_array [of "[]"] by (simp add: json_array_def)
next
  case False
  with assms obtain l where l: "json_list (map json_compact es) = Some l" "a = ''['' @ l @ '']''"
    by (auto simp: json_array_def)
  with json_list_text [OF False l(1)] array [of "[]" _ l l] show ?thesis by simp
qed

lemma marshal_batch_text:
  assumes "marshal_batch b = Some t"
  shows "json_text (batch_json b) t t"
proof -
  obtain a where a: "json_array (map json_compact (ba_events b)) = Some a"
    using assms by (auto simp: marshal_batch_def marshal_batch_with_def)
  have t: "t = ''{'' @ (json_key ''agent_id'' @ json_quote (ba_agent_id b)
         @ '','' @ json_key ''site_id'' @ json_quote (ba_site_id b)
         @ '','' @ json_key ''agent_version'' @ json_quote (ba_agent_version b)
         @ '','' @ json_key ''batch_id'' @ json_quote (ba_batch_id b)
         @ '','' @ json_key ''sent_at'' @ json_quote (ba_sent_at b)
         @ '','' @ json_key ''events'' @ a) @ ''}''"
    using assms by (auto simp: marshal_batch_def marshal_batch_with_def a)
  show ?thesis unfolding t batch_json_def
    by (intro object_text member_next member_last safe_keys quote_text json_array_text [OF a])
qed

end
