(* ===== verification/Exchange.thy ===== *)
theory Exchange
  imports Exchange_Text
begin

text \<open>
  The agent against the collector: what the collector decodes from a batch of the agent's records,
  and what happens to a batch that it cannot take.
\<close>

section \<open>What the collector decodes\<close>

lemma match_events_fields [simp]:
  "match_field events_fields ''agent_id'' = Some ''agent_id''"
  "match_field events_fields ''site_id'' = Some ''site_id''"
  "match_field events_fields ''agent_version'' = Some ''agent_version''"
  "match_field events_fields ''batch_id'' = Some ''batch_id''"
  "match_field events_fields ''sent_at'' = Some ''sent_at''"
  "match_field events_fields ''events'' = Some ''events''"
  by code_simp+

lemma store_records:
  "store_elements store_event zero_event (map record_json rs) [] = (map event_of_record rs, False)"
  by (induction rs) (simp_all add: store_record)

lemma store_batch:
  assumes "map event_json (ba_events b) = map record_json rs"
  shows "store_events_request (batch_json b) zero_events_request =
    (\<lparr>er_agent_id = reread (ba_agent_id b), er_site_id = reread (ba_site_id b),
      er_agent_version = reread (ba_agent_version b), er_batch_id = reread (ba_batch_id b),
      er_sent_at = reread (ba_sent_at b), er_events = map event_of_record rs\<rparr>, False)"
  by (simp add: store_events_request_def strict_struct_def batch_json_def store_events_field_def at_field_def
      store_string_def zero_events_request_def store_list_def assms store_records)

text \<open>A line of the spool that was written for a record, and is not too deep for a batch.\<close>

definition line_of :: "event_record \<Rightarrow> bytes \<Rightarrow> bool" where
  "line_of r l \<longleftrightarrow> marshal_record r = Some (l @ [nl]) \<and> height (record_json r) + 2 \<le> max_nesting_depth"

lemma line_of_text:
  assumes "line_of r l"
  shows "json_compact l = Some l" "event_json l = record_json r"
proof -
  have t: "json_text (record_json r) l l" "height (record_json r) \<le> max_nesting_depth"
    using assms by (auto simp: line_of_def intro: marshal_record_text)
  then show "json_compact l = Some l" using json_text_compact [of _ l l "[]" "[]"] by simp
  show "event_json l = record_json r" using json_text_parse [OF t, of "[]" "[]"] by (simp add: event_json_def)
qed

lemma lines_of_records:
  assumes "list_all2 line_of rs ls"
  shows "map event_json ls = map record_json rs" "map json_compact ls = map Some ls"
  using assms by (induction rule: list_all2_induct) (auto dest: line_of_text)

lemma json_list_some: "\<exists>t. json_list (map Some ls) = Some t"
  by (induction ls rule: induct_list012) auto

lemma height_bound: "\<forall>v\<in>set vs. height v \<le> n \<Longrightarrow> height (JArr vs) \<le> Suc n"
  by (induction vs) auto

lemma height_batch:
  assumes "list_all2 line_of rs (ba_events b)"
  shows "height (batch_json b) \<le> max_nesting_depth"
proof -
  have "\<forall>r\<in>set rs. height (record_json r) \<le> max_nesting_depth - 2"
    using assms by (induction rule: list_all2_induct) (auto simp: line_of_def)
  then have "height (JArr (map record_json rs)) \<le> Suc (max_nesting_depth - 2)" by (intro height_bound) auto
  then show ?thesis
    by (simp add: batch_json_def lines_of_records(1) [OF assms] max_nesting_depth_def del: height.simps(1))
qed

lemma batch_decoded:
  assumes "list_all2 line_of rs (ba_events b)"
  obtains body where "marshal_batch b = Some body"
    "decode_strict store_events_request zero_events_request (body @ [nl]) =
      Some \<lparr>er_agent_id = reread (ba_agent_id b), er_site_id = reread (ba_site_id b),
        er_agent_version = reread (ba_agent_version b), er_batch_id = reread (ba_batch_id b),
        er_sent_at = reread (ba_sent_at b), er_events = map event_of_record rs\<rparr>"
proof -
  obtain body where body: "marshal_batch b = Some body"
    using json_list_some [of "ba_events b"]
    by (auto simp: marshal_batch_def marshal_batch_with_def json_array_def lines_of_records(2) [OF assms])
  have "spaces [nl]" by (simp add: json_space_def)
  with json_text_parse [OF marshal_batch_text [OF body] height_batch [OF assms], of "[]" "[nl]"]
  have "json_parse (body @ [nl]) = Some (batch_json b)" by simp
  with body that store_batch [OF lines_of_records(1) [OF assms]] show ?thesis
    by (simp add: decode_strict_def unmarshal_def)
qed

section \<open>From a datagram to an event\<close>

text \<open>A datagram, the address it came from and the time.\<close>

type_synonym datagram = "bytes \<times> string \<times> gtime"

fun record_of :: "datagram \<Rightarrow> event_record" where
  "record_of (d, ip, t) = build_record d ip t"

text \<open>The bytes that a stored event stands for.\<close>

definition event_bytes :: "event \<Rightarrow> bytes" where
  "event_bytes e = (if ev_raw_base64 e = [] then ev_raw e else unbase64 (ev_raw_base64 e))"

lemma b64_char_safe: "n < 64 \<Longrightarrow> safe_byte (b64_char n)"
proof -
  have "\<forall>n<64. safe_byte (b64_char n)" by code_simp
  then show "n < 64 \<Longrightarrow> safe_byte (b64_char n)" by blast
qed

lemma base64_safe: "\<forall>c\<in>set (base64 d). safe_byte c"
proof -
  have eq: "safe_byte (CHR ''='')" by (simp add: safe_byte_def byte_in_def)
  have n: "n div 262144 < 64" "n div 4096 mod 64 < 64" "n div 64 mod 64 < 64" "n mod 64 < 64"
    if "n = of_char a * 65536 + of_char b * 256 + of_char c" for n :: nat and a b c :: char
  proof -
    have "of_char a < (256::nat)" "of_char b < (256::nat)" "of_char c < (256::nat)" by simp_all
    with that show "n div 262144 < 64" by linarith
  qed simp_all
  show ?thesis
  proof (induction d rule: base64.induct)
    case (2 a)
    with n [of "of_char a * 65536" a "CHR 0x00" "CHR 0x00"] eq show ?case
      by (simp add: Let_def b64_char_safe del: div_mult_self_is_m)
  next
    case (3 a b)
    with n [of "of_char a * 65536 + of_char b * 256" a b "CHR 0x00"] eq show ?case by (simp add: Let_def b64_char_safe)
  next
    case (4 a b c r)
    with n [OF refl, of a b c] eq show ?case by (simp add: Let_def b64_char_safe)
  qed simp
qed

lemma utf8_valid_join: "\<forall>s\<in>set ss. utf8_valid s \<Longrightarrow> utf8_valid sep \<Longrightarrow> utf8_valid (join ss sep)"
  by (induction ss sep rule: join.induct) (simp_all add: utf8_valid_append)

lemma error_texts_valid: "utf8_valid non_utf8_text" "utf8_valid error_separator" "utf8_valid (syslog_error_text e)"
proof -
  show "utf8_valid non_utf8_text" "utf8_valid error_separator" by code_simp+
  show "utf8_valid (syslog_error_text e)" by (cases e; simp only:; code_simp)
qed

lemma parse_error_valid: "rec_parse_error (build_record d ip t) = Some e \<Longrightarrow> utf8_valid e"
  by (auto simp: build_record_def Let_def error_texts_valid utf8_valid_append simp del: append_assoc split: if_splits option.splits)

lemma safe_digits [simp]: "\<forall>c\<in>set (pad_nat w n). safe_byte c"
proof
  fix c
  assume "c \<in> set (pad_nat w n)"
  then have "is_digit c" by (rule pad_digits)
  then show "safe_byte c" by (auto simp: is_digit_of_char safe_byte_def byte_in_def)
qed

lemma format_utc_valid: "utf8_valid (format_utc_micros t)" "utf8_valid (format_utc_millis t)"
proof -
  have p: "safe_byte (CHR ''-'')" "safe_byte (CHR '':'')" "safe_byte (CHR ''.'')" "safe_byte (CHR ''T'')" "safe_byte (CHR ''Z'')"
    by (simp_all add: safe_byte_def byte_in_def)
  have y: "\<forall>c\<in>set (format_year y). safe_byte c" for y using p safe_digits by (auto simp: format_year_def)
  have d: "\<forall>c\<in>set (format_date t). safe_byte c"
    using p safe_digits y by (cases "civil_of (day_of t)") (simp add: format_date_def ball_Un)
  have "\<forall>c\<in>set (format_clock t). safe_byte c"
    using p safe_digits by (simp add: format_clock_def Let_def ball_Un)
  with d p safe_digits have "\<forall>c\<in>set (format_utc_micros t). safe_byte c" "\<forall>c\<in>set (format_utc_millis t). safe_byte c"
    unfolding format_utc_micros_def format_utc_millis_def by (simp_all only: set_append ball_Un list.set) simp_all
  then show "utf8_valid (format_utc_micros t)" "utf8_valid (format_utc_millis t)" by (auto intro: utf8_valid_safe)
qed

text \<open>The event has the bytes of the datagram, its address and time, and the verdict of the parser.\<close>

lemma event_of_datagram:
  assumes "utf8_valid ip"
  shows "event_bytes (event_of_record (build_record d ip t)) = d"
    "ev_received_at (event_of_record (build_record d ip t)) = format_utc_micros t"
    "ev_source_ip (event_of_record (build_record d ip t)) = ip"
    "ev_parse_error (event_of_record (build_record d ip t)) = rec_parse_error (build_record d ip t)"
    "ev_raw (event_of_record (build_record d ip t)) = to_valid_utf8 d replacement_char"
proof -
  let ?r = "build_record d ip t"
  have valid: "utf8_valid (rec_raw ?r)" "utf8_valid (rec_raw_base64 ?r)" "rec_raw ?r = to_valid_utf8 d replacement_char"
    using to_valid_utf8_valid [of d]
    by (simp_all add: build_record_def Let_def utf8_valid_safe [OF base64_safe] to_valid_utf8_def to_valid_from_id)
  then show "event_bytes (event_of_record ?r) = d"
    using record_bytes_build [of d ip t] valid(1,2) by (auto simp: event_bytes_def event_of_record_def record_bytes_def)
  show "ev_raw (event_of_record ?r) = to_valid_utf8 d replacement_char" using valid by (simp add: event_of_record_def)
  show "ev_received_at (event_of_record ?r) = format_utc_micros t" "ev_source_ip (event_of_record ?r) = ip"
    using assms by (simp_all add: event_of_record_def build_record_def Let_def format_utc_valid)
  show "ev_parse_error (event_of_record ?r) = rec_parse_error ?r"
    using parse_error_valid [of d ip t] by (cases "rec_parse_error ?r") (simp_all add: event_of_record_def)
qed

text \<open>A stored event that says everything about a datagram.\<close>

fun event_for :: "datagram \<Rightarrow> event \<Rightarrow> bool" where
  "event_for (d, ip, t) e \<longleftrightarrow>
     event_bytes e = d \<and> ev_received_at e = format_utc_micros t \<and> ev_source_ip e = ip
     \<and> ev_parse_error e = rec_parse_error (build_record d ip t)"

lemma events_for_datagrams:
  "\<forall>(d, ip, t)\<in>set ds. utf8_valid ip \<Longrightarrow> list_all2 event_for ds (map event_of_record (map record_of ds))"
  by (induction ds) (auto simp: event_of_datagram)

text \<open>
  C29: A batch of records goes over the wire without loss: the agent can print it, and the
  collector decodes the identifiers and, in order, one event for each datagram, from which the
  bytes of the datagram, its address, its time and the verdict of the parser can be read.
\<close>

theorem batch_roundtrip:
  assumes "list_all2 (\<lambda>d l. line_of (record_of d) l) ds (ba_events b)"
    and "\<forall>(d, ip, t)\<in>set ds. utf8_valid ip"
    and "utf8_valid (ba_agent_id b)" "utf8_valid (ba_site_id b)" "utf8_valid (ba_agent_version b)"
    and "utf8_valid (ba_batch_id b)" "utf8_valid (ba_sent_at b)"
  shows "\<exists>body q. marshal_batch b = Some body
    \<and> decode_strict store_events_request zero_events_request (body @ [nl]) = Some q
    \<and> er_agent_id q = ba_agent_id b \<and> er_site_id q = ba_site_id b \<and> er_agent_version q = ba_agent_version b
    \<and> er_batch_id q = ba_batch_id b \<and> er_sent_at q = ba_sent_at b \<and> list_all2 event_for ds (er_events q)"
proof -
  have "list_all2 line_of (map record_of ds) (ba_events b)" using assms(1) by (simp add: list.rel_map)
  from batch_decoded [OF this] events_for_datagrams [OF assms(2)] assms(3-) show ?thesis by fastforce
qed

section \<open>An example\<close>

definition example_datagrams :: "datagram list" where
  "example_datagrams = [(''hello'', ''10.0.0.1'', 0), ([CHR 0xFF], ''10.0.0.2'', second)]"

lemma example_records:
  "rec_parsed (record_of (''hello'', ip, t)) = None" "rec_parsed (record_of ([CHR 0xFF], ip, t)) = None"
proof -
  have "fst (parse_syslog ''hello'') = None" "fst (parse_syslog (to_valid_utf8 [CHR 0xFF] replacement_char)) = None"
    "utf8_valid ''hello''" "\<not> utf8_valid [CHR 0xFF]"
    by code_simp+
  then show "rec_parsed (record_of (''hello'', ip, t)) = None" "rec_parsed (record_of ([CHR 0xFF], ip, t)) = None"
    by (simp_all add: build_record_def Let_def)
qed

lemma unparsed_line:
  assumes "rec_parsed r = None"
  shows "\<exists>l. line_of r l"
proof -
  have "\<exists>l. marshal_record r = Some (l @ [nl])"
    using marshal_record_line [of r] assms by auto
  moreover have "height (record_json r) \<le> 1" using assms by (cases "rec_parse_error r") (simp_all add: record_json_def)
  ultimately show ?thesis by (auto simp: line_of_def max_nesting_depth_def)
qed

lemma example_lines: "\<exists>ls. list_all2 (\<lambda>d l. line_of (record_of d) l) example_datagrams ls"
proof -
  obtain l k where "line_of (record_of (''hello'', ''10.0.0.1'', 0)) l" "line_of (record_of ([CHR 0xFF], ''10.0.0.2'', second)) k"
    using unparsed_line [OF example_records(1), of "''10.0.0.1''" 0] unparsed_line [OF example_records(2), of "''10.0.0.2''" second]
    by blast
  then have "list_all2 (\<lambda>d l. line_of (record_of d) l) example_datagrams [l, k]"
    by (simp add: example_datagrams_def del: record_of.simps)
  then show ?thesis by blast
qed

lemma example_addresses: "\<forall>(d, ip, t)\<in>set example_datagrams. utf8_valid ip"
proof -
  have "utf8_valid ''10.0.0.1''" "utf8_valid ''10.0.0.2''" by code_simp+
  then show ?thesis by (simp add: example_datagrams_def)
qed

theorem batch_roundtrip_witness:
  "\<exists>ls body q. marshal_batch \<lparr>ba_agent_id = ''a'', ba_site_id = ''s'', ba_agent_version = ''1.0.0'', ba_batch_id = ''b'',
        ba_sent_at = ''t'', ba_events = ls\<rparr> = Some body
    \<and> decode_strict store_events_request zero_events_request (body @ [nl]) = Some q
    \<and> map event_bytes (er_events q) = [''hello'', [CHR 0xFF]]"
proof -
  obtain ls where ls: "list_all2 (\<lambda>d l. line_of (record_of d) l) example_datagrams ls" using example_lines by blast
  have "utf8_valid ''a''" "utf8_valid ''s''" "utf8_valid ''1.0.0''" "utf8_valid ''b''" "utf8_valid ''t''" by code_simp+
  with batch_roundtrip [of example_datagrams "\<lparr>ba_agent_id = ''a'', ba_site_id = ''s'', ba_agent_version = ''1.0.0'',
      ba_batch_id = ''b'', ba_sent_at = ''t'', ba_events = ls\<rparr>"] ls example_addresses
  obtain body q where "marshal_batch \<lparr>ba_agent_id = ''a'', ba_site_id = ''s'', ba_agent_version = ''1.0.0'', ba_batch_id = ''b'',
        ba_sent_at = ''t'', ba_events = ls\<rparr> = Some body"
    "decode_strict store_events_request zero_events_request (body @ [nl]) = Some q"
    "list_all2 event_for example_datagrams (er_events q)"
    by auto
  then show ?thesis by (intro exI [of _ ls] exI [of _ body] exI [of _ q]) (auto simp: example_datagrams_def list_all2_Cons1)
qed

end
