(* ===== verification/Exchange_Collector.thy ===== *)
theory Exchange_Collector
  imports Exchange
begin

text \<open>
  The link between the agent and the collector, and which answer a batch of datagrams gets.
\<close>

section \<open>The link\<close>

text \<open>
  The request as the collector's handler sees it. The path that a server finds in a URL is a
  parameter.
\<close>

definition collector_request :: "(string \<Rightarrow> string) \<Rightarrow> http_request \<Rightarrow> request" where
  "collector_request path_of rq =
     \<lparr>in_method = rq_method rq, in_path = path_of (rq_url rq), in_authorization = rq_authorization rq,
      in_content_type = rq_content_type rq, in_content_encoding = rq_content_encoding rq, in_body = rq_body rq\<rparr>"

text \<open>The response as the agent sees it; the collector sends no \<open>Retry-After\<close>.\<close>

definition agent_response :: "response \<Rightarrow> http_response" where
  "agent_response r =
     \<lparr>rs_status = re_status r, rs_retry_after = [], rs_body = print_json json_quote (answer_json (\<lambda>m. []) (re_answer r))\<rparr>"

text \<open>What the agent's libraries and the collector's have in common.\<close>

record link =
  ln_gz :: "bytes \<Rightarrow> bytes"
  ln_path :: "string \<Rightarrow> string"

text \<open>
  The decompression gives back what was compressed, and the URL made of the endpoint and a path
  is found under that path: the endpoint has no path of its own.
\<close>

definition link_ok :: "link \<Rightarrow> (int \<Rightarrow> bytes \<Rightarrow> gz_stream) \<Rightarrow> agent_config \<Rightarrow> bool" where
  "link_ok ln gunzip c \<longleftrightarrow>
     (\<forall>mx b. int (length b) \<le> mx \<longrightarrow> gunzip mx (ln_gz ln b) = Stream b GzEnd)
     \<and> (\<forall>p. ln_path ln (endpoint_base c @ p) = p)"

section \<open>The verdict on a batch\<close>

text \<open>A batch that the agent may send: its own identifiers and datagrams from its socket.\<close>

definition agent_batch :: "agent_config \<Rightarrow> datagram list \<Rightarrow> batch \<Rightarrow> bool" where
  "agent_batch c ds b \<longleftrightarrow>
     is_uuid (cf_agent_id c) \<and> is_site_id (cf_site_id c) \<and> ds \<noteq> [] \<and> length ds \<le> max_events
     \<and> list_all2 (\<lambda>d l. line_of (record_of d) l) ds (ba_events b)
     \<and> (\<forall>(d, ip, t)\<in>set ds. utf8_valid ip \<and> (ip = [] \<or> is_ip ip) \<and> four_digit t)
     \<and> ba_agent_id b = cf_agent_id c \<and> ba_site_id b = cf_site_id c \<and> ba_agent_version b = agent_version
     \<and> utf8_valid (ba_batch_id b) \<and> trim_space (ba_batch_id b) \<noteq> []
     \<and> (\<exists>t. four_digit t \<and> ba_sent_at b = format_utc_millis t)"

definition decoded_batch :: "datagram list \<Rightarrow> batch \<Rightarrow> events_request" where
  "decoded_batch ds b =
     \<lparr>er_agent_id = ba_agent_id b, er_site_id = ba_site_id b, er_agent_version = ba_agent_version b,
      er_batch_id = ba_batch_id b, er_sent_at = ba_sent_at b, er_events = map (\<lambda>d. event_of_record (record_of d)) ds\<rparr>"

lemma hex_safe: "is_hex c \<Longrightarrow> safe_byte c"
  by (auto simp: is_hex_def safe_byte_def byte_in_def is_digit_of_char)

lemma hex_groups_safe: "hex_groups ns s \<Longrightarrow> list_all safe_byte s"
proof (induction ns s rule: hex_groups.induct)
  case (2 n s)
  then show ?case by (auto simp: list_all_iff hex_safe)
next
  case (3 n m ns s)
  then have "s = take n s @ CHR ''-'' # drop (Suc n) s" using id_take_nth_drop [of n s] by simp
  moreover have "list_all safe_byte (take n s @ CHR ''-'' # drop (Suc n) s)"
    using 3 hex_safe by (simp add: list_all_iff ball_Un safe_byte_def [of "CHR ''-''"] byte_in_def)
  ultimately show ?case by simp
qed simp

lemma uuid_safe: "is_uuid s \<Longrightarrow> \<forall>c\<in>set s. safe_byte c"
  using hex_groups_safe [of _ s] unfolding is_uuid_def list_all_iff by blast

lemma site_id_safe: "is_site_id s \<Longrightarrow> \<forall>c\<in>set s. safe_byte c"
  by (cases s) (auto simp: is_site_id_def site_char_def list_all_iff safe_byte_def byte_in_def is_digit_of_char)

lemma to_valid_nonempty: "to_valid_utf8 d replacement_char = [] \<longleftrightarrow> d = []"
proof
  assume e: "to_valid_utf8 d replacement_char = []"
  show "d = []"
  proof (rule ccontr)
    assume "d \<noteq> []"
    moreover have "to_valid_from False d replacement_char = []" using e by (simp add: to_valid_utf8_def)
    ultimately show False
      by (subst (asm) to_valid_from.simps) (auto simp: replacement_char_def dest: rune_size_bounds split: option.splits)
  qed
qed (simp add: to_valid_utf8_def to_valid_from.simps)

lemma validate_decoded_events:
  "\<forall>(d, ip, t)\<in>set ds. utf8_valid ip \<and> (ip = [] \<or> is_ip ip) \<and> four_digit t \<Longrightarrow>
   validate_event_list i (map (\<lambda>d. event_of_record (record_of d)) ds) = None \<longleftrightarrow> (\<forall>(d, ip, t)\<in>set ds. d \<noteq> [])"
  by (induction ds arbitrary: i)
     (auto simp: validate_event_def event_of_datagram valid_format_utc to_valid_nonempty split: option.splits)

lemma agent_version_ok: "is_semver agent_version" "utf8_valid agent_version"
  by code_simp+

lemma validate_decoded:
  assumes "agent_batch c ds b"
  shows "validate_events (decoded_batch ds b) = None \<longleftrightarrow> (\<forall>(d, ip, t)\<in>set ds. d \<noteq> [])"
proof -
  obtain t where t: "four_digit t" "ba_sent_at b = format_utc_millis t" using assms by (auto simp: agent_batch_def)
  have "has_suffix (format_utc_millis t) ''Z''" by (simp add: format_utc_millis_def has_suffix_iff)
  with t assms have "validate_common (ba_agent_id b) (ba_site_id b) (ba_agent_version b) (ba_sent_at b) = None"
    by (simp add: validate_common_def agent_batch_def agent_version_ok valid_format_utc)
  moreover have "er_events (decoded_batch ds b) \<noteq> []" "trim_space (ba_batch_id b) \<noteq> []"
    using assms by (auto simp: agent_batch_def decoded_batch_def)
  ultimately show ?thesis
    using validate_decoded_events [of ds 0] assms by (simp add: validate_events_def decoded_batch_def agent_batch_def)
qed

lemma agent_batch_decoded:
  assumes "agent_batch c ds b"
  obtains body where "marshal_batch b = Some body"
    "decode_strict store_events_request zero_events_request (body @ [nl]) = Some (decoded_batch ds b)"
proof -
  have "list_all2 line_of (map record_of ds) (ba_events b)" using assms by (simp add: list.rel_map agent_batch_def)
  moreover have "utf8_valid (ba_agent_id b)" "utf8_valid (ba_site_id b)" "utf8_valid (ba_agent_version b)"
    "utf8_valid (ba_batch_id b)" "utf8_valid (ba_sent_at b)"
    using assms uuid_safe [of "cf_agent_id c"] site_id_safe [of "cf_site_id c"] format_utc_valid agent_version_ok
    by (auto simp: agent_batch_def intro: utf8_valid_safe)
  ultimately show ?thesis
    by (elim batch_decoded) (rule that, simp_all add: decoded_batch_def comp_def)
qed

text \<open>The request that carries the batch, as the collector's handler sees it.\<close>

definition agent_post :: "link \<Rightarrow> agent_config \<Rightarrow> bytes \<Rightarrow> request" where
  "agent_post ln c body = collector_request (ln_path ln) (post_request (ln_gz ln) c ''/events'' (body @ [nl]))"

text \<open>The collector takes the agent's token and a body of this length.\<close>

definition collector_for :: "link \<Rightarrow> agent_config \<Rightarrow> collector_config \<Rightarrow> backend \<Rightarrow> bool" where
  "collector_for ln c cc bk \<longleftrightarrow> link_ok ln (bk_gunzip bk) c \<and> cf_token c \<in> set (cc_tokens cc)"

lemma post_simps:
  assumes "collector_for ln c cc bk"
  shows "authorized (new_server cc) (in_authorization (agent_post ln c body))"
    "in_path (agent_post ln c body) = ''/events''" "in_method (agent_post ln c body) = ''POST''"
proof -
  have "in_authorization (agent_post ln c body) = bearer_prefix @ cf_token c"
    by (simp add: agent_post_def collector_request_def post_request_def authorize_def bearer_prefix_def)
  with assms show "authorized (new_server cc) (in_authorization (agent_post ln c body))"
    by (auto simp: authorized_iff collector_for_def)
  show "in_path (agent_post ln c body) = ''/events''"
    using assms by (simp add: agent_post_def collector_request_def post_request_def authorize_def collector_for_def link_ok_def)
  show "in_method (agent_post ln c body) = ''POST''"
    by (simp add: agent_post_def collector_request_def post_request_def authorize_def)
qed

lemma post_read:
  assumes "collector_for ln c cc bk" "int (length body) < cc_max_body cc"
  shows "read_body (bk_gunzip bk) (new_server cc) (agent_post ln c body) = Inr (body @ [nl])"
proof -
  have "content_type_ok ''application/json''" "trim_space (lower_text ''gzip'') = ''gzip''" by code_simp+
  with assms show ?thesis
    by (simp add: read_body_def read_limited_def agent_post_def collector_request_def post_request_def authorize_def
        collector_for_def link_ok_def new_server_def)
qed

lemma serve_batch:
  assumes batch: "agent_batch c ds b" and m: "marshal_batch b = Some body"
    and coll: "collector_for ln c cc bk" and len: "int (length body) < cc_max_body cc"
  shows "(\<forall>(d, ip, t)\<in>set ds. d \<noteq> []) \<Longrightarrow> serve_http bk (new_server cc) (agent_post ln c body) s =
      saved_answer (decoded_batch ds b) (save_events (bk_number bk) (bk_database bk) (decoded_batch ds b) s)"
    and "\<not> (\<forall>(d, ip, t)\<in>set ds. d \<noteq> []) \<Longrightarrow>
      \<exists>msg. serve_http bk (new_server cc) (agent_post ln c body) s = (s, api_error 400 ''invalid_batch'' msg)"
proof -
  let ?q = "decoded_batch ds b"
  have d: "decode_strict store_events_request zero_events_request (body @ [nl]) = Some ?q"
    using agent_batch_decoded [OF batch] m by auto
  have n: "length (er_events ?q) \<le> max_events" using batch by (simp add: decoded_batch_def agent_batch_def)
  have h: "serve_http bk (new_server cc) (agent_post ln c body) s = handle_events bk (new_server cc) (agent_post ln c body) s"
    using post_simps [OF coll] by (simp add: serve_http_def)
  show "serve_http bk (new_server cc) (agent_post ln c body) s =
      saved_answer ?q (save_events (bk_number bk) (bk_database bk) ?q s)" if "\<forall>(d, ip, t)\<in>set ds. d \<noteq> []"
  proof -
    have "accepted_batch bk (new_server cc) (agent_post ln c body) = Some ?q"
      using that validate_decoded [OF batch] n by (simp add: accepted_batch_def post_read [OF coll len] d)
    from handle_events_alt [OF this] h show ?thesis by simp
  qed
  show "\<exists>msg. serve_http bk (new_server cc) (agent_post ln c body) s = (s, api_error 400 ''invalid_batch'' msg)"
    if "\<not> (\<forall>(d, ip, t)\<in>set ds. d \<noteq> [])"
    using that validate_decoded [OF batch] by (auto simp: h handle_events_def post_read [OF coll len] d)
qed

section \<open>An example\<close>

definition example_batch :: "bytes list \<Rightarrow> batch" where
  "example_batch ls =
     \<lparr>ba_agent_id = cf_agent_id example_config, ba_site_id = cf_site_id example_config,
      ba_agent_version = agent_version, ba_batch_id = ''b1'', ba_sent_at = [], ba_events = ls\<rparr>"

definition example_datagram :: "bytes \<Rightarrow> datagram" where
  "example_datagram d = (d, ''10.0.0.1'', 0)"

lemma example_agent_batch:
  assumes "\<forall>d\<in>set ms. fst (parse_syslog (to_valid_utf8 d replacement_char)) = None" "ms \<noteq> []" "length ms \<le> max_events"
  shows "\<exists>ls. agent_batch example_config (map example_datagram ms) ((example_batch ls)\<lparr>ba_sent_at := format_utc_millis 0\<rparr>)"
proof -
  let ?ds = "map example_datagram ms"
  have "\<forall>d\<in>set ms. rec_parsed (record_of (example_datagram d)) = None"
    using assms(1) by (auto simp: example_datagram_def build_record_def Let_def to_valid_utf8_def to_valid_from_id)
  then have "\<forall>d\<in>set ms. \<exists>l. line_of (record_of (example_datagram d)) l" using unparsed_line by blast
  then have "\<exists>ls. list_all2 (\<lambda>d l. line_of (record_of d) l) ?ds ls"
    by (induction ms) (auto simp: list_all2_Cons1)
  then obtain ls where ls: "list_all2 (\<lambda>d l. line_of (record_of d) l) ?ds ls" by blast
  have "utf8_valid ''10.0.0.1''" "is_ip ''10.0.0.1''" "four_digit 0" "utf8_valid ''b1''" "trim_space ''b1'' \<noteq> []"
    "is_uuid (cf_agent_id example_config)" "is_site_id (cf_site_id example_config)"
    by code_simp+
  with ls assms(2,3) have "agent_batch example_config ?ds ((example_batch ls)\<lparr>ba_sent_at := format_utc_millis 0\<rparr>)"
    by (auto simp: agent_batch_def example_batch_def example_datagram_def intro!: exI [of _ 0])
  then show ?thesis by blast
qed

lemma example_messages:
  "fst (parse_syslog (to_valid_utf8 ''hello'' replacement_char)) = None"
  "fst (parse_syslog (to_valid_utf8 [CHR 0xFF] replacement_char)) = None"
  "fst (parse_syslog (to_valid_utf8 [] replacement_char)) = None"
  "fst (parse_syslog (to_valid_utf8 [CHR 0x00] replacement_char)) = None"
  by code_simp+

end
