(* ===== verification/Exchange_Delivery.thy ===== *)
theory Exchange_Delivery
  imports Exchange_Collector
begin

text \<open>
  A delivery with the collector's tables behind the network: what the attempts leave in the tables,
  and the batches that the collector refuses for good or never takes.
\<close>

section \<open>A delivery to the collector\<close>

text \<open>
  One attempt of the agent and what becomes of its request: whether it reaches the collector, with
  what backend, and whether the answer comes back.
\<close>

record hop =
  ho_attempt :: attempt
  ho_backend :: backend
  ho_reaches :: bool
  ho_answered :: bool
  ho_error :: string

definition hop_network :: "link \<Rightarrow> server \<Rightarrow> hop \<Rightarrow> tables \<Rightarrow> http_request \<Rightarrow> reply" where
  "hop_network ln sv h s rq =
     (if ho_reaches h \<and> ho_answered h
      then Inr (agent_response (snd (serve_http (ho_backend h) sv (collector_request (ln_path ln) rq) s)))
      else Inl (ho_error h))"

definition hop_attempt :: "link \<Rightarrow> server \<Rightarrow> hop \<Rightarrow> tables \<Rightarrow> attempt" where
  "hop_attempt ln sv h s = (ho_attempt h)\<lparr>at_network := hop_network ln sv h s\<rparr>"

definition hop_tables :: "link \<Rightarrow> server \<Rightarrow> hop \<Rightarrow> http_request option \<Rightarrow> tables \<Rightarrow> tables" where
  "hop_tables ln sv h rq s =
     (case rq of
        None \<Rightarrow> s
      | Some rq \<Rightarrow>
          if ho_reaches h then fst (serve_http (ho_backend h) sv (collector_request (ln_path ln) rq) s) else s)"

text \<open>The loop of \<open>deliver\<close> with the tables of the collector behind the network.\<close>

fun exchange ::
  "link \<Rightarrow> agent_config \<Rightarrow> server \<Rightarrow> hop list \<Rightarrow> batch \<Rightarrow> position \<Rightarrow> forwarder \<Rightarrow> tables
   \<Rightarrow> forwarder \<times> tables \<times> bool option" where
  "exchange ln c sv [] b endp f s = (f, s, None)"
| "exchange ln c sv (h # hs) b endp f s =
     (case try_once (ln_gz ln) c (hop_attempt ln sv h s) b endp f of
        (f, rq, v) \<Rightarrow>
          (let s = hop_tables ln sv h rq s
           in case v of
                Delivered \<Rightarrow> (f, s, Some True)
              | Cancelled \<Rightarrow> (f, s, Some False)
              | Retry d \<Rightarrow> exchange ln c sv hs b endp f s))"


lemma stamped_hop [simp]: "stamped (hop_attempt ln sv h s) b = stamped (ho_attempt h) b"
  by (simp add: stamped_def hop_attempt_def)

text \<open>What the attempt of a hop sends, and what is assumed about it: the collector's answer or none.\<close>

definition hop_batch :: "datagram list \<Rightarrow> batch \<Rightarrow> hop \<Rightarrow> events_request" where
  "hop_batch ds b h = decoded_batch ds (stamped (ho_attempt h) b)"

definition hop_ok :: "link \<Rightarrow> agent_config \<Rightarrow> collector_config \<Rightarrow> datagram list \<Rightarrow> batch \<Rightarrow> hop \<Rightarrow> bool" where
  "hop_ok ln c cc ds b h \<longleftrightarrow>
     agent_batch c ds (stamped (ho_attempt h) b) \<and> collector_for ln c cc (ho_backend h)
     \<and> (\<forall>body. marshal_batch (stamped (ho_attempt h) b) = Some body \<longrightarrow> int (length body) < cc_max_body cc)"

lemma hop_batch_key [simp]: "batch_key (hop_batch ds b h) = (pg_uuid (ba_agent_id b), ba_batch_id b)"
  by (simp add: batch_key_def hop_batch_def decoded_batch_def stamped_def)

text \<open>What the collector does with the request of a hop, if it gets it.\<close>

definition hop_answer :: "link \<Rightarrow> agent_config \<Rightarrow> collector_config \<Rightarrow> batch \<Rightarrow> hop \<Rightarrow> tables \<Rightarrow> tables \<times> response" where
  "hop_answer ln c cc b h s =
     serve_http (ho_backend h) (new_server cc) (agent_post ln c (the (marshal_batch (stamped (ho_attempt h) b)))) s"

lemma hop_answer_cases:
  assumes "hop_ok ln c cc ds b h"
  shows "\<forall>(d, ip, t)\<in>set ds. d \<noteq> [] \<Longrightarrow> hop_answer ln c cc b h s =
      saved_answer (hop_batch ds b h) (save_events (bk_number (ho_backend h)) (bk_database (ho_backend h)) (hop_batch ds b h) s)"
    and "\<not> (\<forall>(d, ip, t)\<in>set ds. d \<noteq> []) \<Longrightarrow> \<exists>msg. hop_answer ln c cc b h s = (s, api_error 400 ''invalid_batch'' msg)"
proof -
  have batch: "agent_batch c ds (stamped (ho_attempt h) b)" and coll: "collector_for ln c cc (ho_backend h)"
    using assms by (simp_all add: hop_ok_def)
  obtain body where body: "marshal_batch (stamped (ho_attempt h) b) = Some body"
    using agent_batch_decoded [OF batch] by metis
  then have len: "int (length body) < cc_max_body cc" using assms by (simp add: hop_ok_def)
  show "\<forall>(d, ip, t)\<in>set ds. d \<noteq> [] \<Longrightarrow> hop_answer ln c cc b h s =
      saved_answer (hop_batch ds b h) (save_events (bk_number (ho_backend h)) (bk_database (ho_backend h)) (hop_batch ds b h) s)"
    using serve_batch(1) [OF batch body coll len] by (simp add: hop_answer_def hop_batch_def body)
  show "\<not> (\<forall>(d, ip, t)\<in>set ds. d \<noteq> []) \<Longrightarrow> \<exists>msg. hop_answer ln c cc b h s = (s, api_error 400 ''invalid_batch'' msg)"
    using serve_batch(2) [OF batch body coll len] by (simp add: hop_answer_def body)
qed

lemma hop_run:
  assumes ok: "hop_ok ln c cc ds b h" and t: "try_once (ln_gz ln) c (hop_attempt ln (new_server cc) h s) b endp f = (f1, rq, v)"
  shows "hop_tables ln (new_server cc) h rq s = (if ho_reaches h then fst (hop_answer ln c cc b h s) else s)"
    and "reply_to (ln_gz ln) c (hop_attempt ln (new_server cc) h s) b =
      read_reply (if ho_reaches h \<and> ho_answered h then Inr (agent_response (snd (hop_answer ln c cc b h s)))
        else Inl (ho_error h))"
proof -
  let ?a = "hop_attempt ln (new_server cc) h s"
  have batch: "agent_batch c ds (stamped (ho_attempt h) b)" using ok by (simp add: hop_ok_def)
  obtain body where body: "marshal_batch (stamped (ho_attempt h) b) = Some body"
    using agent_batch_decoded [OF batch] by metis
  have net: "at_network ?a = hop_network ln (new_server cc) h s" by (simp add: hop_attempt_def)
  have p: "post (ln_gz ln) c (at_network ?a) ''/events'' (marshal_batch (stamped (ho_attempt h) b))
      = (Some (post_request (ln_gz ln) c ''/events'' (body @ [nl])),
         read_reply (hop_network ln (new_server cc) h s (post_request (ln_gz ln) c ''/events'' (body @ [nl]))))"
    by (simp add: post_def body net Let_def)
  moreover have "stamped ?a b = b\<lparr>ba_sent_at := format_utc_millis (at_sent ?a)\<rparr>" by (rule stamped_def)
  ultimately have rq: "rq = Some (post_request (ln_gz ln) c ''/events'' (body @ [nl]))"
    using t by (auto simp: try_once_def Let_def split: prod.splits if_splits verdict.splits)
  show "hop_tables ln (new_server cc) h rq s = (if ho_reaches h then fst (hop_answer ln c cc b h s) else s)"
    by (simp add: hop_tables_def rq agent_post_def hop_answer_def body)
  show "reply_to (ln_gz ln) c ?a b =
      read_reply (if ho_reaches h \<and> ho_answered h then Inr (agent_response (snd (hop_answer ln c cc b h s)))
        else Inl (ho_error h))"
    unfolding reply_to_def stamped_hop p by (simp add: hop_network_def agent_post_def hop_answer_def body)
qed

lemma hop_events:
  assumes "hop_ok ln c cc ds b h"
  shows "length (ba_events b) = length ds" "map json_compact (ba_events b) = map Some (ba_events b)"
proof -
  have "list_all2 line_of (map record_of ds) (ba_events b)" using assms by (simp add: hop_ok_def agent_batch_def list.rel_map)
  from lines_of_records(2) [OF this] list_all2_lengthD [OF this]
  show "length (ba_events b) = length ds" "map json_compact (ba_events b) = map Some (ba_events b)" by simp_all
qed




text \<open>An answer that comes back and how the attempt goes on from it.\<close>

lemma try_once_reply:
  assumes "try_once gz c a b endp f = (f1, rq, v)" "\<not> at_cancelled a"
  obtains v1 where "on_reply a (stamped a b) endp (reply_to gz c a b) f = (f1, v1)"
    "v = (case v1 of Retry d \<Rightarrow> if at_stopped a then Cancelled else v1 | _ \<Rightarrow> v1)"
proof -
  obtain f2 v1 where r: "on_reply a (stamped a b) endp (reply_to gz c a b) f = (f2, v1)"
    by (cases "on_reply a (stamped a b) endp (reply_to gz c a b) f")
  obtain q res where post: "post gz c (at_network a) ''/events'' (marshal_batch (stamped a b)) = (q, res)"
    by (cases "post gz c (at_network a) ''/events'' (marshal_batch (stamped a b))")
  then have "reply_to gz c a b = res" by (simp add: reply_to_def)
  with assms post r have "f1 = f2 \<and> v = (case v1 of Retry d \<Rightarrow> if at_stopped a then Cancelled else v1 | _ \<Rightarrow> v1)"
    by (cases v1) (auto simp: try_once_def stamped_def)
  with r that show ?thesis by blast
qed




section \<open>An example\<close>

definition example_link :: link where
  "example_link = \<lparr>ln_gz = (\<lambda>b. b), ln_path = drop 17\<rparr>"

definition example_hop :: "database \<Rightarrow> bool \<Rightarrow> hop" where
  "example_hop db answered =
     \<lparr>ho_attempt = example_attempt 0,
      ho_backend = example_backend\<lparr>bk_gunzip := (\<lambda>mx b. Stream b GzEnd), bk_database := db\<rparr>,
      ho_reaches = True, ho_answered = answered, ho_error = ''EOF''\<rparr>"

lemma example_hop_ok:
  assumes "\<forall>d\<in>set ms. fst (parse_syslog (to_valid_utf8 d replacement_char)) = None" "ms \<noteq> []" "length ms \<le> max_events"
  shows "\<exists>ls cc. \<forall>db a. hop_ok example_link example_config cc (map example_datagram ms) (example_batch ls) (example_hop db a)"
proof -
  let ?ds = "map example_datagram ms"
  obtain ls where batch: "agent_batch example_config ?ds ((example_batch ls)\<lparr>ba_sent_at := format_utc_millis 0\<rparr>)"
    using example_agent_batch [OF assms] by blast
  let ?b = "(example_batch ls)\<lparr>ba_sent_at := format_utc_millis 0\<rparr>"
  have attempt: "at_sent (ho_attempt (example_hop db a)) = 0" for db a by (simp add: example_hop_def example_attempt_def)
  have st: "stamped (ho_attempt (example_hop db a)) (example_batch ls) = ?b" for db a by (simp add: stamped_def attempt)
  obtain body where body: "marshal_batch ?b = Some body" using agent_batch_decoded [OF batch] by metis
  let ?cc = "example_collector\<lparr>cc_max_body := int (length body) + 1\<rparr>"
  have "endpoint_base example_config = ''https://c.example''" by code_simp
  then have "collector_for example_link example_config ?cc (ho_backend (example_hop db a))" for db a
    by (simp add: collector_for_def link_ok_def example_link_def example_hop_def example_collector_def example_config_def)
  with batch body have "hop_ok example_link example_config ?cc ?ds (example_batch ls) (example_hop db a)" for db a
    by (simp add: hop_ok_def st)
  then show ?thesis by blast
qed

lemma example_inv: "spool_inv (fw_spool example_forwarder)"
  by (simp add: example_forwarder_def example_spool_inv)

lemma example_key_new: "(pg_uuid (ba_agent_id b), ba_batch_id b) \<notin> set (map fst (tb_batches empty_tables))"
  by (simp add: empty_tables_def)

lemma example_hop_simps [simp]:
  "bk_number (ho_backend (example_hop db a)) = Some" "bk_database (ho_backend (example_hop db a)) = db"
  "ho_reaches (example_hop db a)" "ho_answered (example_hop db a) = a" "\<not> at_cancelled (ho_attempt (example_hop db a))"
  "\<not> at_stopped (ho_attempt (example_hop db a))" "at_io (ho_attempt (example_hop db a)) = no_faults"
  by (simp_all add: example_hop_def example_attempt_def example_backend_def)



section \<open>Batches that do not get through\<close>

lemma escaped_events:
  assumes "map json_compact es = map Some es"
  shows "json_list (map (\<lambda>e. map_option html_escape (json_compact e)) es) \<noteq> None"
proof -
  have "map (\<lambda>e. map_option html_escape (json_compact e)) es = map (map_option html_escape) (map json_compact es)" by simp
  also have "\<dots> = map Some (map html_escape es)" by (simp only: assms) simp
  finally have e: "map (\<lambda>e. map_option html_escape (json_compact e)) es = map Some (map html_escape es)" .
  show ?thesis using json_list_some [of "map html_escape es"] by (simp only: e) auto
qed

lemma dead_letter_written:
  assumes "json_list (map (\<lambda>e. map_option html_escape (json_compact e)) (ba_events b)) \<noteq> None"
    and "at_io a = no_faults" "\<forall>e. look (sp_files (fw_spool f)) (dead_letter_name (at_letter a)) \<noteq> Some (Subdir e)"
  shows "\<exists>f1. forwarder_dead_letter a b r f = (f1, True)"
proof -
  have "open_append no_faults (sp_files (fw_spool f)) (dead_letter_name (at_letter a)) \<noteq> None"
    using assms(3) by (auto simp: open_append_no_faults split: option.splits node.splits)
  moreover have "marshal_dead_letter l \<noteq> None" if "dl_batch l = b" for l
    using assms(1) that by (simp add: marshal_dead_letter_def marshal_batch_with_def json_array_def)
  ultimately show ?thesis
    using assms(2) by (auto simp: forwarder_dead_letter_def write_dead_letter_def write_sync_close_def call_error_def Let_def split: option.splits)
qed

text \<open>
  C30: One empty datagram condemns its whole batch: whatever else the batch holds, the first time
  the collector is reached nothing is stored, and the agent moves past the batch, which it counts
  as dead-lettered.
\<close>

theorem empty_datagram_dead_letters:
  assumes "hop_ok ln c cc ds b h" and "\<exists>(d, ip, t)\<in>set ds. d = []"
    and "spool_inv (fw_spool f)" "0 \<le> po_offset endp"
    and "ho_reaches h" "ho_answered h" "\<not> at_cancelled (ho_attempt h)" "at_io (ho_attempt h) = no_faults"
    and "\<forall>e. look (sp_files (fw_spool f)) (dead_letter_name (at_letter (ho_attempt h))) \<noteq> Some (Subdir e)"
    and "exchange ln c (new_server cc) (h # hs) b endp f s = (f', s', r)"
  shows "s' = s \<and> r = Some True \<and> sp_committed (fw_spool f') = endp
    \<and> st_forwarded (fw_stats f') = st_forwarded (fw_stats f)
    \<and> st_dead_lettered (fw_stats f') = st_dead_lettered (fw_stats f) + int (length ds)"
proof -
  let ?a = "hop_attempt ln (new_server cc) h s"
  obtain f1 rq v where t: "try_once (ln_gz ln) c ?a b endp f = (f1, rq, v)"
    by (cases "try_once (ln_gz ln) c ?a b endp f") auto
  obtain msg where "hop_answer ln c cc b h s = (s, api_error 400 ''invalid_batch'' msg)"
    using hop_answer_cases(2) [OF assms(1)] assms(2) by fastforce
  with hop_run [OF assms(1) t] assms(5,6) obtain res where
    res: "hop_tables ln (new_server cc) h rq s = s" "reply_to (ln_gz ln) c ?a b = Inr res" "rs_status res = 400"
    by (simp add: read_reply_def agent_response_def)
  have a: "\<not> at_cancelled ?a" "at_io ?a = no_faults" "at_letter ?a = at_letter (ho_attempt h)"
    using assms(7,8) by (simp_all add: hop_attempt_def)
  have "json_list (map (\<lambda>e. map_option html_escape (json_compact e)) (ba_events (stamped ?a b))) \<noteq> None"
    unfolding stamped_events by (rule escaped_events [OF hop_events(2) [OF assms(1)]])
  from dead_letter_written [OF this a(2), of f res] assms(9) a(3)
  obtain f2 where "forwarder_dead_letter ?a (stamped ?a b) res f = (f2, True)" by auto
  then have "on_reply ?a (stamped ?a b) endp (reply_to (ln_gz ln) c ?a b) f
      = (on_refusal ?a (int (length (ba_events b))) endp 400 f2, Delivered)"
    by (simp add: on_reply_def res Let_def)
  with try_once_reply [OF t a(1)] have v: "v = Delivered" by auto
  then have r: "s' = s" "r = Some True" "f' = f1" using assms(10) t res(1) by (simp_all add: Let_def)
  from try_once_result [OF assms(3,4) t] v res hop_events(1) [OF assms(1)] show ?thesis
    by (auto simp: r accepted_by_def refused_by_def settled_def sent_total_def)
qed

theorem empty_datagram_dead_letters_witness:
  "\<exists>ls cc f' s'. exchange example_link example_config (new_server cc) [example_hop working_database True]
       (example_batch ls) zero_position example_forwarder empty_tables = (f', s', Some True)
     \<and> s' = empty_tables \<and> st_dead_lettered (fw_stats f') = 2"
proof -
  let ?ds = "map example_datagram [''hello'', []]"
  obtain ls cc where ok: "\<And>db a. hop_ok example_link example_config cc ?ds (example_batch ls) (example_hop db a)"
    using example_hop_ok [of "[''hello'', []]"] example_messages by (auto simp: max_events_def)
  obtain f' s' r where run: "exchange example_link example_config (new_server cc) [example_hop working_database True]
      (example_batch ls) zero_position example_forwarder empty_tables = (f', s', r)" by (meson prod_cases3)
  have "look (sp_files (fw_spool example_forwarder)) (dead_letter_name t) \<noteq> Some (Subdir e)" for e t
    by (simp add: example_forwarder_def example_spool_def new_spool_def example_dir_def)
  then have "s' = empty_tables \<and> r = Some True \<and> st_dead_lettered (fw_stats f') = st_dead_lettered (fw_stats example_forwarder) + 2"
    using empty_datagram_dead_letters [OF ok _ example_inv _ _ _ _ _ _ run] by (simp add: example_datagram_def zero_position_def)
  moreover have "st_dead_lettered (fw_stats example_forwarder) = 0" by (simp add: example_forwarder_def stats_init_def)
  ultimately show ?thesis using run by auto
qed

text \<open>A NUL byte stays in the raw text of its event.\<close>

lemma nul_kept: "CHR 0x00 \<in> set s \<Longrightarrow> CHR 0x00 \<in> set (to_valid_from bad s repl)"
proof (induction bad s repl rule: to_valid_from.induct)
  case (1 bad s repl)
  then have s: "s \<noteq> []" by auto
  show ?case
  proof (cases "rune_size s")
    case None
    then have "hd s \<noteq> CHR 0x00" using s by (cases s) (auto simp: rune_size.simps byte_in_def split: if_splits)
    with "1.prems" s have "CHR 0x00 \<in> set (tl s)" by (cases s) auto
    with "1.IH"(1) [OF s None] s None show ?thesis by (simp add: to_valid_from.simps [of bad s])
  next
    case (Some n)
    have "CHR 0x00 \<in> set (take n s) \<or> CHR 0x00 \<in> set (drop n s)"
      using "1.prems" by (metis UnE append_take_drop_id set_append)
    with "1.IH"(2) [OF s Some] s Some show ?thesis by (auto simp: to_valid_from.simps [of bad s])
  qed
qed

lemma insert_events_refused:
  "e \<in> set es \<Longrightarrow> \<forall>i. \<not> db_event db (event_row_of r e i) \<Longrightarrow> insert_events num db r es t = None"
proof (induction es arbitrary: t)
  case (Cons x es)
  obtain key i where k: "event_key num x = (key, i)" by (cases "event_key num x")
  with Cons show ?case by (cases "x = e") (simp_all add: Let_def)
qed simp

text \<open>\<open>text\<close> of PostgreSQL holds no NUL byte.\<close>

definition no_nul :: "database \<Rightarrow> bool" where
  "no_nul db \<longleftrightarrow> (\<forall>row. CHR 0x00 \<in> set (rw_raw row) \<longrightarrow> \<not> db_event db row)"

lemma nul_not_saved:
  assumes "\<exists>(d, ip, t)\<in>set ds. CHR 0x00 \<in> set d" "\<forall>(d, ip, t)\<in>set ds. utf8_valid ip" "no_nul db"
    and "\<not> has_batch (decoded_batch ds b) s"
  shows "save_events num db (decoded_batch ds b) s = (s, None)"
proof -
  obtain d ip t where d: "(d, ip, t) \<in> set ds" "CHR 0x00 \<in> set d" using assms(1) by blast
  let ?e = "event_of_record (record_of (d, ip, t))"
  have "CHR 0x00 \<in> set (ev_raw ?e)"
    using d assms(2) nul_kept [of d False replacement_char] by (auto simp: event_of_datagram to_valid_utf8_def)
  then have "\<forall>i. \<not> db_event db (event_row_of (decoded_batch ds b) ?e i)"
    using assms(3) by (simp add: no_nul_def event_row_of_def)
  moreover have "?e \<in> set (er_events (decoded_batch ds b))" using d(1) by (force simp: decoded_batch_def)
  ultimately show ?thesis using assms(4) insert_events_refused by (simp add: save_events_alt)
qed

text \<open>
  C31: One datagram with a NUL byte blocks the queue: the database cannot hold the batch, so every
  attempt fails, the delivery never returns true, and no event leaves the queue, however many
  attempts are made.
\<close>

theorem nul_datagram_blocks:
  assumes "\<forall>h\<in>set hs. hop_ok ln c cc ds b h \<and> no_nul (bk_database (ho_backend h))"
    and "\<forall>(d, ip, t)\<in>set ds. d \<noteq> []" and "\<exists>(d, ip, t)\<in>set ds. CHR 0x00 \<in> set d"
    and "spool_inv (fw_spool f)" "0 \<le> po_offset endp"
    and "(pg_uuid (ba_agent_id b), ba_batch_id b) \<notin> set (map fst (tb_batches s))"
    and "exchange ln c (new_server cc) hs b endp f s = (f', s', r)"
  shows "s' = s \<and> r \<noteq> Some True \<and> sp_committed (fw_spool f') = sp_committed (fw_spool f)
    \<and> pending (fw_spool f') = pending (fw_spool f)"
  using assms(1,4,7)
proof (induction hs arbitrary: f)
  case Nil
  then show ?case by simp
next
  case (Cons h hs)
  obtain f1 rq v where t: "try_once (ln_gz ln) c (hop_attempt ln (new_server cc) h s) b endp f = (f1, rq, v)"
    by (cases "try_once (ln_gz ln) c (hop_attempt ln (new_server cc) h s) b endp f") auto
  have ok: "hop_ok ln c cc ds b h" and nul: "no_nul (bk_database (ho_backend h))" using Cons.prems(1) by auto
  have "\<not> has_batch (hop_batch ds b h) s" using assms(6) by (simp add: has_batch_def)
  moreover have "\<forall>(d, ip, t)\<in>set ds. utf8_valid ip" using ok by (auto simp: hop_ok_def agent_batch_def)
  ultimately have "save_events (bk_number (ho_backend h)) (bk_database (ho_backend h)) (hop_batch ds b h) s = (s, None)"
    using nul_not_saved [OF assms(3) _ nul] by (simp add: hop_batch_def)
  with hop_answer_cases(1) [OF ok assms(2), of s] have "hop_answer ln c cc b h s = (s, storage_unavailable)"
    by (simp add: saved_answer_def)
  with hop_run [OF ok t] have s: "hop_tables ln (new_server cc) h rq s = s"
    "\<not> accepted_by a (reply_to (ln_gz ln) c (hop_attempt ln (new_server cc) h s) b) n f f1"
    "\<not> refused_by a (reply_to (ln_gz ln) c (hop_attempt ln (new_server cc) h s) b) b' f f1" for a n b'
    by (auto simp: read_reply_def agent_response_def accepted_by_def refused_by_def split: if_splits)
  with try_once_result [OF Cons.prems(2) assms(5) t] have v: "v \<noteq> Delivered" "held f f1" by auto
  then have f1: "spool_inv (fw_spool f1)" "sp_committed (fw_spool f1) = sp_committed (fw_spool f)"
    "pending (fw_spool f1) = pending (fw_spool f)"
    using plain_same_pending [OF spool_inv_dir [OF Cons.prems(2)]] by (auto simp: held_def pending_def)
  show ?case
  proof (cases v)
    case (Retry d)
    with Cons.prems(3) t s(1) have "exchange ln c (new_server cc) hs b endp f1 s = (f', s', r)" by (simp add: Let_def)
    from Cons.IH [OF _ f1(1) this] Cons.prems(1) f1 show ?thesis by simp
  qed (use v Cons.prems(3) t s(1) f1 in \<open>auto simp: Let_def\<close>)
qed

theorem nul_datagram_blocks_witness:
  "\<exists>ls cc f' r. exchange example_link example_config (new_server cc)
       (replicate 3 (example_hop (working_database\<lparr>db_event := \<lambda>row. CHR 0x00 \<notin> set (rw_raw row)\<rparr>) True))
       (example_batch ls) zero_position example_forwarder empty_tables = (f', empty_tables, r)
     \<and> r \<noteq> Some True"
proof -
  let ?ds = "map example_datagram [''hello'', [CHR 0x00]]" and ?db = "working_database\<lparr>db_event := \<lambda>row. CHR 0x00 \<notin> set (rw_raw row)\<rparr>"
  obtain ls cc where ok: "\<And>db a. hop_ok example_link example_config cc ?ds (example_batch ls) (example_hop db a)"
    using example_hop_ok [of "[''hello'', [CHR 0x00]]"] example_messages by (auto simp: max_events_def)
  obtain f' s' r where run: "exchange example_link example_config (new_server cc) (replicate 3 (example_hop ?db True))
      (example_batch ls) zero_position example_forwarder empty_tables = (f', s', r)" by (meson prod_cases3)
  have "no_nul ?db" by (simp add: no_nul_def)
  then have "\<forall>h\<in>set (replicate 3 (example_hop ?db True)).
      hop_ok example_link example_config cc ?ds (example_batch ls) h \<and> no_nul (bk_database (ho_backend h))"
    using ok by simp
  from nul_datagram_blocks [OF this _ _ example_inv _ example_key_new run] run show ?thesis
    by (auto simp: example_datagram_def zero_position_def)
qed

end
