(* ===== verification/Mock_Server.thy ===== *)
theory Mock_Server
  imports Collector
begin

text \<open>
  \<open>internal/mockserver/mockserver.go\<close>: the collector of the integration tests, with faults that
  can be injected and counters that can be asked for. A request is handled as one step; the time
  that a fault waits has no effect on the state and is left out. Counters are integers without
  bound.
\<close>

section \<open>State\<close>

record fault =
  fa_status :: int
  fa_retry_after :: string
  fa_delay_ms :: int
  fa_drop :: bool
  fa_count :: int
  fa_paths :: "string list"

definition no_fault :: fault where
  "no_fault =
     \<lparr>fa_status = 0, fa_retry_after = [], fa_delay_ms = 0, fa_drop = False, fa_count = 0, fa_paths = []\<rparr>"

definition active :: "fault \<Rightarrow> bool" where
  "active f \<longleftrightarrow> fa_status f \<noteq> 0 \<or> 0 < fa_delay_ms f \<or> fa_drop f"

type_synonym counts = "(string \<times> int) list"

text \<open>\<open>m[k]++\<close>\<close>

fun bump :: "string \<Rightarrow> counts \<Rightarrow> counts" where
  "bump k [] = [(k, 1)]"
| "bump k ((a, n) # m) = (if a = k then (a, n + 1) # m else (a, n) # bump k m)"

record mock_stats =
  mt_requests :: int
  mt_path_counts :: counts
  mt_status_counts :: counts
  mt_drops :: int
  mt_batches_received :: int
  mt_batches_duplicated :: int
  mt_events_received :: int
  mt_events_accepted :: int
  mt_events_duplicated :: int
  mt_heartbeats :: int
  mt_last_heartbeat :: "bytes option"

definition zero_mock_stats :: mock_stats where
  "zero_mock_stats =
     \<lparr>mt_requests = 0, mt_path_counts = [], mt_status_counts = [], mt_drops = 0, mt_batches_received = 0,
      mt_batches_duplicated = 0, mt_events_received = 0, mt_events_accepted = 0, mt_events_duplicated = 0,
      mt_heartbeats = 0, mt_last_heartbeat = None\<rparr>"

record accepted_event =
  ae_key :: string
  ae_event_id :: string
  ae_received_at :: string

text \<open>What deduplicates: the batches, the keys and the accepted events in their order.\<close>

record mock_store =
  mk_batches :: "string set"
  mk_keys :: "string set"
  mk_accepted :: "accepted_event list"

definition empty_mock_store :: mock_store where
  "empty_mock_store = \<lparr>mk_batches = {}, mk_keys = {}, mk_accepted = []\<rparr>"

record mock_server =
  mo_token :: string
  mo_min_version :: string
  mo_fault :: fault
  mo_stats :: mock_stats
  mo_store :: mock_store

definition reset :: "mock_server \<Rightarrow> mock_server" where
  "reset s = s\<lparr>mo_fault := no_fault, mo_stats := zero_mock_stats, mo_store := empty_mock_store\<rparr>"

definition new_mock :: "string \<Rightarrow> mock_server" where
  "new_mock token =
     reset \<lparr>mo_token = token, mo_min_version = ''1.0.0'', mo_fault = no_fault, mo_stats = zero_mock_stats,
            mo_store = empty_mock_store\<rparr>"

definition set_fault :: "fault \<Rightarrow> mock_server \<Rightarrow> mock_server" where
  "set_fault f s = s\<lparr>mo_fault := f\<rparr>"

definition clear_fault :: "mock_server \<Rightarrow> mock_server" where
  "clear_fault = set_fault no_fault"

definition set_min_version :: "string \<Rightarrow> mock_server \<Rightarrow> mock_server" where
  "set_min_version v s = s\<lparr>mo_min_version := v\<rparr>"

definition count_stats :: "(mock_stats \<Rightarrow> mock_stats) \<Rightarrow> mock_server \<Rightarrow> mock_server" where
  "count_stats u s = s\<lparr>mo_stats := u (mo_stats s)\<rparr>"

section \<open>Messages\<close>

record mock_event =
  me_received_at :: string
  me_raw :: bytes
  me_parsed :: "json option option" \<comment> \<open>null, or an object with or without a payload\<close>
  me_parse_error :: "string option"

record mock_request =
  mr_agent_id :: string
  mr_site_id :: string
  mr_agent_version :: string
  mr_batch_id :: string
  mr_sent_at :: string
  mr_events :: "mock_event list"

definition zero_mock_event :: mock_event where
  "zero_mock_event = \<lparr>me_received_at = [], me_raw = [], me_parsed = None, me_parse_error = None\<rparr>"

definition zero_mock_request :: mock_request where
  "zero_mock_request =
     \<lparr>mr_agent_id = [], mr_site_id = [], mr_agent_version = [], mr_batch_id = [], mr_sent_at = [],
      mr_events = []\<rparr>"

text \<open>A pointer: null makes it nil, another value is stored where it points, or in a new zero value.\<close>

definition store_ptr :: "(json \<Rightarrow> 'a \<Rightarrow> 'a \<times> bool) \<Rightarrow> 'a \<Rightarrow> json \<Rightarrow> 'a option \<Rightarrow> 'a option \<times> bool" where
  "store_ptr store z v old =
     (if v = JNull then (None, False)
      else case store v (case old of None \<Rightarrow> z | Some x \<Rightarrow> x) of (x, e) \<Rightarrow> (Some x, e))"

definition store_payload :: "json \<Rightarrow> json option \<Rightarrow> json option \<times> bool" where
  "store_payload = store_struct [''payload''] (\<lambda>f v old. (Some v, False))"

definition store_mock_event :: "json \<Rightarrow> mock_event \<Rightarrow> mock_event \<times> bool" where
  "store_mock_event =
     store_struct [''received_at'', ''raw'', ''parsed'', ''parse_error'']
       (\<lambda>f v x.
          if f = ''received_at'' then at_field (store_string v) me_received_at me_received_at_update x
          else if f = ''raw'' then at_field (store_string v) me_raw me_raw_update x
          else if f = ''parsed'' then at_field (store_ptr store_payload None v) me_parsed me_parsed_update x
          else at_field (store_opt_string v) me_parse_error me_parse_error_update x)"

definition store_mock_request :: "json \<Rightarrow> mock_request \<Rightarrow> mock_request \<times> bool" where
  "store_mock_request =
     store_struct [''agent_id'', ''site_id'', ''agent_version'', ''batch_id'', ''sent_at'', ''events'']
       (\<lambda>f v x.
          if f = ''agent_id'' then at_field (store_string v) mr_agent_id mr_agent_id_update x
          else if f = ''site_id'' then at_field (store_string v) mr_site_id mr_site_id_update x
          else if f = ''agent_version'' then at_field (store_string v) mr_agent_version mr_agent_version_update x
          else if f = ''batch_id'' then at_field (store_string v) mr_batch_id mr_batch_id_update x
          else if f = ''sent_at'' then at_field (store_string v) mr_sent_at mr_sent_at_update x
          else at_field (store_list store_mock_event zero_mock_event v) mr_events mr_events_update x)"

definition store_fault :: "json \<Rightarrow> fault \<Rightarrow> fault \<times> bool" where
  "store_fault =
     store_struct [''status'', ''retry_after'', ''delay_ms'', ''drop'', ''count'', ''paths'']
       (\<lambda>f v x.
          if f = ''status'' then at_field (store_int64 v) fa_status fa_status_update x
          else if f = ''retry_after'' then at_field (store_string v) fa_retry_after fa_retry_after_update x
          else if f = ''delay_ms'' then at_field (store_int64 v) fa_delay_ms fa_delay_ms_update x
          else if f = ''drop'' then at_field (store_bool v) fa_drop fa_drop_update x
          else if f = ''count'' then at_field (store_int64 v) fa_count fa_count_update x
          else at_field (store_list store_string [] v) fa_paths fa_paths_update x)"

text \<open>
  \<open>Decoder.Decode\<close> into a struct: the first value of the input, whatever follows. A text that
  starts with an object, or with null, is valid as far as that value and the white space after it.
\<close>

definition decode_first :: "(json \<Rightarrow> 'a \<Rightarrow> 'a \<times> bool) \<Rightarrow> 'a \<Rightarrow> bytes \<Rightarrow> 'a option" where
  "decode_first store z b =
     (case find (\<lambda>n. json_valid (take n b)) (rev [0..<Suc (length b)]) of
        None \<Rightarrow> None
      | Some n \<Rightarrow> unmarshal store (take n b) z)"

section \<open>Answers\<close>

datatype mock_answer =
    Plain answer
  | StatsOk mock_stats
  | AcceptedOk "accepted_event list"
  | FaultOk fault
  | VersionOk string
  | Okay

datatype mock_reply =
    Dropped \<comment> \<open>the connection is cut without a response\<close>
  | Reply int string mock_answer \<comment> \<open>status, \<open>Retry-After\<close>, body\<close>

definition write_json :: "int \<Rightarrow> mock_answer \<Rightarrow> mock_reply" where
  "write_json status a = Reply status [] a"

definition write_error :: "int \<Rightarrow> string \<Rightarrow> message \<Rightarrow> mock_reply" where
  "write_error status code msg = write_json status (Plain (ApiError code msg))"

definition reply_status :: "mock_reply \<Rightarrow> int" where
  "reply_status r = (case r of Dropped \<Rightarrow> 0 | Reply n h a \<Rightarrow> n)"

section \<open>Events\<close>

definition max_mock_body :: int where "max_mock_body = 64 * 2 ^ 20"

text \<open>
  The limit of the reader cuts the body off, so a longer one ends a compressed stream early; the
  stream of a body is the parameter \<open>gunzip\<close>. The encoding is compared without regard to case.
\<close>

definition read_mock_body :: "(bytes \<Rightarrow> gz_stream) \<Rightarrow> request \<Rightarrow> body_error + bytes" where
  "read_mock_body gunzip r =
     (let b = take_int (max_mock_body + 1) (in_body r)
      in read_limited max_mock_body
           (if map to_lower (in_content_encoding r) = ''gzip'' then gunzip b else Stream b GzEnd))"

definition validate_batch :: "mock_request \<Rightarrow> string option" where
  "validate_batch q =
     (if \<not> is_uuid (mr_agent_id q) then Some (''agent_id '' @ [CHR 0xE5, CHR 0xBF, CHR 0x85, CHR 0xE9,
        CHR 0xA0, CHR 0x88, CHR 0xE7, CHR 0x82, CHR 0xBA] @ '' UUID'')
      else if \<not> is_site_id (mr_site_id q) then Some (''site_id '' @ [CHR 0xE6, CHR 0xA0, CHR 0xBC,
        CHR 0xE5, CHR 0xBC, CHR 0x8F, CHR 0xE9, CHR 0x8C, CHR 0xAF, CHR 0xE8, CHR 0xAA, CHR 0xA4])
      else if \<not> is_semver (mr_agent_version q) then Some (''agent_version '' @ [CHR 0xE5, CHR 0xBF,
        CHR 0x85, CHR 0xE9, CHR 0xA0, CHR 0x88, CHR 0xE7, CHR 0x82, CHR 0xBA] @ '' semver'')
      else if mr_batch_id q = [] then Some (''batch_id '' @ [CHR 0xE4, CHR 0xB8, CHR 0x8D, CHR 0xE5,
        CHR 0x8F, CHR 0xAF, CHR 0xE7, CHR 0x82, CHR 0xBA, CHR 0xE7, CHR 0xA9, CHR 0xBA])
      else if \<not> has_suffix (mr_sent_at q) ''Z'' then Some (''sent_at '' @ [CHR 0xE5, CHR 0xBF,
        CHR 0x85, CHR 0xE9, CHR 0xA0, CHR 0x88, CHR 0xE7, CHR 0x82, CHR 0xBA] @ '' UTC '' @ [CHR 0xE7,
        CHR 0x9A, CHR 0x84] @ '' RFC 3339 '' @ [CHR 0xE6, CHR 0x99, CHR 0x82, CHR 0xE9, CHR 0x96, CHR 0x93])
      else if mr_events q = [] then Some (''events '' @ [CHR 0xE6, CHR 0xAC, CHR 0x84, CHR 0xE4, CHR 0xBD,
        CHR 0x8D, CHR 0xE4, CHR 0xB8, CHR 0x8D, CHR 0xE5, CHR 0x8F, CHR 0xAF, CHR 0xE7, CHR 0x82, CHR 0xBA,
        CHR 0xE7, CHR 0xA9, CHR 0xBA])
      else if \<not> valid_rfc3339 (mr_sent_at q) then Some (''sent_at '' @ [CHR 0xE5, CHR 0xBF, CHR 0x85,
        CHR 0xE9, CHR 0xA0, CHR 0x88, CHR 0xE7, CHR 0x82, CHR 0xBA] @ '' RFC 3339 '' @ [CHR 0xE6, CHR 0x99,
        CHR 0x82, CHR 0xE9, CHR 0x96, CHR 0x93])
      else case find (\<lambda>i. me_received_at (mr_events q ! i) = [] \<or> me_raw (mr_events q ! i) = [])
                  [0..<length (mr_events q)] of
             None \<Rightarrow> None
           | Some i \<Rightarrow> Some (''events['' @ nat_dec i @ (''] '' @ [CHR 0xE7, CHR 0xBC, CHR 0xBA,
        CHR 0xE5, CHR 0xB0, CHR 0x91] @ '' received_at '' @ [CHR 0xE6, CHR 0x88, CHR 0x96] @ '' raw'')))"

text \<open>The identifier in the payload, empty where there is none that is a string.\<close>

definition mock_event_id :: "mock_event \<Rightarrow> string" where
  "mock_event_id e =
     (case (me_parse_error e, me_parsed e) of
        (None, Some (Some p)) \<Rightarrow>
          (case store_struct [''event_id''] (\<lambda>f. store_string) p [] of (i, err) \<Rightarrow> if err then [] else i)
      | _ \<Rightarrow> [])"

definition mock_key :: "string \<Rightarrow> mock_event \<Rightarrow> string \<times> string" where
  "mock_key agent e =
     (let i = mock_event_id e
      in if i \<noteq> [] then (agent @ ''|event_id|'' @ i, i)
         else (agent @ ''|'' @ me_received_at e @ ''|'' @ raw_hash (me_raw e), []))"

text \<open>The loop over the events: the new keys are accepted and counted.\<close>

fun accept_events :: "string \<Rightarrow> mock_event list \<Rightarrow> mock_store \<Rightarrow> mock_store \<times> int" where
  "accept_events agent [] m = (m, 0)"
| "accept_events agent (e # es) m =
     (case mock_key agent e of
        (key, i) \<Rightarrow>
          if key \<in> mk_keys m then accept_events agent es m
          else
            (case accept_events agent es
                    (m\<lparr>mk_keys := insert key (mk_keys m),
                       mk_accepted := mk_accepted m @ [\<lparr>ae_key = key, ae_event_id = i, ae_received_at = me_received_at e\<rparr>]\<rparr>) of
               (m, n) \<Rightarrow> (m, n + 1)))"

text \<open>The store and the numbers of accepted and duplicated events; a batch counts once.\<close>

definition store_mock_batch :: "mock_request \<Rightarrow> mock_store \<Rightarrow> mock_store \<times> int \<times> int" where
  "store_mock_batch q m =
     (let n = int (length (mr_events q))
      in if mr_batch_id q \<in> mk_batches m then (m, 0, n)
         else case accept_events (mr_agent_id q) (mr_events q) (m\<lparr>mk_batches := insert (mr_batch_id q) (mk_batches m)\<rparr>) of
           (m, k) \<Rightarrow> (m, k, n - k))"

definition mock_events :: "bytes \<Rightarrow> mock_server \<Rightarrow> mock_server \<times> mock_reply" where
  "mock_events body s =
     (case unmarshal store_mock_request body zero_mock_request of
        None \<Rightarrow> (s, write_error 400 ''invalid_json'' JsonText)
      | Some q \<Rightarrow>
          (case validate_batch q of
             Some m \<Rightarrow> (s, write_error 400 ''invalid_batch'' (Text m))
           | None \<Rightarrow>
               if max_events < length (mr_events q)
               then (s, write_error 413 ''batch_too_large'' (Text (''events '' @ [CHR 0xE4, CHR 0xB8,
        CHR 0x8D, CHR 0xE5, CHR 0x8F, CHR 0xAF, CHR 0xE8, CHR 0xB6, CHR 0x85, CHR 0xE9, CHR 0x81,
        CHR 0x8E] @ '' 10000 '' @ [CHR 0xE7, CHR 0xAD, CHR 0x86])))
               else case store_mock_batch q (mo_store s) of
                 (m, k, d) \<Rightarrow>
                   let n = int (length (mr_events q)); known = mr_batch_id q \<in> mk_batches (mo_store s)
                   in (count_stats (\<lambda>v. v\<lparr>mt_batches_received := mt_batches_received v + 1,
                           mt_events_received := mt_events_received v + n,
                           mt_batches_duplicated := mt_batches_duplicated v + (if known then 1 else 0),
                           mt_events_accepted := mt_events_accepted v + k,
                           mt_events_duplicated := mt_events_duplicated v + d\<rparr>) (s\<lparr>mo_store := m\<rparr>),
                       write_json 200 (Plain (EventsOk n k d)))))"

section \<open>Heartbeats\<close>

definition mock_heartbeat :: "bytes \<Rightarrow> mock_server \<Rightarrow> mock_server \<times> mock_reply" where
  "mock_heartbeat body s =
     (case unmarshal (store_struct [''agent_id''] (\<lambda>f. store_string)) body [] of
        None \<Rightarrow> (s, write_error 400 ''invalid_heartbeat'' (Text (''agent_id '' @ [CHR 0xE5,
        CHR 0xBF, CHR 0x85, CHR 0xE9, CHR 0xA0, CHR 0x88, CHR 0xE7, CHR 0x82, CHR 0xBA] @ '' UUID'')))
      | Some i \<Rightarrow>
          if \<not> is_uuid i then (s, write_error 400 ''invalid_heartbeat'' (Text (''agent_id '' @ [CHR 0xE5, CHR 0xBF, CHR 0x85, CHR 0xE9, CHR 0xA0, CHR 0x88, CHR 0xE7, CHR 0x82, CHR 0xBA] @ '' UUID'')))
          else (count_stats (\<lambda>v. v\<lparr>mt_heartbeats := mt_heartbeats v + 1, mt_last_heartbeat := Some body\<rparr>) s,
                write_json 200 (Plain (HeartbeatOk (mo_min_version s)))))"

section \<open>Faults\<close>

text \<open>A fault with a count is taken that often, then it is gone.\<close>

definition take_fault :: "string \<Rightarrow> mock_server \<Rightarrow> mock_server \<times> fault option" where
  "take_fault path s =
     (let f = mo_fault s
      in if \<not> active f then (s, None)
         else if path \<notin> set (if fa_paths f = [] then [''/events''] else fa_paths f) then (s, None)
         else
           (if 0 < fa_count f
            then s\<lparr>mo_fault := (if fa_count f - 1 = 0 then no_fault else f\<lparr>fa_count := fa_count f - 1\<rparr>)\<rparr>
            else s,
            Some f))"

section \<open>The control endpoints\<close>

definition control_prefix :: string where "control_prefix = ''/_control/''"

definition control :: "request \<Rightarrow> mock_server \<Rightarrow> mock_server \<times> mock_reply" where
  "control r s =
     (let p = in_path r; m = in_method r
      in if p = ''/_control/stats'' \<and> m = ''GET'' then (s, write_json 200 (StatsOk (mo_stats s)))
         else if p = ''/_control/events'' \<and> m = ''GET'' then (s, write_json 200 (AcceptedOk (mk_accepted (mo_store s))))
         else if p = ''/_control/fault'' \<and> m = ''POST'' then
           (case decode_first store_fault no_fault (in_body r) of
              None \<Rightarrow> (s, write_error 400 ''invalid_fault'' JsonText)
            | Some f \<Rightarrow> (set_fault f s, write_json 200 (FaultOk f)))
         else if p = ''/_control/fault'' \<and> m = ''DELETE'' then (clear_fault s, write_json 200 Okay)
         else if p = ''/_control/min-version'' \<and> m = ''POST'' then
           (case decode_first (store_struct [''min_supported_version''] (\<lambda>f. store_string)) [] (in_body r) of
              None \<Rightarrow> (s, write_error 400 ''invalid_body'' JsonText)
            | Some v \<Rightarrow> (set_min_version v s, write_json 200 (VersionOk v)))
         else if p = ''/_control/reset'' \<and> m = ''POST'' then (reset s, write_json 200 Okay)
         else (s, write_error 404 ''not_found'' (Text ([CHR 0xE6, CHR 0x89, CHR 0xBE, CHR 0xE4, CHR 0xB8,
        CHR 0x8D, CHR 0xE5, CHR 0x88, CHR 0xB0, CHR 0xE6, CHR 0x8E, CHR 0xA7, CHR 0xE5, CHR 0x88, CHR 0xB6,
        CHR 0xE7, CHR 0xAB, CHR 0xAF, CHR 0xE9, CHR 0xBB, CHR 0x9E]))))"

section \<open>ServeHTTP\<close>

definition dispatch :: "gtime \<Rightarrow> request \<Rightarrow> bytes \<Rightarrow> mock_server \<Rightarrow> mock_server \<times> mock_reply" where
  "dispatch now r body s =
     (if in_path r = ''/events'' \<and> in_method r = ''POST'' then mock_events body s
      else if in_path r = ''/heartbeat'' \<and> in_method r = ''POST'' then mock_heartbeat body s
      else if in_path r = ''/healthz'' \<and> in_method r = ''GET''
      then (s, write_json 200 (Plain (HealthOk (format_utc_millis now))))
      else (s, write_error 404 ''not_found'' (Text ([CHR 0xE6, CHR 0x89, CHR 0xBE, CHR 0xE4, CHR 0xB8,
        CHR 0x8D, CHR 0xE5, CHR 0x88, CHR 0xB0, CHR 0xE8, CHR 0xB7, CHR 0xAF, CHR 0xE5, CHR 0xBE, CHR 0x91]))))"

text \<open>A fault that was taken: the connection is dropped, or an error is answered, or the request goes on.\<close>

definition inject :: "gtime \<Rightarrow> request \<Rightarrow> bytes \<Rightarrow> fault option \<Rightarrow> mock_server \<Rightarrow> mock_server \<times> mock_reply" where
  "inject now r body f s =
     (case f of
        None \<Rightarrow> dispatch now r body s
      | Some f \<Rightarrow>
          if fa_drop f then (count_stats (\<lambda>v. v\<lparr>mt_drops := mt_drops v + 1\<rparr>) s, Dropped)
          else if fa_status f \<noteq> 0
          then (s, Reply (fa_status f) (fa_retry_after f) (Plain (ApiError ''injected_fault'' (Text ([CHR 0xE6, CHR 0x95, CHR 0x85, CHR 0xE9, CHR 0x9A, CHR 0x9C, CHR 0xE6, CHR 0xB3, CHR 0xA8, CHR 0xE5, CHR 0x85, CHR 0xA5])))))
          else dispatch now r body s)"

definition answer_request :: "(bytes \<Rightarrow> gz_stream) \<Rightarrow> gtime \<Rightarrow> request \<Rightarrow> mock_server \<Rightarrow> mock_server \<times> mock_reply" where
  "answer_request gunzip now r s =
     (if in_authorization r \<noteq> ''Bearer '' @ mo_token s
      then (s, write_error 401 ''unauthorized'' (Text (''token '' @ [CHR 0xE7, CHR 0x84, CHR 0xA1, CHR 0xE6,
        CHR 0x95, CHR 0x88])))
      else case read_mock_body gunzip r of
        Inl e \<Rightarrow>
          (s, if e = TooLarge then write_error 413 ''batch_too_large'' (Text (''request body '' @ [CHR 0xE9,
        CHR 0x81, CHR 0x8E, CHR 0xE5, CHR 0xA4, CHR 0xA7]))
              else write_error 400 ''invalid_body'' (BodyText e))
      | Inr body \<Rightarrow> (case take_fault (in_path r) s of (s, f) \<Rightarrow> inject now r body f s))"

text \<open>Every request is counted by its path before it is handled, and by its status afterwards.\<close>

definition serve_mock :: "(bytes \<Rightarrow> gz_stream) \<Rightarrow> gtime \<Rightarrow> request \<Rightarrow> mock_server \<Rightarrow> mock_server \<times> mock_reply" where
  "serve_mock gunzip now r s =
     (if has_prefix (in_path r) control_prefix then control r s
      else
        let s = count_stats (\<lambda>v. v\<lparr>mt_requests := mt_requests v + 1,
                    mt_path_counts := bump (in_path r) (mt_path_counts v)\<rparr>) s;
            (s, reply) = answer_request gunzip now r s
        in (if reply_status reply = 0 then s
            else count_stats (\<lambda>v. v\<lparr>mt_status_counts := bump (int_dec (reply_status reply)) (mt_status_counts v)\<rparr>) s,
            reply))"

text \<open>A run of the server: one request after the other, with the time of each.\<close>

fun run_mock :: "(bytes \<Rightarrow> gz_stream) \<Rightarrow> (gtime \<times> request) list \<Rightarrow> mock_server \<Rightarrow> mock_server \<times> mock_reply list" where
  "run_mock gunzip [] s = (s, [])"
| "run_mock gunzip ((now, r) # rs) s =
     (case serve_mock gunzip now r s of
        (s, reply) \<Rightarrow> (case run_mock gunzip rs s of (s, replies) \<Rightarrow> (s, reply # replies)))"

end
