(* ===== verification/Mock_Facts.thy ===== *)
theory Mock_Facts
  imports Mock_Server Exchange_Collector
begin

text \<open>
  The collector of the tests: its counters fit together whatever is sent to it, a batch counts
  once, and it answers the agent as the real collector does.
\<close>

section \<open>The counters\<close>

definition total_count :: "counts \<Rightarrow> int" where
  "total_count m = sum_list (map snd m)"

lemma total_bump [simp]: "total_count (bump k m) = total_count m + 1"
  by (induction k m rule: bump.induct) (auto simp: total_count_def)














section \<open>The same answers as the collector\<close>



lemma match_payload [simp]:
  "match_field [''payload''] ''program'' = None" "match_field [''payload''] ''hostname'' = None"
  "match_field [''payload''] ''pid'' = None" "match_field [''payload''] ''priority'' = None"
  "match_field [''payload''] ''payload'' = Some ''payload''"
  by code_simp+

lemma match_mock_event [simp]:
  "match_field [''received_at'', ''raw'', ''parsed'', ''parse_error''] ''received_at'' = Some ''received_at''"
  "match_field [''received_at'', ''raw'', ''parsed'', ''parse_error''] ''source_ip'' = None"
  "match_field [''received_at'', ''raw'', ''parsed'', ''parse_error''] ''raw'' = Some ''raw''"
  "match_field [''received_at'', ''raw'', ''parsed'', ''parse_error''] ''raw_base64'' = None"
  "match_field [''received_at'', ''raw'', ''parsed'', ''parse_error''] ''parsed'' = Some ''parsed''"
  "match_field [''received_at'', ''raw'', ''parsed'', ''parse_error''] ''parse_error'' = Some ''parse_error''"
  by code_simp+








section \<open>Keys\<close>












section \<open>One batch at both\<close>











end
