(* ===== verification/Redact.thy ===== *)
theory Redact
  imports Spool_Open_Facts Agent_Config "HOL-Library.Sublist"
begin

text \<open>
  \<open>internal/agent/redact.go\<close>: secrets are cut out of everything that is logged. What is shown of a
  URL is the library's; the lemmas show what cannot be in a log line any more.
\<close>

section \<open>Redactor\<close>

definition redacted_mark :: string where "redacted_mark = ''[REDACTED]''"

text \<open>\<open>strings.ReplaceAll\<close> of a text that is not empty.\<close>

function replace_all :: "string \<Rightarrow> string \<Rightarrow> string \<Rightarrow> string" where
  "replace_all old new s =
     (if s = [] then []
      else if old \<noteq> [] \<and> has_prefix s old then new @ replace_all old new (drop (length old) s)
      else hd s # replace_all old new (tl s))"
  by pat_completeness auto
termination
  by (relation "measure (\<lambda>(old, new, s). length s)") auto

declare replace_all.simps [simp del]

text \<open>
  The expression \<open>(?i)(Bearer\s+)[^\s"\\]+\<close> at the start of a text: the group and the rest. Both
  repetitions take all they can, and no shorter choice of the first could match.
\<close>

definition regex_space :: "char \<Rightarrow> bool" where
  "regex_space c \<longleftrightarrow> c \<in> set [CHR 0x09, CHR 0x0A, CHR 0x0C, CHR 0x0D, CHR 0x20]"

definition token_char :: "char \<Rightarrow> bool" where
  "token_char c \<longleftrightarrow> \<not> regex_space c \<and> c \<noteq> CHR 0x22 \<and> c \<noteq> CHR 0x5C"

definition bearer_match :: "string \<Rightarrow> (string \<times> string) option" where
  "bearer_match s =
     (let sp = takeWhile regex_space (drop 6 s); rest = drop (6 + length sp) s; tok = takeWhile token_char rest
      in if map to_lower (take 6 s) = ''bearer'' \<and> sp \<noteq> [] \<and> tok \<noteq> []
         then Some (take (6 + length sp) s, drop (length tok) rest)
         else None)"

lemma bearer_match_shorter: "bearer_match s = Some (g, r) \<Longrightarrow> length r < length s"
  by (cases s) (auto simp: bearer_match_def Let_def split: if_splits)

function redact_bearer :: "string \<Rightarrow> string" where
  "redact_bearer s =
     (if s = [] then []
      else case bearer_match s of
        None \<Rightarrow> hd s # redact_bearer (tl s)
      | Some (g, r) \<Rightarrow> g @ redacted_mark @ redact_bearer r)"
  by pat_completeness auto
termination
  by (relation "measure length") (auto dest: bearer_match_shorter)

declare redact_bearer.simps [simp del]

text \<open>\<open>NewRedactor\<close>: a secret, and the form that \<open>json.Marshal\<close> gives it.\<close>

definition escaped_secret :: "string \<Rightarrow> string" where
  "escaped_secret s = (let b = json_quote_html s in take (length b - 2) (drop 1 b))"

definition new_redactor :: "string list \<Rightarrow> string list" where
  "new_redactor secrets =
     concat (map (\<lambda>s. if s = [] then []
                      else if escaped_secret s \<noteq> s then [s, escaped_secret s] else [s]) secrets)"

definition redact :: "string list \<Rightarrow> string \<Rightarrow> string" where
  "redact r s = redact_bearer (foldl (\<lambda>s secret. replace_all secret redacted_mark s) s r)"

text \<open>\<open>redactWriter\<close>: what reaches the writer behind it, and the count that is reported.\<close>

definition redact_write :: "string list \<Rightarrow> bytes \<Rightarrow> bytes \<times> int" where
  "redact_write r p = (redact r p, int (length p))"

text \<open>\<open>url.Parse\<close> and \<open>Redacted\<close> are the library's; so is the password of a URL's user.\<close>

definition redact_url :: "(string \<Rightarrow> 'u option) \<Rightarrow> ('u \<Rightarrow> string) \<Rightarrow> string \<Rightarrow> string" where
  "redact_url parse redacted s =
     (if s = [] then []
      else case parse s of None \<Rightarrow> (''['' @ [CHR 0xE7, CHR 0x84, CHR 0xA1, CHR 0xE6, CHR 0xB3,
        CHR 0x95, CHR 0xE8, CHR 0xA7, CHR 0xA3, CHR 0xE6, CHR 0x9E, CHR 0x90, CHR 0xE7, CHR 0x9A,
        CHR 0x84] @ '' URL]'') | Some u \<Rightarrow> redacted u)"

definition url_password :: "(string \<Rightarrow> 'u option) \<Rightarrow> ('u \<Rightarrow> string option) \<Rightarrow> string \<Rightarrow> string" where
  "url_password parse password s =
     (case parse s of
        None \<Rightarrow> []
      | Some u \<Rightarrow> (case password u of None \<Rightarrow> [] | Some p \<Rightarrow> p))"

section \<open>What is hidden\<close>

text \<open>Pieces of a text have been replaced by the mark.\<close>

inductive masked :: "string \<Rightarrow> string \<Rightarrow> bool" where
  masked_Nil: "masked [] []"
| masked_keep: "masked s t \<Longrightarrow> masked (c # s) (c # t)"
| masked_cut: "masked s t \<Longrightarrow> masked (x @ s) (redacted_mark @ t)"

lemma masked_append: "masked s t \<Longrightarrow> masked (g @ s) (g @ t)"
  by (induction g) (auto intro: masked_keep)

lemma masked_refl: "masked s s"
  using masked_append [OF masked_Nil, of s] by simp

lemma masked_replace: "masked s (replace_all old redacted_mark s)"
proof (induction old redacted_mark s rule: replace_all.induct)
  case (1 old s)
  show ?case
  proof (cases "s = []")
    case True
    then show ?thesis by (simp add: replace_all.simps masked_Nil)
  next
    case False
    show ?thesis
    proof (cases "old \<noteq> [] \<and> has_prefix s old")
      case True
      with 1 False have "masked (drop (length old) s) (replace_all old redacted_mark (drop (length old) s))" by simp
      from masked_cut [OF this, of "take (length old) s"] True False show ?thesis
        by (simp add: replace_all.simps [of old _ s])
    next
      case no: False
      with 1 False have "masked (tl s) (replace_all old redacted_mark (tl s))" by simp
      from masked_keep [OF this, of "hd s"] no False show ?thesis by (auto simp: replace_all.simps [of old _ s])
    qed
  qed
qed

lemma bearer_match_split: "bearer_match s = Some (g, r) \<Longrightarrow> \<exists>tok. s = g @ tok @ r"
  by (auto simp: bearer_match_def Let_def split: if_splits)
     (metis append.assoc append_take_drop_id drop_drop takeWhile_eq_take)

lemma masked_bearer: "masked s (redact_bearer s)"
proof (induction s rule: redact_bearer.induct)
  case (1 s)
  show ?case
  proof (cases "s = []")
    case False
    show ?thesis
    proof (cases "bearer_match s")
      case None
      with 1(1) False masked_keep [of "tl s" _ "hd s"] show ?thesis by (simp add: redact_bearer.simps [of s])
    next
      case (Some x)
      obtain g r where x: "x = (g, r)" by (cases x)
      obtain tok where tok: "s = g @ tok @ r" using bearer_match_split Some x by blast
      have "masked r (redact_bearer r)" using 1(2) [OF False Some x [symmetric]] .
      then have "masked (g @ tok @ r) (g @ redacted_mark @ redact_bearer r)" by (intro masked_append masked_cut)
      moreover have "redact_bearer s = g @ redacted_mark @ redact_bearer r"
        using Some x False by (simp add: redact_bearer.simps [of s])
      ultimately show ?thesis by (simp only: tok)
    qed
  qed (simp add: redact_bearer.simps masked_Nil)
qed

text \<open>A secret that the mark cannot be mistaken for.\<close>

definition unlike_mark :: "string \<Rightarrow> bool" where
  "unlike_mark w \<longleftrightarrow> w \<noteq> [] \<and> CHR ''['' \<notin> set w \<and> CHR '']'' \<notin> set w \<and> \<not> sublist w ''REDACTED''"

lemma masked_prefix: "masked s t \<Longrightarrow> prefix w t \<Longrightarrow> CHR ''['' \<notin> set w \<Longrightarrow> prefix w s"
proof (induction arbitrary: w rule: masked.induct)
  case (masked_keep s t c)
  then show ?case by (cases w) auto
next
  case (masked_cut s t x)
  then show ?case by (cases w) (auto simp: redacted_mark_def)
qed simp

lemma prefix_drop_mark:
  assumes "unlike_mark w" "k < length redacted_mark"
  shows "\<not> prefix w (drop k redacted_mark @ t)"
proof
  assume p: "prefix w (drop k redacted_mark @ t)"
  show False
  proof (cases "length w \<le> length (drop k redacted_mark)")
    case True
    with p have "prefix w (drop k redacted_mark)" by (metis prefix_length_prefix prefixI)
    then obtain b where b: "drop k redacted_mark = w @ b" by (auto simp: prefix_def)
    define a where "a = take k redacted_mark"
    have ab: "redacted_mark = a @ w @ b" using append_take_drop_id [of k redacted_mark] by (simp add: a_def b)
    have "a \<noteq> []" "b \<noteq> []"
      using ab assms(1) by (auto simp: unlike_mark_def redacted_mark_def Cons_eq_append_conv append_eq_Cons_conv)
    then obtain a' b' where "a = CHR ''['' # a'" "b = b' @ [CHR '']'']"
      using ab by (cases a; cases b rule: rev_cases) (auto simp: redacted_mark_def)
    with ab have "''REDACTED'' @ [CHR '']''] = (a' @ w @ b') @ [CHR '']'']" by (simp add: redacted_mark_def)
    then have "''REDACTED'' = a' @ w @ b'" by (simp only: append1_eq_conv)
    with assms(1) show False by (auto simp: unlike_mark_def)
  next
    case False
    with p have "prefix (drop k redacted_mark) w" by (metis linorder_not_less nat_less_le prefix_length_prefix prefixI)
    moreover have "last redacted_mark \<in> set (drop k redacted_mark)" using assms(2) by (simp add: last_in_set flip: last_drop)
    ultimately have "CHR '']'' \<in> set w" by (auto simp: redacted_mark_def prefix_def)
    with assms(1) show False by (simp add: unlike_mark_def)
  qed
qed

lemma sublist_mark: "unlike_mark w \<Longrightarrow> sublist w (redacted_mark @ t) \<Longrightarrow> sublist w t"
proof -
  assume w: "unlike_mark w" and "sublist w (redacted_mark @ t)"
  then obtain a b where ab: "redacted_mark @ t = a @ w @ b" by (auto simp: sublist_def)
  show "sublist w t"
  proof (cases "length a < length redacted_mark")
    case True
    have "drop (length a) (redacted_mark @ t) = w @ b" by (simp add: ab)
    with True have "prefix w (drop (length a) redacted_mark @ t)" by (metis drop_append diff_is_0_eq' drop0 less_imp_le prefixI)
    with prefix_drop_mark [OF w True] show ?thesis by blast
  next
    case False
    then have "t = drop (length redacted_mark) a @ w @ b" using arg_cong [OF ab, of "drop (length redacted_mark)"] by simp
    then show ?thesis by (auto simp: sublist_def)
  qed
qed

lemma masked_sublist: "masked s t \<Longrightarrow> unlike_mark w \<Longrightarrow> sublist w t \<Longrightarrow> sublist w s"
proof (induction rule: masked.induct)
  case (masked_keep s t c)
  then consider "prefix w (c # t)" | "sublist w t" by (auto simp: sublist_Cons_right)
  then show ?case
  proof cases
    case 1
    with masked_prefix [OF masked.masked_keep [OF masked_keep.hyps, of c] 1] masked_keep.prems show ?thesis
      by (auto simp: unlike_mark_def intro: prefix_imp_sublist)
  qed (use masked_keep in \<open>auto simp: sublist_Cons_right\<close>)
next
  case (masked_cut s t x)
  with sublist_mark have "sublist w s" by blast
  then show ?case unfolding sublist_def by (metis append.assoc)
qed simp

lemma replace_all_removes: "unlike_mark w \<Longrightarrow> \<not> sublist w (replace_all w redacted_mark s)"
proof (induction w redacted_mark s rule: replace_all.induct)
  case (1 w s)
  show ?case
  proof (cases "s = []")
    case True
    with 1 show ?thesis by (auto simp: replace_all.simps unlike_mark_def)
  next
    case False
    have ne: "w \<noteq> []" using "1.prems" by (simp add: unlike_mark_def)
    show ?thesis
    proof (cases "has_prefix s w")
      case True
      then have "\<not> sublist w (replace_all w redacted_mark (drop (length w) s))" using 1(1) [OF False _ "1.prems"] ne by blast
      with sublist_mark [OF "1.prems"] True False ne show ?thesis by (auto simp: replace_all.simps [of w _ s])
    next
      case no: False
      have t: "replace_all w redacted_mark s = hd s # replace_all w redacted_mark (tl s)"
        using no False by (simp add: replace_all.simps [of w _ s])
      have "\<not> prefix w (replace_all w redacted_mark s)"
      proof
        assume "prefix w (replace_all w redacted_mark s)"
        from masked_prefix [OF masked_replace this] "1.prems" no show False
          by (auto simp: unlike_mark_def has_prefix_iff prefix_def)
      qed
      moreover have "\<not> sublist w (replace_all w redacted_mark (tl s))" using 1(2) [OF False _ "1.prems"] no by blast
      ultimately show ?thesis unfolding t by (simp add: sublist_Cons_right)
    qed
  qed
qed

lemma masked_fold: "masked s t \<Longrightarrow> sublist w (foldl (\<lambda>s x. replace_all x redacted_mark s) t r) \<Longrightarrow> unlike_mark w \<Longrightarrow> sublist w s"
proof (induction r arbitrary: s t)
  case (Cons x r)
  have "sublist w (replace_all x redacted_mark t)"
    by (rule Cons.IH [OF masked_refl]) (use Cons.prems in simp_all)
  with masked_sublist [OF masked_replace] masked_sublist Cons.prems show ?case by blast
qed (simp add: masked_sublist)

lemma redact_fold_removes:
  "w \<in> set r \<Longrightarrow> unlike_mark w \<Longrightarrow> \<not> sublist w (foldl (\<lambda>s x. replace_all x redacted_mark s) s r)"
proof (induction r arbitrary: s)
  case (Cons x r)
  show ?case
  proof (cases "w = x")
    case True
    with Cons.prems masked_fold [OF masked_refl] replace_all_removes show ?thesis by fastforce
  qed (use Cons in simp)
qed simp

lemma redact_removes: "w \<in> set r \<Longrightarrow> unlike_mark w \<Longrightarrow> \<not> sublist w (redact r s)"
  unfolding redact_def using masked_sublist [OF masked_bearer] redact_fold_removes by blast

text \<open>The form that \<open>json.Marshal\<close> gives to a secret contains a backslash where it differs.\<close>

lemma new_redactor_mem:
  assumes "w \<in> set ss" "w \<noteq> []"
  shows "w \<in> set (new_redactor ss)" "escaped_secret w \<in> set (new_redactor ss)"
proof -
  let ?f = "\<lambda>s. if s = [] then [] else if escaped_secret s \<noteq> s then [s, escaped_secret s] else [s]"
  have "w \<in> set (?f w)" "escaped_secret w \<in> set (?f w)" using assms(2) by simp_all
  with assms(1) show "w \<in> set (new_redactor ss)" "escaped_secret w \<in> set (new_redactor ss)"
    unfolding new_redactor_def set_concat set_map by blast+
qed

text \<open>
  C34: Whatever is logged, a configured secret is not in what is written, neither as it is nor in
  the form that \<open>json.Marshal\<close> gives it, as long as that form has no square bracket and is no
  part of the word in the mark.
\<close>

theorem redact_hides:
  assumes "w \<in> set ss" and "w \<noteq> []"
  shows "(unlike_mark w \<longrightarrow> \<not> sublist w (redact (new_redactor ss) s))
    \<and> (unlike_mark (escaped_secret w) \<longrightarrow> \<not> sublist (escaped_secret w) (redact (new_redactor ss) s))"
  using new_redactor_mem [OF assms] by (simp add: redact_removes)

theorem redact_hides_witness:
  "\<not> sublist ''s3cret'' (redact (new_redactor [''s3cret'']) ''token=s3cret, s3s3cretcret'')"
proof -
  have "unlike_mark ''s3cret''" by (simp add: unlike_mark_def sublist_Cons_right)
  then show ?thesis using redact_hides [of "''s3cret''" "[''s3cret'']"] by simp
qed

text \<open>
  A handler that does not escape the characters of HTML, as the one of \<open>slog\<close>, prints a secret
  with a quote and an ampersand in a form that neither entry matches.
\<close>

lemma quote_two: "quote_body [CHR ''&'', CHR 0x22] = [CHR ''&'', CHR 0x5C, CHR 0x22]"
  by (simp add: quote_body.simps [of "_ # _"] quote_body.simps [of "[]"] rune_size.simps byte_in_def quote_byte_def)

lemma escaped_two: "escaped_secret [CHR ''&'', CHR 0x22] = (CHR 0x5C # ''u0026'') @ [CHR 0x5C, CHR 0x22]"
  by (simp add: escaped_secret_def json_quote_html_def json_quote_def quote_two html_byte_def Let_def)

lemma redact_html_leak:
  "redact (new_redactor [[CHR ''&'', CHR 0x22]]) (json_quote [CHR ''&'', CHR 0x22]) = json_quote [CHR ''&'',
        CHR 0x22]"
proof -
  have "new_redactor [[CHR ''&'', CHR 0x22]] = [[CHR ''&'', CHR 0x22], (CHR 0x5C # ''u0026'') @ [CHR 0x5C, CHR 0x22]]"
    by (simp add: new_redactor_def escaped_two)
  moreover have "redact [[CHR ''&'', CHR 0x22], (CHR 0x5C # ''u0026'') @ [CHR 0x5C, CHR 0x22]]
      [CHR 0x22, CHR ''&'', CHR 0x5C, CHR 0x22, CHR 0x22] = [CHR 0x22, CHR ''&'', CHR 0x5C, CHR 0x22, CHR 0x22]"
    by code_simp
  ultimately show ?thesis by (simp add: json_quote_def quote_two)
qed

end
