(* ===== verification/Logging.thy ===== *)
theory Logging
  imports Spool_Open Redact
begin

text \<open>
  \<open>internal/agent/logging.go\<close>: the log level, the file of the day with its clean-up, and the last
  lines of the newest log file. The handler that turns a record into JSON is the library's, so a
  log line is given as its bytes. The time is local time.
\<close>

section \<open>The logger\<close>

datatype log_level = Debug_Level | Info_Level | Warn_Level | Error_Level

text \<open>The levels in their order, with the numbers that \<open>slog\<close> gives them; a handler drops what is below its own.\<close>

fun level_number :: "log_level \<Rightarrow> int" where
  "level_number Debug_Level = -4"
| "level_number Info_Level = 0"
| "level_number Warn_Level = 4"
| "level_number Error_Level = 8"

lemma level_number_inject: "level_number l = level_number m \<Longrightarrow> l = m"
  by (cases l; cases m) simp_all

instantiation log_level :: linorder
begin

definition less_eq_log_level :: "log_level \<Rightarrow> log_level \<Rightarrow> bool" where
  "less_eq_log_level l m \<longleftrightarrow> level_number l \<le> level_number m"

definition less_log_level :: "log_level \<Rightarrow> log_level \<Rightarrow> bool" where
  "less_log_level l m \<longleftrightarrow> level_number l < level_number m"

instance
  by standard (auto simp: less_eq_log_level_def less_log_level_def intro: level_number_inject)

end

definition logged :: "log_level \<Rightarrow> (log_level \<times> 'a) list \<Rightarrow> (log_level \<times> 'a) list" where
  "logged level msgs = filter (\<lambda>m. level \<le> fst m) msgs"

definition parse_level :: "string \<Rightarrow> log_level" where
  "parse_level s =
     (if s = ''debug'' then Debug_Level else if s = ''warn'' then Warn_Level
      else if s = ''error'' then Error_Level else Info_Level)"

definition log_prefix :: string where "log_prefix = ''agent-''"

definition log_suffix :: string where "log_suffix = ''.log''"

definition log_retention_days :: int where "log_retention_days = 30"

record daily_file =
  df_date :: string
  df_open :: bool

definition new_daily_file :: daily_file where
  "new_daily_file = \<lparr>df_date = [], df_open = False\<rparr>"

definition log_name :: "string \<Rightarrow> string" where
  "log_name date = log_prefix @ date @ log_suffix"

definition is_log_name :: "string \<Rightarrow> bool" where
  "is_log_name n \<longleftrightarrow> has_prefix n log_prefix \<and> has_suffix n log_suffix"

definition log_date :: "string \<Rightarrow> string" where
  "log_date n = trim_suffix (trim_prefix n log_prefix) log_suffix"

text \<open>A directory that cannot be read, or a file that cannot be removed, is left as it is.\<close>

definition log_cleanup :: "faults \<Rightarrow> gtime \<Rightarrow> dir \<Rightarrow> dir" where
  "log_cleanup io now d =
     (let cutoff = format_date (add_days now (- log_retention_days))
      in if io ReadDirectory \<noteq> None then d
         else foldl (\<lambda>d n. if is_log_name n \<and> log_date n < cutoff
                        then (case remove io d n of None \<Rightarrow> d | Some d' \<Rightarrow> d') else d) d (names d))"

definition daily_write :: "faults \<Rightarrow> gtime \<Rightarrow> bytes \<Rightarrow> daily_file \<times> dir \<Rightarrow> (daily_file \<times> dir) \<times> syscall option" where
  "daily_write io now p x =
     (case x of (f, d) \<Rightarrow>
        let today = format_date now; n = log_name today
        in if \<not> df_open f \<or> today \<noteq> df_date f then
             (case open_append io d n of
                None \<Rightarrow> ((f\<lparr>df_open := False\<rparr>, d), Some (OpenFile n))
              | Some d \<Rightarrow>
                  ((\<lparr>df_date = today, df_open = True\<rparr>, write_bytes io (log_cleanup io now d) n p),
                   call_error io (WriteFile n)))
           else ((f, write_bytes io d n p), call_error io (WriteFile n)))"

definition daily_close :: "faults \<Rightarrow> daily_file \<Rightarrow> daily_file \<times> syscall option" where
  "daily_close io f =
     (if \<not> df_open f then (f, None) else (f\<lparr>df_open := False\<rparr>, call_error io (CloseFile (log_name (df_date f)))))"

text \<open>
  \<open>NewLogger\<close>: the secrets of the configuration are cut out of a line before it is written, to
  the console as well where there is one.
\<close>

definition logger_secrets :: "(string \<Rightarrow> 'u option) \<Rightarrow> ('u \<Rightarrow> string option) \<Rightarrow> agent_config \<Rightarrow> string list" where
  "logger_secrets parse password c = new_redactor [cf_token c, url_password parse password (cf_proxy_url c)]"

definition log_line ::
  "faults \<Rightarrow> gtime \<Rightarrow> string list \<Rightarrow> bool \<Rightarrow> bytes \<Rightarrow> daily_file \<times> dir \<times> bytes
   \<Rightarrow> (daily_file \<times> dir \<times> bytes) \<times> syscall option" where
  "log_line io now secrets console line x =
     (case x of (f, d, out) \<Rightarrow>
        let p = redact secrets line; ((f, d), e) = daily_write io now p (f, d)
        in ((f, d, if console \<and> e = None then out @ p else out), e))"

section \<open>The last lines\<close>

text \<open>The greatest name of a log file in the directory.\<close>

definition latest_log_file :: "faults \<Rightarrow> dir \<Rightarrow> string option" where
  "latest_log_file io d =
     (if io ReadDirectory \<noteq> None then None
      else let n = foldl (\<lambda>l n. if is_log_name n \<and> l < n then n else l) [] (names d)
           in if n = [] then None else Some n)"

definition log_chunk :: int where "log_chunk = 65536"

text \<open>The loop that reads chunks from the end; \<open>None\<close> is an error of \<open>ReadAt\<close>.\<close>

function tail_loop :: "faults \<Rightarrow> string \<Rightarrow> bytes \<Rightarrow> int \<Rightarrow> int \<Rightarrow> int \<Rightarrow> bytes \<Rightarrow> (bytes \<times> int) option" where
  "tail_loop io name b chunk n pos buf =
     (if 0 < pos \<and> int (count_list buf nl) \<le> n \<and> 0 < chunk then
        let start = max (pos - chunk) 0
        in if io (ReadFile name start) \<noteq> None then None
           else tail_loop io name b chunk n start (take (nat (pos - start)) (drop (nat start) b) @ buf)
      else Some (buf, pos))"
  by pat_completeness auto
termination
  by (relation "measure (\<lambda>(io, name, b, chunk, n, pos, buf). nat pos)") auto

declare tail_loop.simps [simp del]

definition lines_of_tail :: "int \<Rightarrow> bytes \<times> int \<Rightarrow> bytes list" where
  "lines_of_tail n x =
     (case x of (buf, pos) \<Rightarrow>
        let text = trim_right buf [CHR 0x0D, nl]
        in if text = [] then []
           else let ls = split_byte nl text; ls = (if 0 < pos then tl ls else ls)
                in drop (length ls - nat n) ls)"

definition last_lines :: "faults \<Rightarrow> dir \<Rightarrow> string \<Rightarrow> int \<Rightarrow> bytes list option" where
  "last_lines io d name n =
     (if n \<le> 0 then Some []
      else case open_read io d name of
        None \<Rightarrow> None
      | Some b \<Rightarrow>
          if io (StatFile name) \<noteq> None then None
          else map_option (lines_of_tail n) (tail_loop io name b log_chunk n (int (length b)) []))"

text \<open>\<open>PrintLogTail\<close>: what is printed, with the path as the system shows it.\<close>

definition print_log_tail :: "(string \<Rightarrow> string) \<Rightarrow> faults \<Rightarrow> dir \<Rightarrow> int \<Rightarrow> bytes option" where
  "print_log_tail path io d n =
     (case latest_log_file io d of
        None \<Rightarrow> None
      | Some f \<Rightarrow>
          map_option (\<lambda>ls. ''==> '' @ path f @ ([CHR 0xEF, CHR 0xBC, CHR 0x88, CHR 0xE6, CHR 0x9C,
        CHR 0x80, CHR 0xE5, CHR 0xBE, CHR 0x8C] @ '' '') @ int_dec (int (length ls)) @ ('' '' @ [CHR 0xE8,
        CHR 0xA1, CHR 0x8C, CHR 0xEF, CHR 0xBC, CHR 0x89]) @ [nl]
              @ concat (map (\<lambda>l. l @ [nl]) ls)) (last_lines io d f n))"

end
