(* ===== verification/Logging_Facts.thy ===== *)
theory Logging_Facts
  imports Logging
begin

text \<open>
  The last lines that \<open>lastLines\<close> reads from the end of a file in chunks, compared with the lines
  of the whole file.
\<close>

section \<open>Pieces of a text\<close>

lemma length_split_byte: "length (split_byte c s) = Suc (count_list s c)"
proof (induction s)
  case (Cons x s)
  then have "split_byte c s \<noteq> []" by simp
  with Cons show ?case by (cases "split_byte c s") (auto simp: Let_def)
qed simp

lemma split_byte_append_tl: "\<exists>p. p \<noteq> [] \<and> split_byte c (s @ t) = p @ tl (split_byte c t)"
proof (induction s)
  case Nil
  show ?case by (rule exI [of _ "[hd (split_byte c t)]"]) simp
next
  case (Cons x s)
  then obtain p where p: "p \<noteq> []" "split_byte c (s @ t) = p @ tl (split_byte c t)" by blast
  show ?case
    by (rule exI [of _ "if x = c then [] # p else (x # hd p) # tl p"]) (use p in \<open>auto simp: Let_def\<close>)
qed

lemma trim_right_append:
  "trim_right (p @ x) cs = (if trim_right x cs = [] then trim_right p cs else p @ trim_right x cs)"
  by (simp add: trim_right_def dropWhile_append dropWhile_eq_Nil_conv)

lemma count_trim_right:
  "count_list x c = count_list (trim_right x cs) c + count_list (drop (length (trim_right x cs)) x) c"
proof -
  obtain t where "x = trim_right x cs @ t" using trim_right_suffix by blast
  then have "drop (length (trim_right x cs)) x = t" by (metis append_eq_conv_conj)
  with \<open>x = _\<close> show ?thesis by (metis count_list_append)
qed

definition last_n :: "nat \<Rightarrow> 'a list \<Rightarrow> 'a list" where "last_n n xs = drop (length xs - n) xs"

lemma last_n_append: "n \<le> length ys \<Longrightarrow> last_n n (xs @ ys) = last_n n ys"
  by (simp add: last_n_def)

lemma suffix_last_n: "suffix ys (last_n n (xs @ ys)) \<or> n < length ys"
  by (auto simp: last_n_def suffix_def)

definition log_lines :: "bytes \<Rightarrow> bytes list" where
  "log_lines b = (let text = trim_right b [CHR 0x0D, nl] in if text = [] then [] else split_byte nl text)"

text \<open>At most one newline in what ends the file: no blank line after the last one.\<close>

definition no_blank_end :: "bytes \<Rightarrow> bool" where
  "no_blank_end b \<longleftrightarrow> count_list (drop (length (trim_right b [CHR 0x0D, nl])) b) nl \<le> 1"

section \<open>The loop\<close>

lemma tail_loop_result:
  "\<forall>p. io (ReadFile name p) = None \<Longrightarrow> 0 < chunk \<Longrightarrow> 0 \<le> pos \<Longrightarrow> pos \<le> int (length b) \<Longrightarrow> buf = drop (nat pos) b \<Longrightarrow>
    \<exists>p\<ge>0. tail_loop io name b chunk n pos buf = Some (drop (nat p) b, p) \<and> p \<le> int (length b)
      \<and> (p = 0 \<or> n < int (count_list (drop (nat p) b) nl))"
proof (induction io name b chunk n pos buf rule: tail_loop.induct)
  case (1 io name b chunk n pos buf)
  show ?case
  proof (cases "0 < pos \<and> int (count_list buf nl) \<le> n \<and> 0 < chunk")
    case True
    define start where "start = max (pos - chunk) 0"
    have s: "0 \<le> start" "start < pos" using True by (auto simp: start_def)
    have "take (nat (pos - start)) (drop (nat start) b) @ drop (nat (pos - start)) (drop (nat start) b) = drop (nat start) b"
      by (rule append_take_drop_id)
    moreover have "nat (pos - start) + nat start = nat pos" using s by simp
    ultimately have b: "take (nat (pos - start)) (drop (nat start) b) @ buf = drop (nat start) b"
      by (simp only: "1.prems"(5) drop_drop)
    have eq: "tail_loop io name b chunk n pos buf = tail_loop io name b chunk n start (drop (nat start) b)"
      using True 1(2) by (subst tail_loop.simps) (simp add: Let_def b flip: start_def)
    have "start \<le> int (length b)" using s 1(5) by simp
    have nf: "\<not> io (ReadFile name start) \<noteq> None" using 1(2) by simp
    show ?thesis unfolding eq using 1(1) [OF True start_def nf 1(2,3) s(1) \<open>start \<le> _\<close> b] by (simp only: b)
  next
    case False
    then have "tail_loop io name b chunk n pos buf = Some (buf, pos)" by (subst tail_loop.simps) (simp only: if_False)
    with False 1(3-6) show ?thesis by (intro exI [of _ pos]) auto
  qed
qed

lemma lines_of_tail_suffix:
  assumes p: "0 \<le> p" "p \<le> int (length b)" "p = 0 \<or> int n < int (count_list (drop (nat p) b) nl)" and n: "0 < n"
  shows "suffix (lines_of_tail (int n) (drop (nat p) b, p)) (last_n n (log_lines b))
    \<and> (no_blank_end b \<longrightarrow> lines_of_tail (int n) (drop (nat p) b, p) = last_n n (log_lines b))"
proof -
  define X where "X = drop (nat p) b"
  define T where "T = trim_right X [CHR 0x0D, nl]"
  define P where "P = take (nat p) b"
  have b: "b = P @ X" by (simp add: P_def X_def)
  have tail: "lines_of_tail (int n) (X, p) = (if T = [] then [] else last_n n (if 0 < p then tl (split_byte nl T) else split_byte nl T))"
    by (simp add: lines_of_tail_def T_def last_n_def Let_def)
  show ?thesis
  proof (cases "p = 0")
    case True
    then have "X = b" by (simp add: X_def)
    then show ?thesis using tail True
      unfolding X_def [symmetric] by (simp add: log_lines_def T_def last_n_def Let_def)
  next
    case False
    with p have pos: "0 < p" and cnt: "n < count_list X nl" by (auto simp: X_def)
    show ?thesis
    proof (cases "T = []")
      case True
      have "\<not> no_blank_end b"
      proof -
        have "trim_right b [CHR 0x0D, nl] = trim_right P [CHR 0x0D, nl]" using True by (simp add: b trim_right_append T_def)
        then have "length (trim_right b [CHR 0x0D, nl]) \<le> length P"
          using trim_right_suffix [of P "[CHR 0x0D, nl]"] by (metis length_append le_add1)
        then have "drop (length (trim_right b [CHR 0x0D, nl])) b = drop (length (trim_right b [CHR 0x0D, nl])) P @ X" by (simp add: b)
        with cnt n show ?thesis by (simp add: no_blank_end_def count_list_append)
      qed
      with True tail show ?thesis by (simp add: X_def)
    next
      case ne: False
      have t: "trim_right b [CHR 0x0D, nl] = P @ T" using ne by (simp add: b trim_right_append T_def)
      obtain q where q: "split_byte nl (P @ T) = q @ tl (split_byte nl T)" using split_byte_append_tl by blast
      have l: "log_lines b = q @ tl (split_byte nl T)" using ne by (simp add: log_lines_def t q)
      have len: "length (tl (split_byte nl T)) = count_list T nl" by (simp add: length_split_byte)
      have "suffix (last_n n (tl (split_byte nl T))) (last_n n (q @ tl (split_byte nl T)))"
        by (auto simp: last_n_def suffix_def)
      moreover have "n \<le> count_list T nl" if "no_blank_end b"
      proof -
        have "count_list (drop (length (P @ T)) b) nl \<le> 1" using that unfolding no_blank_end_def t .
        then have "count_list (drop (length T) X) nl \<le> 1" by (simp add: b)
        with cnt count_trim_right [of X nl "[CHR 0x0D, nl]"] show ?thesis by (simp add: T_def)
      qed
      ultimately show ?thesis using pos ne tail len by (auto simp: l last_n_append simp flip: X_def)
    qed
  qed
qed

text \<open>
  C35: \<open>lastLines\<close>, which reads a file from its end in chunks, returns when no call fails the last
  \<open>n\<close> lines of the file, as they are in the text as a whole; when the file ends in blank lines
  it may be fewer of them, never others.
\<close>

theorem last_lines_exact:
  assumes "open_read io d f = Some b" and "io (StatFile f) = None" and "\<forall>p. io (ReadFile f p) = None" and "0 < n"
  shows "\<exists>ls. last_lines io d f (int n) = Some ls \<and> suffix ls (last_n n (log_lines b))
    \<and> (no_blank_end b \<longrightarrow> ls = last_n n (log_lines b))"
proof -
  obtain p where p: "0 \<le> p" "tail_loop io f b log_chunk (int n) (int (length b)) [] = Some (drop (nat p) b, p)"
      "p \<le> int (length b)" "p = 0 \<or> int n < int (count_list (drop (nat p) b) nl)"
    using tail_loop_result [OF assms(3), of log_chunk "int (length b)" b "[]" "int n"] by (auto simp: log_chunk_def)
  from lines_of_tail_suffix [OF p(1,3,4) assms(4)] show ?thesis
    using assms p(2) by (simp add: last_lines_def)
qed

theorem last_lines_exact_witness:
  "last_lines no_faults [(''agent-2025-01-01.log'', Reg (''a'' @ [nl] @ ''b'' @ [nl] @ ''c'' @ [nl]))]
     ''agent-2025-01-01.log'' 2 = Some [''b'', ''c'']"
proof -
  define b where "b = ''a'' @ [nl] @ ''b'' @ [nl] @ ''c'' @ [nl]"
  have "no_blank_end b" "last_n 2 (log_lines b) = [''b'', ''c'']" unfolding b_def by code_simp+
  then show ?thesis
    using last_lines_exact [of no_faults "[(''agent-2025-01-01.log'', Reg b)]" "''agent-2025-01-01.log''" b 2]
    by (simp add: open_read_def file_bytes_def b_def)
qed

end
