(* ===== verification/Agent_System.thy ===== *)
theory Agent_System
  imports Agent
begin

text \<open>
  \<open>Run\<close> of \<open>internal/agent/agent.go\<close>: the receiver, the forwarder, the heartbeat, the janitor and the
  periodic sync run side by side. Each holds the mutex of what it changes, so that they interleave
  in these steps: a datagram, a sync, a cleanup, a heartbeat, and for the forwarder, which sends
  without a lock, the reading of a batch and each attempt to send it.
\<close>

section \<open>Steps of the forwarder\<close>

text \<open>Where the forwarder is: between two rounds, with a batch in hand, or back from \<open>Run\<close>.\<close>

datatype task = Looping loop_state | Sending round batch position loop_state | Ended "batch option"

text \<open>The part of a round before the delivery.\<close>

definition begin_round :: "agent_config \<Rightarrow> round \<Rightarrow> forwarder \<Rightarrow> loop_state \<Rightarrow> (forwarder \<times> task) option" where
  "begin_round c r f l =
     (let waiting = \<not> lo_skip_wait l \<and> 0 < batch_interval c - time_sub (ro_wait_now r) (lo_last_send l)
      in if waiting \<and> ro_ended_waiting r \<or> ro_ended r then Some (f, Ended None)
         else
           let l = l\<lparr>lo_skip_wait := False\<rparr>;
               due = batch_interval c \<le> time_sub (ro_now r) (lo_last_send l)
           in case ReadReadyBatch (ro_io r) (cf_batch_size c) (due \<or> lo_startup l) (fw_spool f) of
                None \<Rightarrow> None
              | Some (s, lines, endp, Some e) \<Rightarrow>
                  Some (f\<lparr>fw_spool := s\<rparr>, Looping (l\<lparr>lo_last_send := ro_idle_now r\<rparr>))
              | Some (s, [], endp, None) \<Rightarrow>
                  Some (f\<lparr>fw_spool := s\<rparr>,
                        Looping ((if due then l\<lparr>lo_last_send := ro_idle_now r\<rparr> else l)\<lparr>lo_startup := False\<rparr>))
              | Some (s, line # lines, endp, None) \<Rightarrow>
                  Some (f\<lparr>fw_spool := s\<rparr>,
                        Sending r (new_batch c (ro_id_now r) (ro_id_random r) (line # lines)) endp
                          (l\<lparr>lo_startup := False\<rparr>)))"

text \<open>One attempt with the batch in hand.\<close>

definition send_step ::
  "(bytes \<Rightarrow> bytes) \<Rightarrow> agent_config \<Rightarrow> attempt \<Rightarrow> round \<Rightarrow> batch \<Rightarrow> position \<Rightarrow> loop_state \<Rightarrow> forwarder
   \<Rightarrow> forwarder \<times> http_request option \<times> task" where
  "send_step gz c a r b endp l f =
     (case try_once gz c a b endp f of
        (f, rq, Delivered) \<Rightarrow>
          (case after_delivery c r (int (length (ba_events b))) f l of (f, l) \<Rightarrow> (f, rq, Looping l))
      | (f, rq, Cancelled) \<Rightarrow> (f, rq, Ended (Some b))
      | (f, rq, Retry d) \<Rightarrow> (f, rq, Sending r b endp l))"

fun send_steps ::
  "(bytes \<Rightarrow> bytes) \<Rightarrow> agent_config \<Rightarrow> attempt list \<Rightarrow> forwarder \<times> task \<Rightarrow> forwarder \<times> task \<times> http_request list" where
  "send_steps gz c (a # as) (f, Sending r b endp l) =
     (case send_step gz c a r b endp l f of
        (f, rq, t) \<Rightarrow>
          (case send_steps gz c as (f, t) of
             (f, t, rqs) \<Rightarrow> (f, t, (case rq of None \<Rightarrow> [] | Some q \<Rightarrow> [q]) @ rqs)))"
| "send_steps gz c as (f, t) = (f, t, [])"

section \<open>Steps of the agent\<close>

record system =
  sy_agent :: agent
  sy_task :: task

definition set_forwarder :: "forwarder \<Rightarrow> agent \<Rightarrow> agent" where
  "set_forwarder f a = a\<lparr>ag_forwarder := f\<rparr>"

definition start_system :: "gtime \<Rightarrow> agent \<Rightarrow> system" where
  "start_system now a = \<lparr>sy_agent = a\<lparr>ag_started_at := now\<rparr>, sy_task = Looping (start_loop now)\<rparr>"

datatype action =
    Datagram faults gtime string bytes
  | Sync_Spool faults
  | Janitor faults gtime "int option" gtime
  | Heartbeat surroundings "http_request \<Rightarrow> reply" bool
  | Begin_Round round
  | Send attempt

text \<open>An action that is not possible leaves \<open>None\<close>.\<close>

fun act :: "(bytes \<Rightarrow> bytes) \<Rightarrow> agent_config \<Rightarrow> action \<Rightarrow> system \<Rightarrow> system option" where
  "act gz c (Datagram io now ip packet) s =
     Some (s\<lparr>sy_agent := fst (receive_datagram c io now ip packet (sy_agent s))\<rparr>)"
| "act gz c (Sync_Spool io) s =
     Some (s\<lparr>sy_agent := set_spool (fst (sync_locked io (agent_spool (sy_agent s)))) (sy_agent s)\<rparr>)"
| "act gz c (Janitor io now free wall) s =
     Some (s\<lparr>sy_agent := run_janitor gz io c now free wall (sy_agent s)\<rparr>)"
| "act gz c (Heartbeat su network cancelled) s =
     Some (s\<lparr>sy_agent := fst (send_heartbeat gz c su network cancelled (sy_agent s))\<rparr>)"
| "act gz c (Begin_Round r) s =
     (case sy_task s of
        Looping l \<Rightarrow>
          (case begin_round c r (ag_forwarder (sy_agent s)) l of
             None \<Rightarrow> None
           | Some (f, t) \<Rightarrow> Some \<lparr>sy_agent = set_forwarder f (sy_agent s), sy_task = t\<rparr>)
      | _ \<Rightarrow> None)"
| "act gz c (Send a) s =
     (case sy_task s of
        Sending r b endp l \<Rightarrow>
          (case send_step gz c a r b endp l (ag_forwarder (sy_agent s)) of
             (f, rq, t) \<Rightarrow> Some \<lparr>sy_agent = set_forwarder f (sy_agent s), sy_task = t\<rparr>)
      | _ \<Rightarrow> None)"

text \<open>\<open>Run\<close> ends by closing the spool.\<close>

definition shutdown :: "faults \<Rightarrow> system \<Rightarrow> system" where
  "shutdown io s = s\<lparr>sy_agent := stop_agent io (sy_agent s)\<rparr>"

section \<open>The steps make up a round\<close>

lemma send_steps_deliver:
  "deliver_loop gz c as b endp f = (f', rqs, res) \<Longrightarrow>
   send_steps gz c as (f, Sending r b endp l) =
     (case res of
        Some True \<Rightarrow>
          (case after_delivery c r (int (length (ba_events b))) f' l of (f, l) \<Rightarrow> (f, Looping l, rqs))
      | Some False \<Rightarrow> (f', Ended (Some b), rqs)
      | None \<Rightarrow> (f', Sending r b endp l, rqs))"
proof (induction as arbitrary: f rqs)
  case (Cons a as)
  obtain f1 q v where t: "try_once gz c a b endp f = (f1, q, v)" by (metis prod_cases3)
  show ?case
  proof (cases v)
    case (Retry d)
    obtain rqs1 where l: "deliver_loop gz c as b endp f1 = (f', rqs1, res)"
      using Cons.prems t Retry by (auto simp: Let_def split: prod.splits)
    with Cons.IH [OF l] Cons.prems t Retry show ?thesis
      by (auto simp: send_step_def Let_def split: prod.split option.split bool.split)
  qed (use Cons.prems t in \<open>auto simp: send_step_def Let_def split: prod.split\<close>)
qed simp

text \<open>
  A round of \<open>Run\<close> is the reading of a batch followed by the attempts to send it: nothing is lost
  by taking it apart.
\<close>

definition round_result :: "forwarder \<times> task \<times> http_request list \<Rightarrow> loop_state \<Rightarrow> forwarder \<times> loop_state \<times> http_request list \<times> round_end" where
  "round_result x l =
     (case x of
        (f, Looping l, rqs) \<Rightarrow> (f, l, rqs, Continue)
      | (f, Sending r b p l, rqs) \<Rightarrow> (f, l, rqs, Delivering)
      | (f, Ended None, rqs) \<Rightarrow> (f, l, rqs, Return)
      | (f, Ended (Some b), rqs) \<Rightarrow> (f, l\<lparr>lo_skip_wait := False, lo_startup := False\<rparr>, rqs, Return))"

lemma run_round_steps:
  "run_round gz c r f l =
     map_option (\<lambda>x. round_result (send_steps gz c (ro_attempts r) x) l) (begin_round c r f l)"
proof (cases "\<not> lo_skip_wait l \<and> 0 < batch_interval c - time_sub (ro_wait_now r) (lo_last_send l) \<and> ro_ended_waiting r \<or> ro_ended r")
  case True
  then show ?thesis by (auto simp: run_round_def begin_round_def round_result_def)
next
  case False
  let ?due = "batch_interval c \<le> time_sub (ro_now r) (lo_last_send l)"
  show ?thesis
  proof (cases "ReadReadyBatch (ro_io r) (cf_batch_size c) (?due \<or> lo_startup l) (fw_spool f)")
    case None
    with False show ?thesis by (auto simp: run_round_def begin_round_def Let_def)
  next
    case (Some x)
    obtain s lines endp e where x: "x = (s, lines, endp, e)" by (cases x)
    show ?thesis
    proof (cases "e = None \<and> lines \<noteq> []")
      case False
      with Some x \<open>\<not> (_ \<or> _)\<close> show ?thesis
        by (cases e; cases lines) (auto simp: run_round_def begin_round_def round_result_def Let_def)
    next
      case True
      then obtain y ys where l: "lines = y # ys" by (cases lines) auto
      let ?b = "new_batch c (ro_id_now r) (ro_id_random r) (y # ys)"
      obtain f1 rqs res where d: "deliver_loop gz c (ro_attempts r) ?b endp (f\<lparr>fw_spool := s\<rparr>) = (f1, rqs, res)"
        by (metis prod_cases3)
      have b: "begin_round c r f l = Some (f\<lparr>fw_spool := s\<rparr>, Sending r ?b endp (l\<lparr>lo_skip_wait := False, lo_startup := False\<rparr>))"
        using Some x True \<open>\<not> (_ \<or> _)\<close> l by (simp add: begin_round_def Let_def)
      have n: "length (ba_events ?b) = length (y # ys)" by (simp add: new_batch_def)
      show ?thesis
        using Some x True \<open>\<not> (_ \<or> _)\<close> l d
        unfolding b option.map send_steps_deliver [OF d] n
        by (auto simp: run_round_def Let_def deliver_def round_result_def split: option.split bool.split prod.split)
    qed
  qed
qed

end
