(* ===== verification/Spool_Account.thy ===== *)
theory Spool_Account
  imports Spool_Clean_Facts Forwarder_Facts
begin

text \<open>
  Lines and events of a spool that holds nothing but lines with an event each: the number of lines
  that wait after a position is the number of events that are pending there, reading moves a
  position from one line boundary to another, and appending adds one to it.
\<close>

section \<open>Clean files\<close>

lemma newlines_cut: "cut_line b = Some (l, r) \<Longrightarrow> newlines l = 1"
  by (auto simp: newlines_def filter_empty_conv dest!: cut_line_split)

lemma line_events_at_most: "int (length (line_events b)) \<le> newlines b"
proof (induction b rule: measure_induct_rule [where f = length])
  case (less b)
  show ?case
  proof (cases "cut_line b")
    case (Some p)
    obtain l r where p: "p = (l, r)" by (cases p)
    have c: "cut_line b = Some (l, r)" using Some p by simp
    then have "b = l @ r" "newlines l = 1" using cut_line_split [OF c] newlines_cut [OF c] by simp_all
    moreover have "length r < length b" using cut_line_length [OF c] by simp
    ultimately show ?thesis using less [of r] line_events_Some [OF c] by simp
  qed (simp add: line_events_None)
qed

definition clean :: "bytes \<Rightarrow> bool" where
  "clean b \<longleftrightarrow> complete b \<and> int (length (line_events b)) = newlines b"

lemma clean_Nil [simp]: "clean []"
  by (simp add: clean_def)

lemma clean_append: "clean b \<Longrightarrow> clean c \<Longrightarrow> clean (b @ c)"
  by (simp add: clean_def complete_append line_events_append)

lemma clean_drop: "clean b \<Longrightarrow> complete (take k b) \<Longrightarrow> clean (drop k b)"
proof -
  assume b: "clean b" and k: "complete (take k b)"
  have "int (length (line_events (take k b) @ line_events (drop k b))) = newlines (take k b) + newlines (drop k b)"
    using b line_events_append [OF k, of "drop k b"] newlines_append [of "take k b" "drop k b"]
    by (simp add: clean_def)
  with line_events_at_most [of "take k b"] line_events_at_most [of "drop k b"] b
  show ?thesis by (simp add: clean_def complete_drop)
qed

definition clean_dir :: "dir \<Rightarrow> bool" where
  "clean_dir d \<longleftrightarrow> dir_ok d \<and> (\<forall>n b. is_spool_plain_name n \<and> look d n = Some (Reg b) \<longrightarrow> clean b)"

text \<open>
  A position that the writer cannot leave behind: there is no file yet, or one that is not before
  it; and it is at a line boundary of its file.
\<close>

definition at_boundary :: "dir \<Rightarrow> position \<Rightarrow> bool" where
  "at_boundary d pos \<longleftrightarrow>
     (\<forall>b. is_spool_plain_name (po_file pos) \<and> look d (po_file pos) = Some (Reg b) \<longrightarrow>
        po_offset pos \<le> int (length b) \<and> complete (take (nat (po_offset pos)) b))"

definition anchored :: "dir \<Rightarrow> position \<Rightarrow> bool" where
  "anchored d pos \<longleftrightarrow> po_file pos = [] \<or> (\<exists>n\<in>set (plain_names no_faults d). po_file pos \<le> n)"

definition pos_ok :: "dir \<Rightarrow> position \<Rightarrow> bool" where
  "pos_ok d pos \<longleftrightarrow> 0 \<le> po_offset pos \<and> at_boundary d pos \<and> anchored d pos"

lemma waiting_in_events:
  assumes d: "clean_dir d" and p: "at_boundary d pos" and n: "n \<in> set (plain_names no_faults d)" "po_file pos \<le> n"
  shows "waiting_in d pos n = int (length (events_at d n (if n = po_file pos then po_offset pos else 0)))"
proof -
  obtain b where b: "look d n = Some (Reg b)" "is_spool_plain_name n"
    using n(1) d by (auto simp: plain_names_mem clean_dir_def)
  then have c: "clean b" using d unfolding clean_dir_def by blast
  show ?thesis
  proof (cases "n = po_file pos")
    case True
    with p b have "po_offset pos \<le> int (length b)" "complete (take (nat (po_offset pos)) b)" by (auto simp: at_boundary_def)
    with clean_drop [OF c this(2)] True n b show ?thesis
      by (simp add: waiting_in_def line_count_def file_bytes_def events_at_def clean_def)
  next
    case False
    with c n b show ?thesis by (simp add: waiting_in_def line_count_def file_bytes_def events_at_def clean_def)
  qed
qed

lemma waiting_pending:
  assumes "clean_dir d" "at_boundary d pos"
  shows "waiting d pos = int (length (pending_at d pos))"
proof -
  have "sum_list (map (waiting_in d pos) ns) = int (length (pending_from d ns pos))"
    if "set ns \<subseteq> set (plain_names no_faults d)" for ns
    using that
  proof (induction ns)
    case (Cons n ns)
    then show ?case
      using waiting_in_events [OF assms, of n] by (auto simp: pending_from_def waiting_in_def)
  qed (simp add: pending_from_def)
  then show ?thesis by (simp add: waiting_def pending_at_def)
qed

lemma plain_same_clean: "clean_dir d \<Longrightarrow> plain_same d d' \<Longrightarrow> clean_dir d'"
  by (auto simp: clean_dir_def plain_same_def)

section \<open>Positions of the reader\<close>

lemma read_lines_boundary:
  "read_lines io n mx rest off lines = (off', lines', r) \<Longrightarrow>
   \<exists>p q. rest = p @ q \<and> complete p \<and> off' = off + int (length p)"
proof (induction io n mx rest off lines rule: read_lines.induct)
  case (1 io n mx rest off lines)
  show ?case
  proof (cases "\<not> int (length lines) < mx \<or> io (ReadFile n off) \<noteq> None \<or> cut_line rest = None")
    case True
    then have "off' = off" using "1.prems" by (subst (asm) read_lines.simps) (auto split: if_splits)
    then show ?thesis by (intro exI [of _ "[]"] exI [of _ rest]) simp
  next
    case False
    then obtain l t where c: "cut_line rest = Some (l, t)" by auto
    have split: "rest = l @ t" "complete l" using cut_line_split [OF c] by (auto simp: complete_def)
    have g: "\<not> \<not> int (length lines) < mx" "\<not> io (ReadFile n off) \<noteq> None" using False by simp_all
    note IH = "1.IH" [OF g c refl refl refl]
    have "\<exists>lines1. read_lines io n mx t (off + int (length l)) lines1 = (off', lines', r)
       \<and> (\<exists>p q. t = p @ q \<and> complete p \<and> off' = off + int (length l) + int (length p))"
      using "1.prems" c g IH by (subst (asm) read_lines.simps) (auto simp: Let_def split: if_splits)
    then obtain p q where "t = p @ q" "complete p" "off' = off + int (length l) + int (length p)" by blast
    with split complete_append [of l p] show ?thesis
      by (intro exI [of _ "l @ p"] exI [of _ q]) simp
  qed
qed

lemma read_from_boundary:
  assumes "0 \<le> po_offset pos" "at_boundary d pos" "read_from io d mx pos lines = (pos', lines', r)"
    "is_spool_plain_name (po_file pos)"
  shows "0 \<le> po_offset pos' \<and> at_boundary d pos' \<and> po_file pos' = po_file pos"
proof (cases "open_read io d (po_file pos) = None \<or> io (StatFile (po_file pos)) \<noteq> None")
  case True
  with assms show ?thesis by (auto simp: read_from_def split: option.splits)
next
  case False
  then obtain b where b: "open_read io d (po_file pos) = Some b" "io (StatFile (po_file pos)) = None" by auto
  then have look: "look d (po_file pos) = Some (Reg b)" by (auto simp: open_read_def split: if_splits)
  with assms(2,4) have off: "po_offset pos \<le> int (length b)" "complete (take (nat (po_offset pos)) b)"
    by (auto simp: at_boundary_def)
  obtain o1 l1 r1 where rl: "read_lines io (po_file pos) mx (drop_int (po_offset pos) b) (po_offset pos) lines = (o1, l1, r1)"
    by (metis prod_cases3)
  with assms(3) b off have p: "pos' = pos\<lparr>po_offset := o1\<rparr>" by (auto simp: read_from_def Let_def)
  from read_lines_boundary [OF rl] obtain x q where x: "drop_int (po_offset pos) b = x @ q" "complete x"
    "o1 = po_offset pos + int (length x)" by blast
  have d: "drop (nat (po_offset pos)) b = x @ q" using x(1) by simp
  have "b = take (nat (po_offset pos)) b @ x @ q" using d append_take_drop_id by metis
  moreover have len: "length (take (nat (po_offset pos)) b) = nat (po_offset pos)" using off(1) by simp
  moreover have "nat o1 = nat (po_offset pos) + length x" using x(3) assms(1) by simp
  ultimately have "take (nat o1) b = take (nat (po_offset pos)) b @ x"
    by (metis append.assoc append_eq_conv_conj length_append)
  moreover have "o1 \<le> int (length b)" using arg_cong [OF d, of length] off(1) assms(1) x(3) by simp
  ultimately show ?thesis using complete_append [OF off(2) x(2)] look assms(1) x(3) by (simp add: p at_boundary_def)
qed

lemma read_files_boundary:
  "read_files fuel io d ns mx pos lines = Some (pos', lines', e) \<Longrightarrow> 0 \<le> po_offset pos \<Longrightarrow> at_boundary d pos \<Longrightarrow>
   sorted_wrt (<) ns \<Longrightarrow> \<forall>n\<in>set ns. is_spool_plain_name n \<Longrightarrow>
   0 \<le> po_offset pos' \<and> at_boundary d pos' \<and> (po_file pos' = po_file pos \<or> po_file pos' \<in> set ns)"
proof (induction fuel arbitrary: pos lines)
  case (Suc fuel)
  let ?i = "search_strings ns (po_file pos)"
  define p where "p = (if ns ! ?i \<noteq> po_file pos then \<lparr>po_file = ns ! ?i, po_offset = 0\<rparr> else pos)"
  show ?case
  proof (cases "\<not> int (length lines) < mx \<or> ?i = length ns")
    case True
    with Suc.prems(1) have "pos' = pos"
      unfolding read_files_Suc Let_def by (cases "int (length lines) < mx") simp_all
    with Suc.prems(2,3) show ?thesis by simp
  next
    case False
    then have i: "?i < length ns" using search_strings_spec(3) [OF Suc.prems(4), of "po_file pos"] by simp
    have z: "0 \<le> po_offset \<lparr>po_file = n, po_offset = 0\<rparr>" "at_boundary d \<lparr>po_file = n, po_offset = 0\<rparr>" for n
      by (simp_all add: at_boundary_def)
    have p: "0 \<le> po_offset p" "at_boundary d p" "po_file p \<in> set ns"
      using Suc.prems(2,3) z nth_mem [OF i] by (auto simp: p_def)
    obtain q l r where f: "read_from io d mx p lines = (q, l, r)" by (metis prod_cases3)
    from read_from_boundary [OF p(1,2) f] p(3) Suc.prems(5) have q: "0 \<le> po_offset q \<and> at_boundary d q \<and> po_file q \<in> set ns" by simp
    show ?thesis
    proof (cases "(\<exists>x. r = Inr x \<and> x) \<and> ?i \<noteq> length ns - 1")
      case False
      with Suc.prems(1) f \<open>\<not> (_ \<or> _)\<close> have "pos' = q"
        by (cases r) (auto simp: read_files_Suc Let_def p_def [symmetric] split: if_splits)
      with q show ?thesis by simp
    next
      case True
      with Suc.prems(1) f \<open>\<not> (_ \<or> _)\<close>
      have "read_files fuel io d ns mx \<lparr>po_file = ns ! (?i + 1), po_offset = 0\<rparr> l = Some (pos', lines', e)"
        by (auto simp: read_files_Suc Let_def p_def [symmetric])
      from Suc.IH [OF this z Suc.prems(4,5)] i True show ?thesis by auto
    qed
  qed
qed simp

lemma read_ready_pos:
  assumes inv: "spool_inv s" and p: "pos_ok (sp_files s) (sp_committed s)" and io: "listing_ok io"
    and run: "ReadReadyBatch io mx allow s = Some (s', lines, endp, None)"
  shows "pos_ok (sp_files s) endp"
proof -
  let ?ns = "plain_names io (sp_files s)"
  have d: "dir_ok (sp_files s)" using inv by (rule spool_inv_dir)
  have ns: "?ns = plain_names no_faults (sp_files s)" by (rule plain_names_listing [OF io d])
  obtain pos l e where r: "read_files (Suc (length ?ns)) io (sp_files s) ?ns mx (sp_committed s) [] = Some (pos, l, e)"
    using run by (auto simp: ReadReadyBatch_def read_batch_def Let_def)
  with run have "endp = pos \<or> endp = sp_committed s"
    by (auto simp: ReadReadyBatch_def read_batch_def Let_def split: option.splits if_splits)
  moreover have "\<forall>n\<in>set ?ns. is_spool_plain_name n" by (simp add: plain_names_mem [OF d])
  ultimately show ?thesis
    using p read_files_boundary [OF r _ _ plain_names_sorted [OF d]] by (auto simp: pos_ok_def anchored_def ns)
qed

text \<open>A position that is not before another one has no more lines after it.\<close>

lemma newlines_drop_mono: "k \<le> m \<Longrightarrow> newlines (drop m b) \<le> newlines (drop k b)"
proof -
  assume "k \<le> m"
  then have "drop m b = drop (m - k) (drop k b)" by simp
  then show ?thesis using newlines_append [of "take (m - k) (drop k b)" "drop m b"] newlines_nonneg
    by (metis add_increasing append_take_drop_id order_refl)
qed

lemma waiting_mono: "\<not> pos_less p q \<Longrightarrow> waiting d p \<le> waiting d q"
proof -
  assume l: "\<not> pos_less p q"
  have "waiting_in d p n \<le> waiting_in d q n" for n
  proof (cases "po_file p \<le> n")
    case True
    have le: "po_file q \<le> po_file p" using pos_less_file [OF l] .
    have off: "nat (if n = po_file q then po_offset q else 0) \<le> nat (if n = po_file p then po_offset p else 0)"
      using l le True by (auto simp: pos_less_def split: if_splits)
    have "line_count d n i \<le> line_count d n j" if "nat j \<le> nat i" for i j
      using newlines_drop_mono [OF that] by (cases "file_bytes d n") (simp_all only: line_count_def option.case order_refl)
    from this [OF off] True order.trans [OF le True] show ?thesis by (simp only: waiting_in_def if_True)
  next
    case False
    then show ?thesis by (simp add: waiting_in_def)
  qed
  then show ?thesis by (auto simp: waiting_def intro: sum_list_mono)
qed

lemma plain_same_result:
  assumes "clean_dir d" "pos_ok d pos" "plain_same d d'"
  shows "clean_dir d' \<and> pos_ok d' pos \<and> waiting d' pos = waiting d pos"
proof -
  have d: "dir_ok d" using assms(1) by (simp add: clean_dir_def)
  have n: "plain_names no_faults d' = plain_names no_faults d" by (rule plain_same_names [OF d assms(3)])
  have p: "pos_ok d' pos" using assms(2,3) n by (auto simp: pos_ok_def at_boundary_def anchored_def plain_same_def)
  with assms(2) waiting_pending [OF plain_same_clean [OF assms(1,3)]] waiting_pending [OF assms(1)]
    plain_same_pending [OF d assms(3)] show ?thesis by (simp add: pos_ok_def plain_same_clean [OF assms(1,3)])
qed

section \<open>Growing\<close>

text \<open>What a file may become: the last one grows by clean bytes, or a new last one appears.\<close>

definition grown :: "dir \<Rightarrow> bytes \<Rightarrow> dir \<Rightarrow> bool" where
  "grown d x d' \<longleftrightarrow>
     dir_ok d' \<and> (\<exists>n b. is_spool_plain_name n \<and> (\<forall>m\<in>set (plain_names no_faults d). m \<le> n)
       \<and> (look d n = None \<and> b = [] \<or> look d n = Some (Reg b))
       \<and> look d' n = Some (Reg (b @ x)) \<and> (\<forall>m. m \<noteq> n \<longrightarrow> look d' m = look d m))"

lemma grownI:
  "dir_ok d' \<Longrightarrow> is_spool_plain_name n \<Longrightarrow> \<forall>m\<in>set (plain_names no_faults d). m \<le> n \<Longrightarrow>
   look d n = None \<and> b = [] \<or> look d n = Some (Reg b) \<Longrightarrow> look d' n = Some (Reg (b @ x)) \<Longrightarrow>
   \<forall>m. m \<noteq> n \<longrightarrow> look d' m = look d m \<Longrightarrow> grown d x d'"
  unfolding grown_def by blast

lemma grown_result:
  assumes d: "clean_dir d" and p: "pos_ok d pos" and x: "clean x" and g: "grown d x d'"
  shows "clean_dir d' \<and> pos_ok d' pos \<and> waiting d' pos = waiting d pos + newlines x"
proof -
  from g obtain n b where d': "dir_ok d'" and n: "is_spool_plain_name n" "\<forall>m\<in>set (plain_names no_faults d). m \<le> n"
    and old: "look d n = None \<and> b = [] \<or> look d n = Some (Reg b)"
    and new: "look d' n = Some (Reg (b @ x))" "\<forall>m. m \<noteq> n \<longrightarrow> look d' m = look d m" by (auto simp: grown_def)
  have dd: "dir_ok d" using d by (simp add: clean_dir_def)
  have b: "clean b" using old d n(1) by (auto simp: clean_dir_def)
  have mem: "n \<in> set (plain_names no_faults d')" using new(1) n(1) by (auto simp: plain_names_mem [OF d'])
  have ne: "n \<noteq> []" using n(1) by (auto simp: is_spool_plain_name_iff plain_of_def name_defs)
  have "clean c" if "is_spool_plain_name m" "look d' m = Some (Reg c)" for m c
    using that new d clean_append [OF b x] by (cases "m = n") (auto simp: clean_dir_def)
  then have c': "clean_dir d'" using d' unfolding clean_dir_def by blast
  have le: "po_file pos = [] \<or> po_file pos \<le> n"
    using p n(2) by (auto simp: pos_ok_def anchored_def intro: order.trans)
  have ex: "look d n = Some (Reg b)" if "po_file pos = n"
  proof -
    from p that ne obtain m where m: "m \<in> set (plain_names no_faults d)" "n \<le> m" by (auto simp: pos_ok_def anchored_def)
    with n(2) have "m = n" by force
    with m old show ?thesis by (auto simp: plain_names_mem [OF dd])
  qed
  have off: "po_offset pos \<le> int (length b) \<and> complete (take (nat (po_offset pos)) b)" if "po_file pos = n"
    using ex [OF that] p that n(1) by (auto simp: pos_ok_def at_boundary_def)
  then have at: "at_boundary d' pos"
  proof (cases "po_file pos = n")
    case True
    with off [OF True] new(1) show ?thesis by (auto simp: at_boundary_def)
  next
    case False
    with p new(2) show ?thesis by (simp add: pos_ok_def at_boundary_def)
  qed
  have "pos_ok d' pos" using at le mem p by (auto simp: pos_ok_def anchored_def)
  moreover have "pending_at d' pos = pending_at d pos @ (if po_file pos \<le> n then line_events x else [])"
    using off by (intro pending_at_grow [OF dd d' n old _ new]) (use b in \<open>auto simp: clean_def\<close>)
  then have "waiting d' pos = waiting d pos + newlines x"
    using waiting_pending [OF c' at] waiting_pending [OF d, of pos] p x le by (auto simp: pos_ok_def clean_def)
  ultimately show ?thesis using c' by simp
qed

text \<open>\<open>Append\<close>, as long as it can open, list, cut off and sync.\<close>

definition append_io :: "faults \<Rightarrow> bool" where
  "append_io io \<longleftrightarrow> listing_ok io \<and> truncate_ok io \<and> (\<forall>n. io (SyncFile n) = None)"

lemma append_grown:
  assumes inv: "spool_inv s" and t: "four_digit t" and io: "append_io io" and line: "complete line"
    and run: "append_line io t line s = (s', e)"
  shows "spool_inv s' \<and> sp_committed s' = sp_committed s \<and> sp_inflight s' = sp_inflight s
    \<and> (if e = None then grown (sp_files s) line (sp_files s')
       else plain_same (sp_files s) (sp_files s') \<or> grown (sp_files s) [] (sp_files s'))"
proof (cases "io WriteHook = None")
  case False
  with run inv show ?thesis by (auto simp: append_line_def plain_same_def inv_defs)
next
  case True
  have l: "listing_ok io" "truncate_ok io" using io by (simp_all add: append_io_def)
  have "spool_inv s' \<and> sp_committed s' = sp_committed s" using append_result [OF inv t l line run] by simp
  obtain s1 e1 where o: "(if \<not> sp_cur s \<or> sp_cur_name s < spool_name t then open_locked io (spool_name t) s else (s, None)) = (s1, e1)"
    by fastforce
  have dir: "dir_ok (sp_files s)" using inv by (rule spool_inv_dir)
  have opened: "spool_inv s1 \<and> sp_inflight s1 = sp_inflight s
    \<and> (if e1 = None then sp_cur s1 \<and> grown (sp_files s) [] (sp_files s1) else plain_same (sp_files s) (sp_files s1))"
  proof (cases "\<not> sp_cur s \<or> sp_cur_name s < spool_name t")
    case True
    with o have run1: "open_locked io (spool_name t) s = (s1, e1)" by simp
    note r = open_locked_result [OF inv l(1) spool_name_plain [OF t] True run1]
    show ?thesis
    proof (cases "e1 = None")
      case True
      with r have w: "spool_inv s1" "sp_cur s1" by auto
      then obtain b where n: "is_spool_plain_name (sp_cur_name s1)" "look (sp_files s1) (sp_cur_name s1) = Some (Reg b)"
        "\<forall>m\<in>set (plain_names no_faults (sp_files s1)). m \<le> sp_cur_name s1" by (auto simp: inv_defs)
      have "m \<le> sp_cur_name s1" if "m \<in> set (plain_names no_faults (sp_files s))" for m
        using that n(3) r spool_inv_dir [OF w(1)] by (cases "m = sp_cur_name s1") (auto simp: plain_names_mem dir)
      then have "grown (sp_files s) [] (sp_files s1)"
        by (intro grownI [OF spool_inv_dir [OF w(1)] n(1), of _ b]) (use r True n(2) in auto)
      with r True show ?thesis by simp
    next
      case False
      with run1 l(1) have "sp_files s1 = sp_files s"
        by (auto simp: open_locked_def Let_def listing_ok_def split: option.splits if_splits)
      with r False dir show ?thesis by (simp add: plain_same_def)
    qed
  next
    case False
    with o have "s1 = s" "e1 = None" "sp_cur s" by simp_all
    moreover have "grown (sp_files s) [] (sp_files s)"
      using inv \<open>sp_cur s\<close> dir unfolding grown_def by (auto simp: inv_defs)
    ultimately show ?thesis using inv by simp
  qed
  show ?thesis
  proof (cases e1)
    case (Some c)
    with opened o True run \<open>spool_inv s' \<and> _\<close> show ?thesis by (auto simp: append_line_def)
  next
    case None
    with o True run have w: "write_locked io line s1 = (s', e)" by (simp add: append_line_def)
    from opened None have g: "grown (sp_files s) [] (sp_files s1)" "sp_cur s1" "spool_inv s1" by simp_all
    show ?thesis
    proof (cases "io (WriteFile (sp_cur_name s1)) = None")
      case False
      from write_locked_failed [OF g(3,2) l(2) False w] opened None \<open>spool_inv s' \<and> _\<close> show ?thesis by auto
    next
      case True
      let ?n = "sp_cur_name s1"
      have e: "e = None" using write_locked_stored [OF g(3,2) line True w] io by (auto simp: append_io_def) (use w True in \<open>auto simp: write_locked_def Let_def sync_locked_def call_error_def split: if_splits\<close>)
      have f: "sp_files s' = append_bytes (sp_files s1) ?n line" "sp_inflight s' = sp_inflight s1"
        using w True by (auto simp: write_locked_def Let_def sync_locked_def split: if_splits)
      from g(2,3) obtain b where b: "is_spool_plain_name ?n" "look (sp_files s1) ?n = Some (Reg b)"
        "\<forall>m\<in>set (plain_names no_faults (sp_files s1)). m \<le> ?n" by (auto simp: inv_defs)
      from g(1) obtain n c where n: "is_spool_plain_name n" "\<forall>m\<in>set (plain_names no_faults (sp_files s)). m \<le> n"
        "look (sp_files s) n = None \<and> c = [] \<or> look (sp_files s) n = Some (Reg c)"
        "look (sp_files s1) n = Some (Reg c)" "\<forall>m. m \<noteq> n \<longrightarrow> look (sp_files s1) m = look (sp_files s) m"
        by (auto simp: grown_def)
      have d1: "dir_ok (sp_files s1)" using g(3) by (rule spool_inv_dir)
      have "n = ?n"
      proof (rule antisym)
        show "n \<le> ?n" using b(3) n(1,4) by (auto simp: plain_names_mem [OF d1])
        show "?n \<le> n" using n(2,5) b by (cases "?n = n") (auto simp: plain_names_mem [OF dir])
      qed
      have "grown (sp_files s) line (sp_files s')"
      proof (rule grownI [of _ n _ c])
        show "dir_ok (sp_files s')" using d1 by (simp add: f)
        show "look (sp_files s') n = Some (Reg (c @ line))" using n(4) \<open>n = ?n\<close> by (simp add: f append_bytes_def look_put)
        show "\<forall>m. m \<noteq> n \<longrightarrow> look (sp_files s') m = look (sp_files s) m" using n(5) \<open>n = ?n\<close> by (simp add: f look_append_other)
      qed (use n in auto)
      with e f opened None \<open>spool_inv s' \<and> _\<close> show ?thesis by simp
    qed
  qed
qed

section \<open>Cleaning up\<close>

text \<open>
  A cleanup keeps the file that is written. Before the first event of a run there is none, and then
  a position can be left behind.
\<close>

lemma cleanup_account:
  assumes inv: "spool_inv s" and d: "clean_dir (sp_files s)" and p: "pos_ok (sp_files s) (effective_position s)"
    and io: "reads_ok io" and run: "cleanup gz io now r mx s = (s', n)"
    and keeps: "sp_cur s \<or> anchored (sp_files s') (effective_position s)"
  shows "spool_inv s' \<and> s' = s\<lparr>sp_files := sp_files s'\<rparr> \<and> clean_dir (sp_files s') \<and> 0 \<le> n
    \<and> pos_ok (sp_files s') (effective_position s)
    \<and> waiting (sp_files s) (effective_position s) = waiting (sp_files s') (effective_position s) + n"
proof -
  note res = cleanup_from_result [OF spool_inv_dir [OF inv] io run [unfolded cleanup_def]]
  then have same: "\<forall>m. is_spool_plain_name m \<longrightarrow> look (sp_files s') m = look (sp_files s) m \<or> look (sp_files s') m = None"
    and d': "dir_ok (sp_files s')" by auto
  have "anchored (sp_files s') (effective_position s)"
  proof (cases "sp_cur s")
    case True
    then obtain b where cur: "is_spool_plain_name (sp_cur_name s)" "look (sp_files s) (sp_cur_name s) = Some (Reg b)"
      "\<forall>m\<in>set (plain_names no_faults (sp_files s)). m \<le> sp_cur_name s" using inv by (auto simp: inv_defs)
    with res have "look (sp_files s') (sp_cur_name s) = Some (Reg b)" by simp
    then have "sp_cur_name s \<in> set (plain_names no_faults (sp_files s'))" using cur(1) by (simp add: plain_names_mem [OF d'])
    with p cur(3) show ?thesis by (auto simp: pos_ok_def anchored_def intro: order.trans)
  qed (use keeps in simp)
  moreover have "at_boundary (sp_files s') (effective_position s)"
    using p same unfolding pos_ok_def at_boundary_def by (metis option.distinct(1))
  moreover have "clean_dir (sp_files s')"
    using d same d' unfolding clean_dir_def by (metis option.distinct(1))
  ultimately show ?thesis using res cleanup_inv [OF inv io run] p by (simp add: pos_ok_def)
qed

end
