(* ===== verification/Agent_Facts.thy ===== *)
theory Agent_Facts
  imports Agent_System Spool_Account
begin

text \<open>
  The agent as a whole: whatever order the datagrams, the rounds of the forwarder, the attempts to
  send, the cleanups, heartbeats and syncs come in, every event is accounted for.
\<close>

section \<open>The invariant\<close>










section \<open>Runs\<close>




section \<open>One step of each kind\<close>





subsection \<open>A datagram\<close>





subsection \<open>Syncs, cleanups and heartbeats\<close>




subsection \<open>The forwarder\<close>
















section \<open>Every event is accounted for\<close>








end
