(* ===== verification/Config_Load.thy ===== *)
theory Config_Load
  imports Agent_Config Collector Forwarder_Facts
begin

text \<open>
  \<open>LoadConfig\<close> of \<open>internal/agent/config.go\<close>: the file is decoded by the TOML library, unknown keys are
  refused, and the settings that are left are validated. What an accepted configuration guarantees
  to the rest of the program is its type.
\<close>

section \<open>Reading the file\<close>

text \<open>The library's decoding of a file: an error, or the settings and the keys it did not know.\<close>

type_synonym toml_file = "string + agent_config \<times> string list"

datatype load_error = NotRead string string | UnknownKeys string "string list" | Refused "config_error list"

definition load_config ::
  "(string \<Rightarrow> toml_file) \<Rightarrow> (string \<Rightarrow> url option) \<Rightarrow> (string \<Rightarrow> bool) \<Rightarrow> string \<Rightarrow> load_error + agent_config" where
  "load_config decode parse_url file_exists path =
     (case decode path of
        Inl e \<Rightarrow> Inl (NotRead path e)
      | Inr (c, keys) \<Rightarrow>
          if keys \<noteq> [] then Inl (UnknownKeys path keys)
          else let c = c\<lparr>cf_path := path\<rparr>
               in case validate parse_url file_exists c of
                    Inl es \<Rightarrow> Inl (Refused es)
                  | Inr u \<Rightarrow> Inr c)"

text \<open>The path that is taken where none is given; on Windows it is joined by the platform.\<close>

definition default_config_path :: "(string list \<Rightarrow> string) \<Rightarrow> bool \<Rightarrow> string \<Rightarrow> string" where
  "default_config_path join_path windows program_data =
     (if windows then
        let base = (if program_data = [] then ''C:'' @ [CHR 0x5C] @ ''ProgramData'' else program_data)
        in join_path [base, ''pico-utm-agent'', ''config.toml'']
      else ''/etc/pico-utm-agent/config.toml'')"

section \<open>What is accepted\<close>

lemma int_range_none [simp]: "int_range field v lo hi = [] \<longleftrightarrow> lo \<le> v \<and> v \<le> hi"
  by (simp add: int_range_def not_less)

lemma non_empty_none [simp]: "non_empty field v = [] \<longleftrightarrow> trim_space v \<noteq> []"
  by (simp add: non_empty_def)

definition endpoint_ok :: "(string \<Rightarrow> url option) \<Rightarrow> string \<Rightarrow> bool" where
  "endpoint_ok parse_url s \<longleftrightarrow>
     has_prefix s ''https://''
     \<and> (\<exists>u. parse_url s = Some u \<and> url_host u \<noteq> [] \<and> \<not> url_user u \<and> url_query u = [] \<and> url_fragment u = [])"

lemma validate_endpoint_none: "validate_endpoint parse_url s = None \<longleftrightarrow> endpoint_ok parse_url s"
  by (auto simp: validate_endpoint_def endpoint_ok_def split: option.splits)

definition proxy_ok :: "(string \<Rightarrow> url option) \<Rightarrow> string \<Rightarrow> bool" where
  "proxy_ok parse_url s \<longleftrightarrow>
     s = [] \<or> (\<exists>u. parse_url s = Some u \<and> url_scheme u \<in> {''http'', ''https''} \<and> url_host u \<noteq> [])"

text \<open>The type of the settings.\<close>

definition settings_ok :: "(string \<Rightarrow> url option) \<Rightarrow> (string \<Rightarrow> bool) \<Rightarrow> agent_config \<Rightarrow> bool" where
  "settings_ok parse_url file_exists c \<longleftrightarrow>
     is_uuid (cf_agent_id c) \<and> is_site_id (cf_site_id c) \<and> is_ip (cf_addr c)
     \<and> cf_port c \<in> {1024..65535} \<and> endpoint_ok parse_url (cf_endpoint c) \<and> trim_space (cf_token c) \<noteq> []
     \<and> cf_batch_size c \<in> {1..10000} \<and> cf_batch_interval_seconds c \<in> {5..300}
     \<and> (cf_ca_file c = [] \<or> file_exists (cf_ca_file c)) \<and> cf_heartbeat_interval_seconds c \<in> {60..3600}
     \<and> trim_space (cf_spool_dir c) \<noteq> [] \<and> cf_retention_days c \<in> {1..365} \<and> cf_max_size_gb c \<in> {1..500}
     \<and> trim_space (cf_log_dir c) \<noteq> [] \<and> cf_log_level c \<in> {''debug'', ''info'', ''warn'', ''error''}
     \<and> proxy_ok parse_url (cf_proxy_url c)"

lemma config_errors_none: "config_errors parse_url file_exists c = [] \<longleftrightarrow> settings_ok parse_url file_exists c"
proof -
  have p: "(if cf_proxy_url c = [] then []
      else case parse_url (cf_proxy_url c) of None \<Rightarrow> [BadProxy]
        | Some u \<Rightarrow> if (url_scheme u \<noteq> ''http'' \<and> url_scheme u \<noteq> ''https'') \<or> url_host u = [] then [BadProxy] else []) = []
      \<longleftrightarrow> proxy_ok parse_url (cf_proxy_url c)"
    by (auto simp: proxy_ok_def split: option.split)
  have e: "(case validate_endpoint parse_url (cf_endpoint c) of None \<Rightarrow> [] | Some e \<Rightarrow> [BadEndpoint e (cf_endpoint c)]) = []
      \<longleftrightarrow> endpoint_ok parse_url (cf_endpoint c)"
    unfolding validate_endpoint_none [symmetric] by (simp split: option.split)
  have i: "(if b then [] else [x]) = [] \<longleftrightarrow> b" "(if \<not> b then [x] else []) = [] \<longleftrightarrow> b" for b and x :: config_error by simp_all
  show ?thesis
    unfolding config_errors_def append_is_Nil_conv p e i settings_ok_def by (auto split: if_splits)
qed

text \<open>
  C36: A configuration that \<open>LoadConfig\<close> returns is well typed: every setting is in its range, the
  intervals and the size of the spool fit the 64-bit integers they are turned into, and a full batch
  is not larger than what the collector takes. And every well typed file without unknown keys is
  accepted.
\<close>

theorem load_config_typed:
  "(load_config decode parse_url file_exists path = Inr c \<longrightarrow>
      settings_ok parse_url file_exists c \<and> cf_path c = path
      \<and> batch_interval c \<in> {5 * second..300 * second} \<and> heartbeat_interval c \<in> {60 * second..3600 * second}
      \<and> heartbeat_interval c < 2 ^ 63 \<and> max_spool_bytes c \<in> {2 ^ 30..500 * 2 ^ 30} \<and> max_spool_bytes c < 2 ^ 63 \<and> cf_batch_size c \<le> int max_events)
   \<and> (decode path = Inr (c, []) \<and> settings_ok parse_url file_exists (c\<lparr>cf_path := path\<rparr>) \<longrightarrow>
      load_config decode parse_url file_exists path = Inr (c\<lparr>cf_path := path\<rparr>))"
proof (intro conjI impI)
  assume l: "load_config decode parse_url file_exists path = Inr c"
  then have v: "config_errors parse_url file_exists c = []" and p: "cf_path c = path"
    by (auto simp: load_config_def Let_def validate_def split: sum.splits if_splits)
  then have s: "settings_ok parse_url file_exists c" by (simp add: config_errors_none)
  then show "settings_ok parse_url file_exists c" "cf_path c = path" using p by simp_all
  show "batch_interval c \<in> {5 * second..300 * second}" "heartbeat_interval c \<in> {60 * second..3600 * second}"
    "heartbeat_interval c < 2 ^ 63" "max_spool_bytes c \<in> {2 ^ 30..500 * 2 ^ 30}" "max_spool_bytes c < 2 ^ 63" "cf_batch_size c \<le> int max_events"
    using s by (simp_all add: settings_ok_def batch_interval_def heartbeat_interval_def max_spool_bytes_def
        second_def max_events_def)
next
  assume "decode path = Inr (c, []) \<and> settings_ok parse_url file_exists (c\<lparr>cf_path := path\<rparr>)"
  then show "load_config decode parse_url file_exists path = Inr (c\<lparr>cf_path := path\<rparr>)"
    by (simp add: load_config_def Let_def validate_def flip: config_errors_none)
qed

theorem load_config_typed_witness:
  "load_config (\<lambda>p. Inr (example_config, [])) (\<lambda>s. Some \<lparr>url_scheme = ''https'', url_host = ''c.example'', url_user = False,
       url_query = [], url_fragment = []\<rparr>) (\<lambda>p. True) ''/c'' = Inr example_config"
proof -
  let ?u = "\<lambda>s :: string. Some \<lparr>url_scheme = ''https'', url_host = ''c.example'', url_user = False,
       url_query = [], url_fragment = []\<rparr>"
  have "is_uuid (cf_agent_id example_config)" "is_site_id (cf_site_id example_config)" "is_ip (cf_addr example_config)"
    "trim_space (cf_token example_config) \<noteq> []" "trim_space (cf_spool_dir example_config) \<noteq> []"
    "trim_space (cf_log_dir example_config) \<noteq> []" by code_simp+
  then have "settings_ok ?u (\<lambda>p. True) example_config"
    by (simp add: settings_ok_def endpoint_ok_def proxy_ok_def) (simp add: example_config_def has_prefix_def)
  moreover have "example_config\<lparr>cf_path := ''/c''\<rparr> = example_config" by (simp add: example_config_def)
  ultimately show ?thesis
    using load_config_typed [of "\<lambda>p. Inr (example_config, [])" ?u "\<lambda>p. True" "''/c''" example_config] by simp
qed

end
