(* ===== verification/Cli_Status.thy ===== *)
theory Cli_Status
  imports Agent_System Config_Load Logging Protocol
begin

text \<open>
  \<open>agent status\<close> of \<open>internal/agent/cli.go\<close>: reading the status file that the service writes and
  printing it, with the text formats it uses. The texts of the errors of the system and of
  \<open>encoding/json\<close> are parameters.
\<close>

section \<open>Text\<close>

text \<open>The value of the first rune and its size; an invalid byte is U+FFFD.\<close>

definition decode_rune :: "string \<Rightarrow> nat \<times> nat" where
  "decode_rune s =
     (let b = (\<lambda>i. of_char (s ! i) :: nat)
      in case rune_size s of
           None \<Rightarrow> (0xFFFD, 1)
         | Some n \<Rightarrow>
             (if n = 1 then b 0
              else if n = 2 then b 0 mod 32 * 64 + b 1 mod 64
              else if n = 3 then b 0 mod 16 * 4096 + b 1 mod 64 * 64 + b 2 mod 64
              else b 0 mod 8 * 262144 + b 1 mod 64 * 4096 + b 2 mod 64 * 64 + b 3 mod 64, n))"

definition wide_rune :: "nat \<Rightarrow> bool" where
  "wide_rune r \<longleftrightarrow>
     0x2E80 \<le> r \<and> r \<le> 0xA4CF \<or> 0xAC00 \<le> r \<and> r \<le> 0xD7A3 \<or> 0xF900 \<le> r \<and> r \<le> 0xFAFF
     \<or> 0xFE30 \<le> r \<and> r \<le> 0xFE4F \<or> 0xFF00 \<le> r \<and> r \<le> 0xFF60 \<or> 0xFFE0 \<le> r \<and> r \<le> 0xFFE6"

function display_width :: "string \<Rightarrow> int" where
  "display_width s =
     (if s = [] then 0
      else (if wide_rune (fst (decode_rune s)) then 2 else 1) + display_width (drop (max 1 (snd (decode_rune s))) s))"
  by pat_completeness auto
termination
  by (relation "measure length") auto

declare display_width.simps [simp del]

definition pad_display :: "string \<Rightarrow> int \<Rightarrow> string" where
  "pad_display s width = s @ replicate (nat (max (width - display_width s) 1)) CHR '' ''"

text \<open>
  \<open>%.1f\<close> of the number \<open>v / unit\<close>, which is exact: rounded to a tenth, to even on a tie. The sign of
  a negative number that rounds to zero is kept.
\<close>

definition round_half_even :: "int \<Rightarrow> int \<Rightarrow> int" where
  "round_half_even a b =
     (let q = a div b; r = a mod b in if 2 * r < b \<or> 2 * r = b \<and> even q then q else q + 1)"

definition format_tenths :: "int \<Rightarrow> int \<Rightarrow> string" where
  "format_tenths v unit =
     (let q = round_half_even (\<bar>v\<bar> * 10) unit
      in (if v < 0 then ''-'' else []) @ int_dec (q div 10) @ ''.'' @ int_dec (q mod 10))"

text \<open>\<open>formatBytes\<close>: the size is converted to float64 first.\<close>

definition format_bytes :: "int \<Rightarrow> string" where
  "format_bytes n =
     (if 2 ^ 30 \<le> n then format_tenths (round53 n) (2 ^ 30) @ '' GB''
      else if 2 ^ 20 \<le> n then format_tenths (round53 n) (2 ^ 20) @ '' MB''
      else if 2 ^ 10 \<le> n then format_tenths (round53 n) (2 ^ 10) @ '' KB''
      else int_dec n @ '' B'')"

text \<open>\<open>Duration.String\<close>: a fraction without its trailing zeros, and hours, minutes and seconds.\<close>

definition frac_text :: "nat \<Rightarrow> nat \<Rightarrow> string" where
  "frac_text prec v =
     (let ds = rev (dropWhile (\<lambda>c. c = CHR ''0'') (rev (pad_nat prec (v mod 10 ^ prec))))
      in int_dec (int (v div 10 ^ prec)) @ (if ds = [] then [] else ''.'' @ ds))"

definition duration_string :: "duration \<Rightarrow> string" where
  "duration_string d =
     (let u = nat \<bar>d\<bar>; sign = (if d < 0 then ''-'' else []); s = u div 10 ^ 9
      in if u = 0 then ''0s''
         else if u < 1000 then sign @ int_dec (int u) @ ''ns''
         else if u < 1000000 then sign @ frac_text 3 u @ ([CHR 0xC2, CHR 0xB5] @ ''s'')
         else if u < 1000000000 then sign @ frac_text 6 u @ ''ms''
         else sign @ (if 3600 \<le> s then int_dec (int (s div 3600)) @ ''h'' else [])
              @ (if 60 \<le> s then int_dec (int (s div 60 mod 60)) @ ''m'' else [])
              @ frac_text 9 (u mod (60 * 10 ^ 9)) @ ''s'')"

text \<open>\<open>Round(time.Second)\<close> of a duration that is not negative; the largest one stays as it is.\<close>

definition round_second :: "duration \<Rightarrow> duration" where
  "round_second d =
     (let r = d mod second
      in if r + r < second then d - r
         else if d + second - r < 2 ^ 63 then d + second - r else 2 ^ 63 - 1)"

section \<open>The status file\<close>

definition store_heartbeat_payload :: "string \<Rightarrow> json \<Rightarrow> heartbeat \<Rightarrow> heartbeat \<times> bool" where
  "store_heartbeat_payload f v x =
     (if f = ''agent_id'' then at_field (store_string v) hb_agent_id hb_agent_id_update x
      else if f = ''site_id'' then at_field (store_string v) hb_site_id hb_site_id_update x
      else if f = ''agent_version'' then at_field (store_string v) hb_agent_version hb_agent_version_update x
      else if f = ''hostname'' then at_field (store_string v) hb_hostname hb_hostname_update x
      else if f = ''os'' then at_field (store_string v) hb_os hb_os_update x
      else if f = ''sent_at'' then at_field (store_string v) hb_sent_at hb_sent_at_update x
      else if f = ''uptime_seconds'' then at_field (store_int64 v) hb_uptime_seconds hb_uptime_seconds_update x
      else if f = ''last_event_received_at''
      then at_field (store_opt_string v) hb_last_event_received_at hb_last_event_received_at_update x
      else if f = ''events_received_total'' then at_field (store_int64 v) hb_events_received hb_events_received_update x
      else if f = ''events_forwarded_total'' then at_field (store_int64 v) hb_events_forwarded hb_events_forwarded_update x
      else if f = ''events_dead_lettered_total''
      then at_field (store_int64 v) hb_events_dead_lettered hb_events_dead_lettered_update x
      else if f = ''events_dropped_total'' then at_field (store_int64 v) hb_events_dropped hb_events_dropped_update x
      else if f = ''spool_write_errors_total''
      then at_field (store_int64 v) hb_spool_write_errors hb_spool_write_errors_update x
      else if f = ''spool_backlog_bytes'' then at_field (store_int64 v) hb_backlog_bytes hb_backlog_bytes_update x
      else if f = ''spool_total_bytes'' then at_field (store_int64 v) hb_total_bytes hb_total_bytes_update x
      else if f = ''spool_disk_free_bytes'' then at_field (store_int64 v) hb_disk_free_bytes hb_disk_free_bytes_update x
      else if f = ''last_forward_success_at''
      then at_field (store_opt_string v) hb_last_forward_success_at hb_last_forward_success_at_update x
      else if f = ''last_forward_error''
      then at_field (store_opt_string v) hb_last_forward_error hb_last_forward_error_update x
      else if f = ''proxy_in_use'' then at_field (store_bool v) hb_proxy_in_use hb_proxy_in_use_update x
      else at_field (store_list store_string [] v) hb_source_ips hb_source_ips_update x)"

definition summary_fields :: "string list" where
  "summary_fields =
     [''agent_id'', ''site_id'', ''listen'', ''endpoint'', ''batch_size'', ''batch_interval_seconds'',
      ''heartbeat_interval_seconds'', ''spool_dir'', ''retention_days'', ''max_size_gb'', ''log_dir'', ''log_level'',
      ''proxy_url'', ''ca_file'']"

definition store_summary :: "json \<Rightarrow> config_summary \<Rightarrow> config_summary \<times> bool" where
  "store_summary =
     store_struct summary_fields
       (\<lambda>f v x.
          if f = ''agent_id'' then at_field (store_string v) cs_agent_id cs_agent_id_update x
          else if f = ''site_id'' then at_field (store_string v) cs_site_id cs_site_id_update x
          else if f = ''listen'' then at_field (store_string v) cs_listen cs_listen_update x
          else if f = ''endpoint'' then at_field (store_string v) cs_endpoint cs_endpoint_update x
          else if f = ''batch_size'' then at_field (store_int64 v) cs_batch_size cs_batch_size_update x
          else if f = ''batch_interval_seconds''
          then at_field (store_int64 v) cs_batch_interval_seconds cs_batch_interval_seconds_update x
          else if f = ''heartbeat_interval_seconds''
          then at_field (store_int64 v) cs_heartbeat_interval_seconds cs_heartbeat_interval_seconds_update x
          else if f = ''spool_dir'' then at_field (store_string v) cs_spool_dir cs_spool_dir_update x
          else if f = ''retention_days'' then at_field (store_int64 v) cs_retention_days cs_retention_days_update x
          else if f = ''max_size_gb'' then at_field (store_int64 v) cs_max_size_gb cs_max_size_gb_update x
          else if f = ''log_dir'' then at_field (store_string v) cs_log_dir cs_log_dir_update x
          else if f = ''log_level'' then at_field (store_string v) cs_log_level cs_log_level_update x
          else if f = ''proxy_url'' then at_field (store_string v) cs_proxy_url cs_proxy_url_update x
          else at_field (store_string v) cs_ca_file cs_ca_file_update x)"

definition status_fields :: "string list" where
  "status_fields =
     heartbeat_fields
     @ [''started_at'', ''updated_at'', ''last_heartbeat_at'', ''last_heartbeat_error'', ''min_supported_version'',
        ''upgrade_required'', ''config'']"

definition store_status :: "json \<Rightarrow> status_file \<Rightarrow> status_file \<times> bool" where
  "store_status =
     store_struct status_fields
       (\<lambda>f v x.
          if f \<in> set heartbeat_fields then at_field (store_heartbeat_payload f v) sf_heartbeat sf_heartbeat_update x
          else if f = ''started_at'' then at_field (store_string v) sf_started_at sf_started_at_update x
          else if f = ''updated_at'' then at_field (store_string v) sf_updated_at sf_updated_at_update x
          else if f = ''last_heartbeat_at''
          then at_field (store_opt_string v) sf_last_heartbeat_at sf_last_heartbeat_at_update x
          else if f = ''last_heartbeat_error''
          then at_field (store_opt_string v) sf_last_heartbeat_error sf_last_heartbeat_error_update x
          else if f = ''min_supported_version''
          then at_field (store_opt_string v) sf_min_supported_version sf_min_supported_version_update x
          else if f = ''upgrade_required'' then at_field (store_bool v) sf_upgrade_required sf_upgrade_required_update x
          else at_field (store_summary v) sf_config sf_config_update x)"

definition zero_heartbeat :: heartbeat where
  "zero_heartbeat =
     \<lparr>hb_agent_id = [], hb_site_id = [], hb_agent_version = [], hb_hostname = [], hb_os = [], hb_sent_at = [],
      hb_uptime_seconds = 0, hb_last_event_received_at = None, hb_events_received = 0, hb_events_forwarded = 0,
      hb_events_dead_lettered = 0, hb_events_dropped = 0, hb_spool_write_errors = 0, hb_backlog_bytes = 0,
      hb_total_bytes = 0, hb_disk_free_bytes = 0, hb_last_forward_success_at = None, hb_last_forward_error = None,
      hb_proxy_in_use = False, hb_source_ips = []\<rparr>"

definition zero_status :: status_file where
  "zero_status =
     \<lparr>sf_heartbeat = zero_heartbeat, sf_started_at = [], sf_updated_at = [], sf_last_heartbeat_at = None,
      sf_last_heartbeat_error = None, sf_min_supported_version = None, sf_upgrade_required = False,
      sf_config = \<lparr>cs_agent_id = [], cs_site_id = [], cs_listen = [], cs_endpoint = [], cs_batch_size = 0,
        cs_batch_interval_seconds = 0, cs_heartbeat_interval_seconds = 0, cs_spool_dir = [], cs_retention_days = 0,
        cs_max_size_gb = 0, cs_log_dir = [], cs_log_level = [], cs_proxy_url = [], cs_ca_file = []\<rparr>\<rparr>"

datatype status_read = No_Status | Bad_Status string | Good_Status status_file

text \<open>What the program sees of the outside: texts of errors and the way paths are joined.\<close>

record texts =
  tx_system :: "syscall \<Rightarrow> string"
  tx_json :: "bytes \<Rightarrow> string"
  tx_abs :: "string \<Rightarrow> string option"
  tx_join :: "string \<Rightarrow> string \<Rightarrow> string"
  tx_status_path :: "string \<Rightarrow> string"

definition read_status :: "texts \<Rightarrow> faults \<Rightarrow> dir \<Rightarrow> status_read" where
  "read_status tx io d =
     (if look d status_file_name = None then No_Status
      else case (if io (ReadFile status_file_name 0) \<noteq> None then None else open_read io d status_file_name) of
        None \<Rightarrow> Bad_Status (tx_system tx (ReadFile status_file_name 0))
      | Some b \<Rightarrow>
          (case unmarshal store_status b zero_status of
             None \<Rightarrow> Bad_Status (tx_json tx b)
           | Some st \<Rightarrow> Good_Status st))"

definition stale_status :: duration where "stale_status = 60 * second"

definition status_age :: "gtime \<Rightarrow> status_file \<Rightarrow> duration" where
  "status_age now st =
     (case time_parse rfc3339_layout (sf_updated_at st) of None \<Rightarrow> 2 ^ 63 - 1 | Some t \<Rightarrow> time_sub now t)"

section \<open>Printing\<close>

definition print_row :: "string \<Rightarrow> string \<Rightarrow> bytes" where
  "print_row label v = pad_display label 20 @ v @ [nl]"

text \<open>\<open>printLogLocation\<close>, with the directory of the logs.\<close>

definition log_location :: "texts \<Rightarrow> faults \<times> dir \<Rightarrow> string \<Rightarrow> bytes" where
  "log_location tx logs dir =
     (let latest =
        (case latest_log_file (fst logs) (snd logs) of
           None \<Rightarrow> None | Some f \<Rightarrow> tx_abs tx (tx_join tx dir f))
      in print_row (''Log '' @ [CHR 0xE7, CHR 0x9B, CHR 0xAE, CHR 0xE9, CHR 0x8C, CHR 0x84, CHR 0xEF,
        CHR 0xBC, CHR 0x9A]) (case tx_abs tx dir of None \<Rightarrow> dir | Some a \<Rightarrow> a)
         @ print_row ([CHR 0xE6, CHR 0x9C, CHR 0x80, CHR 0xE6, CHR 0x96, CHR 0xB0] @ '' Log '' @ [CHR 0xE6,
        CHR 0xAA, CHR 0x94, CHR 0xEF, CHR 0xBC, CHR 0x9A]) (case latest of None \<Rightarrow> ([CHR 0xEF,
        CHR 0xBC, CHR 0x88, CHR 0xE5, CHR 0xB0, CHR 0x9A, CHR 0xE7, CHR 0x84,
        CHR 0xA1] @ '' log '' @ [CHR 0xE6, CHR 0xAA, CHR 0x94, CHR 0xEF, CHR 0xBC,
        CHR 0x89]) | Some p \<Rightarrow> p)
         @ print_row ([CHR 0xE6, CHR 0x9F, CHR 0xA5, CHR 0xE7, CHR 0x9C, CHR 0x8B] @ '' log'' @ [CHR 0xEF,
        CHR 0xBC, CHR 0x9A]) ''agent logs -n 50'')"

definition or_none :: "string option \<Rightarrow> string \<Rightarrow> string" where
  "or_none s none = (case s of None \<Rightarrow> none | Some v \<Rightarrow> v)"

text \<open>The product of the seconds with \<open>time.Second\<close> is taken in 64 bits.\<close>

definition uptime_text :: "int \<Rightarrow> string" where
  "uptime_text n = duration_string ((n * second + 2 ^ 63) mod 2 ^ 64 - 2 ^ 63)"

definition status_rows :: "status_file \<Rightarrow> (string \<times> string) list" where
  "status_rows st =
     (let h = sf_heartbeat st
      in [(([CHR 0xE7, CHR 0x89, CHR 0x88, CHR 0xE6, CHR 0x9C,
        CHR 0xAC]), hb_agent_version h), (''Agent ID'', hb_agent_id h), (''Site ID'', hb_site_id h),
          (([CHR 0xE4, CHR 0xB8, CHR 0xBB, CHR 0xE6, CHR 0xA9, CHR 0x9F]), hb_hostname h @ ([CHR 0xEF,
        CHR 0xBC, CHR 0x88]) @ hb_os h @ ([CHR 0xEF, CHR 0xBC, CHR 0x89])), (([CHR 0xE6, CHR 0x9C, CHR 0x8D,
        CHR 0xE5, CHR 0x8B, CHR 0x99, CHR 0xE5, CHR 0x95, CHR 0x9F, CHR 0xE5, CHR 0x8B, CHR 0x95, CHR 0xE6,
        CHR 0x99, CHR 0x82, CHR 0xE9, CHR 0x96, CHR 0x93]), sf_started_at st),
          (([CHR 0xE9, CHR 0x81, CHR 0x8B, CHR 0xE8, CHR 0xA1, CHR 0x8C, CHR 0xE6, CHR 0x99, CHR 0x82,
        CHR 0xE9, CHR 0x96, CHR 0x93]), uptime_text (hb_uptime_seconds h)), (([CHR 0xE7, CHR 0x8B, CHR 0x80,
        CHR 0xE6, CHR 0x85, CHR 0x8B, CHR 0xE6, CHR 0x9B, CHR 0xB4, CHR 0xE6, CHR 0x96, CHR 0xB0, CHR 0xE6,
        CHR 0x99, CHR 0x82, CHR 0xE9, CHR 0x96, CHR 0x93]), sf_updated_at st), ([], []),
          (([CHR 0xE6, CHR 0x9C, CHR 0x80, CHR 0xE5, CHR 0xBE, CHR 0x8C, CHR 0xE6, CHR 0x94, CHR 0xB6,
        CHR 0xE5, CHR 0x88, CHR 0xB0, CHR 0xE4, CHR 0xBA, CHR 0x8B, CHR 0xE4, CHR 0xBB,
        CHR 0xB6]), or_none (hb_last_event_received_at h) ([CHR 0xE5, CHR 0xB0, CHR 0x9A, CHR 0xE6,
        CHR 0x9C, CHR 0xAA, CHR 0xE6, CHR 0x94, CHR 0xB6, CHR 0xE5, CHR 0x88, CHR 0xB0, CHR 0xE4, CHR 0xBB,
        CHR 0xBB, CHR 0xE4, CHR 0xBD, CHR 0x95, CHR 0xE4, CHR 0xBA, CHR 0x8B, CHR 0xE4, CHR 0xBB, CHR 0xB6])),
          ((''UTM '' @ [CHR 0xE4, CHR 0xBE, CHR 0x86, CHR 0xE6, CHR 0xBA,
        CHR 0x90] @ '' IP''), join (hb_source_ips h) '', ''), (([CHR 0xE6, CHR 0x94, CHR 0xB6, CHR 0xE5,
        CHR 0x88, CHR 0xB0, CHR 0xE4, CHR 0xBA, CHR 0x8B, CHR 0xE4, CHR 0xBB,
        CHR 0xB6]), int_dec (hb_events_received h)),
          (([CHR 0xE5, CHR 0xB7, CHR 0xB2, CHR 0xE8, CHR 0xBD, CHR 0x89, CHR 0xE9, CHR 0x80,
        CHR 0x81]), int_dec (hb_events_forwarded h)), (''Dead-letter'', int_dec (hb_events_dead_lettered h)),
          (([CHR 0xE6, CHR 0xB8, CHR 0x85, CHR 0xE7, CHR 0x90, CHR 0x86, CHR 0xE4, CHR 0xB8, CHR 0x9F,
        CHR 0xE6, CHR 0xA3, CHR 0x84, CHR 0xEF, CHR 0xBC, CHR 0x88, CHR 0xE6, CHR 0x9C, CHR 0xAA, CHR 0xE8,
        CHR 0xBD, CHR 0x89, CHR 0xE9, CHR 0x80, CHR 0x81, CHR 0xEF, CHR 0xBC,
        CHR 0x89]), int_dec (hb_events_dropped h)),
          ((''Spool '' @ [CHR 0xE5, CHR 0xAF, CHR 0xAB, CHR 0xE5, CHR 0x85, CHR 0xA5, CHR 0xE5, CHR 0xA4,
        CHR 0xB1, CHR 0xE6, CHR 0x95, CHR 0x97]), int_dec (hb_spool_write_errors h)), ([], []),
          ((''Spool '' @ [CHR 0xE7, CHR 0xA9, CHR 0x8D, CHR 0xE5, CHR 0xA3,
        CHR 0x93]), format_bytes (hb_backlog_bytes h)), ((''Spool '' @ [CHR 0xE7, CHR 0xB8, CHR 0xBD,
        CHR 0xE9, CHR 0x87, CHR 0x8F]), format_bytes (hb_total_bytes h)),
          (([CHR 0xE7, CHR 0xA3, CHR 0x81, CHR 0xE7, CHR 0xA2, CHR 0x9F, CHR 0xE5, CHR 0x8F, CHR 0xAF,
        CHR 0xE7, CHR 0x94, CHR 0xA8, CHR 0xE7, CHR 0xA9, CHR 0xBA, CHR 0xE9, CHR 0x96,
        CHR 0x93]), format_bytes (hb_disk_free_bytes h)),
          (([CHR 0xE6, CHR 0x9C, CHR 0x80, CHR 0xE5, CHR 0xBE, CHR 0x8C, CHR 0xE8, CHR 0xBD, CHR 0x89,
        CHR 0xE9, CHR 0x80, CHR 0x81, CHR 0xE6, CHR 0x88, CHR 0x90, CHR 0xE5, CHR 0x8A,
        CHR 0x9F]), or_none (hb_last_forward_success_at h) ([CHR 0xE7, CHR 0x84, CHR 0xA1])),
          (([CHR 0xE6, CHR 0x9C, CHR 0x80, CHR 0xE5, CHR 0xBE, CHR 0x8C, CHR 0xE8, CHR 0xBD, CHR 0x89,
        CHR 0xE9, CHR 0x80, CHR 0x81, CHR 0xE9, CHR 0x8C, CHR 0xAF, CHR 0xE8, CHR 0xAA,
        CHR 0xA4]), or_none (hb_last_forward_error h) ([CHR 0xE7, CHR 0x84, CHR 0xA1])),
          (([CHR 0xE6, CHR 0x9C, CHR 0x80, CHR 0xE5, CHR 0xBE, CHR 0x8C, CHR 0xE5, CHR 0xBF, CHR 0x83,
        CHR 0xE8, CHR 0xB7, CHR 0xB3, CHR 0xE6, CHR 0x88, CHR 0x90, CHR 0xE5, CHR 0x8A,
        CHR 0x9F]), or_none (sf_last_heartbeat_at st) ([CHR 0xE7, CHR 0x84, CHR 0xA1])),
          (([CHR 0xE5, CHR 0xBF, CHR 0x83, CHR 0xE8, CHR 0xB7, CHR 0xB3, CHR 0xE9, CHR 0x8C, CHR 0xAF,
        CHR 0xE8, CHR 0xAA, CHR 0xA4]), or_none (sf_last_heartbeat_error st) ([CHR 0xE7, CHR 0x84, CHR 0xA1])),
          (([CHR 0xE7, CHR 0xB6, CHR 0x93, CHR 0xE7, CHR 0x94,
        CHR 0xB1] @ '' proxy''), if hb_proxy_in_use h then ([CHR 0xE6, CHR 0x98, CHR 0xAF, CHR 0xEF,
        CHR 0xBC, CHR 0x88]) @ cs_proxy_url (sf_config st) @ ([CHR 0xEF, CHR 0xBC,
        CHR 0x89]) else ([CHR 0xE5, CHR 0x90, CHR 0xA6])),
          (([CHR 0xE7, CHR 0xAB, CHR 0xAF, CHR 0xE9, CHR 0xBB,
        CHR 0x9E]), cs_endpoint (sf_config st)), (([CHR 0xE7, CHR 0x9B, CHR 0xA3, CHR 0xE8, CHR 0x81,
        CHR 0xBD]), cs_listen (sf_config st))])"

definition print_rows :: "(string \<times> string) list \<Rightarrow> bytes" where
  "print_rows rows =
     concat (map (\<lambda>(k, v). if k = [] then [nl] else print_row (k @ ([CHR 0xEF, CHR 0xBC, CHR 0x9A])) v) rows)"

text \<open>
  \<open>PrintStatus\<close>: what is printed and the exit code. The configuration is read only where there is
  no status file; the logs are those of the directory that is named.
\<close>

definition print_status ::
  "texts \<Rightarrow> (string \<Rightarrow> faults \<times> dir) \<Rightarrow> (string \<Rightarrow> load_error + agent_config) \<Rightarrow> gtime \<Rightarrow> string \<Rightarrow> status_read
   \<Rightarrow> bytes \<times> int" where
  "print_status tx logs load now path r =
     (case r of
        No_Status \<Rightarrow>
          (([CHR 0xE6, CHR 0x89, CHR 0xBE, CHR 0xE4, CHR 0xB8, CHR 0x8D, CHR 0xE5, CHR 0x88, CHR 0xB0,
        CHR 0xE7, CHR 0x8B, CHR 0x80, CHR 0xE6, CHR 0x85, CHR 0x8B, CHR 0xE6, CHR 0xAA,
        CHR 0x94] @ '' '') @ tx_status_path tx path @ ([CHR 0xEF, CHR 0xBC, CHR 0x8C, CHR 0xE6, CHR 0x9C,
        CHR 0x8D, CHR 0xE5, CHR 0x8B, CHR 0x99, CHR 0xE5, CHR 0x8F, CHR 0xAF, CHR 0xE8, CHR 0x83, CHR 0xBD,
        CHR 0xE6, CHR 0x9C, CHR 0xAA, CHR 0xE5, CHR 0x9F, CHR 0xB7, CHR 0xE8, CHR 0xA1, CHR 0x8C]) @ [nl, nl]
             @ (case load path of
                  Inl e \<Rightarrow> []
                | Inr c \<Rightarrow> log_location tx (logs (cf_log_dir c)) (cf_log_dir c)), 1)
      | Bad_Status e \<Rightarrow> (([CHR 0xE7, CHR 0x84, CHR 0xA1, CHR 0xE6, CHR 0xB3, CHR 0x95, CHR 0xE8,
        CHR 0xAE, CHR 0x80, CHR 0xE5, CHR 0x8F, CHR 0x96, CHR 0xE7, CHR 0x8B, CHR 0x80, CHR 0xE6, CHR 0x85,
        CHR 0x8B, CHR 0xE6, CHR 0xAA, CHR 0x94, CHR 0xEF, CHR 0xBC, CHR 0x9A]) @ e @ [nl], 1)
      | Good_Status st \<Rightarrow>
          let age = status_age now st; stale = stale_status < age; h = sf_heartbeat st; dir = cs_log_dir (sf_config st)
          in ((if stale
               then ([CHR 0xE2, CHR 0x9A, CHR 0xA0] @ '' '' @ [CHR 0xE7, CHR 0x8B, CHR 0x80, CHR 0xE6,
        CHR 0x85, CHR 0x8B, CHR 0xE6, CHR 0xAA, CHR 0x94, CHR 0xE5, CHR 0xB7,
        CHR 0xB2] @ '' '') @ duration_string (round_second age) @ ('' '' @ [CHR 0xE6, CHR 0x9C, CHR 0xAA,
        CHR 0xE6, CHR 0x9B, CHR 0xB4, CHR 0xE6, CHR 0x96, CHR 0xB0, CHR 0xEF, CHR 0xBC, CHR 0x8C, CHR 0xE6,
        CHR 0x9C, CHR 0x8D, CHR 0xE5, CHR 0x8B, CHR 0x99, CHR 0xE5, CHR 0x8F, CHR 0xAF, CHR 0xE8, CHR 0x83,
        CHR 0xBD, CHR 0xE6, CHR 0x9C, CHR 0xAA, CHR 0xE5, CHR 0x9F, CHR 0xB7, CHR 0xE8, CHR 0xA1,
        CHR 0x8C]) @ [nl, nl]
               else [])
              @ print_rows (status_rows st) @ [nl] @ log_location tx (logs dir) dir
              @ (if 0 < hb_disk_free_bytes h \<and> hb_disk_free_bytes h < low_disk_bytes
                 then [nl] @ ([CHR 0xE2, CHR 0x9A, CHR 0xA0] @ '' '' @ [CHR 0xE7, CHR 0xA3, CHR 0x81,
        CHR 0xE7, CHR 0xA2, CHR 0x9F, CHR 0xE5, CHR 0x8F, CHR 0xAF, CHR 0xE7, CHR 0x94, CHR 0xA8, CHR 0xE7,
        CHR 0xA9, CHR 0xBA, CHR 0xE9, CHR 0x96, CHR 0x93, CHR 0xE4, CHR 0xBD, CHR 0x8E, CHR 0xE6, CHR 0x96,
        CHR 0xBC] @ '' 1GB'') @ [nl] else [])
              @ (case sf_min_supported_version st of
                   None \<Rightarrow> []
                 | Some m \<Rightarrow>
                     if sf_upgrade_required st
                     then [nl] @ ([CHR 0xE2, CHR 0x9A, CHR 0xA0] @ '' '' @ [CHR 0xE7, CHR 0x9B, CHR 0xAE,
        CHR 0xE5, CHR 0x89, CHR 0x8D, CHR 0xE7, CHR 0x89, CHR 0x88, CHR 0xE6, CHR 0x9C,
        CHR 0xAC] @ '' '') @ hb_agent_version h @ ('' '' @ [CHR 0xE4, CHR 0xBD, CHR 0x8E, CHR 0xE6,
        CHR 0x96, CHR 0xBC, CHR 0xE6, CHR 0x8E, CHR 0xA5, CHR 0xE6, CHR 0x94, CHR 0xB6, CHR 0xE7, CHR 0xAB,
        CHR 0xAF, CHR 0xE6, CHR 0x9C, CHR 0x80, CHR 0xE4, CHR 0xBD, CHR 0x8E, CHR 0xE6, CHR 0x94, CHR 0xAF,
        CHR 0xE6, CHR 0x8F, CHR 0xB4, CHR 0xE7, CHR 0x89, CHR 0x88, CHR 0xE6, CHR 0x9C, CHR 0xAC] @ '' '') @ m
                          @ ([CHR 0xEF, CHR 0xBC, CHR 0x8C, CHR 0xE8, CHR 0xAB, CHR 0x8B, CHR 0xE9,
        CHR 0x87, CHR 0x8D, CHR 0xE6, CHR 0x96, CHR 0xB0, CHR 0xE5, CHR 0x9F, CHR 0xB7, CHR 0xE8, CHR 0xA1,
        CHR 0x8C, CHR 0xE5, CHR 0xAE, CHR 0x89, CHR 0xE8, CHR 0xA3, CHR 0x9D, CHR 0xE8, CHR 0x85, CHR 0xB3,
        CHR 0xE6, CHR 0x9C, CHR 0xAC, CHR 0xE5, CHR 0x8D, CHR 0x87, CHR 0xE7, CHR 0xB4, CHR 0x9A]) @ [nl]
                     else []),
              if stale then 1 else 0))"

end
