(* ===== verification/Cli_Test.thy ===== *)
theory Cli_Test
  imports Cli_Status
begin

text \<open>
  \<open>agent test\<close> of \<open>internal/agent/cli.go\<close> with the checks of \<open>platform_unix.go\<close>: each check prints
  a line and counts when it fails. What the system, the network and the libraries answer are
  parameters, with the texts of their errors.
\<close>

section \<open>The printer\<close>

record check_printer =
  cp_out :: bytes
  cp_failed :: int

definition check_ok :: "string \<Rightarrow> check_printer \<Rightarrow> check_printer" where
  "check_ok msg p = p\<lparr>cp_out := cp_out p @ (''['' @ [CHR 0xE2, CHR 0x9C,
        CHR 0x93] @ ''] '') @ msg @ [nl]\<rparr>"

definition check_fail :: "string \<Rightarrow> string list \<Rightarrow> check_printer \<Rightarrow> check_printer" where
  "check_fail msg advice p =
     p\<lparr>cp_failed := cp_failed p + 1,
       cp_out := cp_out p @ (''['' @ [CHR 0xE2, CHR 0x9C,
        CHR 0x97] @ ''] '') @ msg @ [nl] @ concat (map (\<lambda>s. ''    '' @ s @ [nl]) advice)\<rparr>"

section \<open>The platform\<close>

text \<open>
  \<open>ConfigPermissionTooWide\<close>: the permission bits of the file, which only the owner may have, or the
  error of \<open>Stat\<close>; \<open>%04o\<close> prints them in octal.
\<close>

definition octal4 :: "nat \<Rightarrow> string" where
  "octal4 m = map (\<lambda>k. digit_char (m div 8 ^ k mod 8)) [3, 2, 1, 0]"

definition config_permission :: "string + nat \<Rightarrow> string + bool \<times> string" where
  "config_permission st =
     (case st of
        Inl e \<Rightarrow> Inl e
      | Inr mode \<Rightarrow>
          let perm = mode mod 512
          in if perm mod 64 \<noteq> 0 then Inr (True, ([CHR 0xE6, CHR 0xAC, CHR 0x8A, CHR 0xE9, CHR 0x99,
        CHR 0x90, CHR 0xE7, CHR 0x82, CHR 0xBA] @ '' '') @ octal4 perm @ ([CHR 0xEF, CHR 0xBC, CHR 0x88,
        CHR 0xE6, CHR 0x87, CHR 0x89, CHR 0xE7, CHR 0x82, CHR 0xBA] @ '' 0600'' @ [CHR 0xEF, CHR 0xBC,
        CHR 0x89])) else Inr (False, []))"

definition permission_advice :: "string \<Rightarrow> string list" where
  "permission_advice path = [([CHR 0xE5, CHR 0xBB, CHR 0xBA, CHR 0xE8, CHR 0xAD, CHR 0xB0, CHR 0xEF,
        CHR 0xBC, CHR 0x9A, CHR 0xE4, CHR 0xBB, CHR 0xA5] @ '' root '' @ [CHR 0xE5, CHR 0x9F, CHR 0xB7,
        CHR 0xE8, CHR 0xA1, CHR 0x8C]), ''chmod 600 '' @ path]"

text \<open>\<open>DiskFree\<close>: the free blocks and their size as 64-bit numbers.\<close>

definition disk_free :: "string + int \<times> int \<Rightarrow> string + int" where
  "disk_free st =
     (case st of Inl e \<Rightarrow> Inl e | Inr (avail, bsize) \<Rightarrow> Inr ((avail * bsize + 2 ^ 63) mod 2 ^ 64 - 2 ^ 63))"

text \<open>\<open>strings.Contains\<close>\<close>

definition contains_text :: "string \<Rightarrow> string \<Rightarrow> bool" where
  "contains_text s t \<longleftrightarrow> (\<exists>k\<in>set [0..<Suc (length s)]. has_prefix (drop k s) t)"

text \<open>\<open>checkFirewall\<close>: whether there is \<open>ufw\<close>, and what it prints, with an error or not.\<close>

definition check_firewall :: "(string \<times> bool) option \<Rightarrow> int \<Rightarrow> check_printer \<Rightarrow> check_printer" where
  "check_firewall ufw port p =
     (case ufw of
        None \<Rightarrow> check_ok (([CHR 0xE6, CHR 0x9C, CHR 0xAA, CHR 0xE5, CHR 0x81, CHR 0xB5, CHR 0xE6,
        CHR 0xB8, CHR 0xAC, CHR 0xE5, CHR 0x88, CHR 0xB0] @ '' ufw'' @ [CHR 0xEF, CHR 0xBC, CHR 0x88,
        CHR 0xE8, CHR 0x8B, CHR 0xA5, CHR 0xE4, CHR 0xBD, CHR 0xBF, CHR 0xE7, CHR 0x94, CHR 0xA8, CHR 0xE5,
        CHR 0x85, CHR 0xB6, CHR 0xE4, CHR 0xBB, CHR 0x96, CHR 0xE9, CHR 0x98, CHR 0xB2, CHR 0xE7, CHR 0x81,
        CHR 0xAB, CHR 0xE7, CHR 0x89, CHR 0x86, CHR 0xEF, CHR 0xBC, CHR 0x8C, CHR 0xE8, CHR 0xAB, CHR 0x8B,
        CHR 0xE7, CHR 0xA2, CHR 0xBA, CHR 0xE8, CHR 0xAA, CHR 0x8D, CHR 0xE5, CHR 0xB7, CHR 0xB2, CHR 0xE5,
        CHR 0x85, CHR 0x81, CHR 0xE8, CHR 0xA8, CHR 0xB1] @ '' UDP '') @ int_dec port @ ([CHR 0xEF,
        CHR 0xBC, CHR 0x89])) p
      | Some (out, err) \<Rightarrow>
          if err then check_fail (([CHR 0xE7, CHR 0x84, CHR 0xA1, CHR 0xE6, CHR 0xB3, CHR 0x95, CHR 0xE6,
        CHR 0x9F, CHR 0xA5, CHR 0xE8, CHR 0xA9, CHR 0xA2] @ '' ufw '' @ [CHR 0xE7, CHR 0x8B, CHR 0x80,
        CHR 0xE6, CHR 0x85, CHR 0x8B, CHR 0xEF, CHR 0xBC, CHR 0x9A]) @ trim_space out) [([CHR 0xE5,
        CHR 0xBB, CHR 0xBA, CHR 0xE8, CHR 0xAD, CHR 0xB0, CHR 0xEF, CHR 0xBC, CHR 0x9A, CHR 0xE4, CHR 0xBB,
        CHR 0xA5] @ '' root '' @ [CHR 0xE5, CHR 0x9F, CHR 0xB7, CHR 0xE8, CHR 0xA1, CHR 0x8C] @ '' agent test'')] p
          else if \<not> contains_text out ''Status: active'' then check_ok (''ufw '' @ [CHR 0xE6, CHR 0x9C,
        CHR 0xAA, CHR 0xE5, CHR 0x95, CHR 0x9F, CHR 0xE7, CHR 0x94, CHR 0xA8]) p
          else if contains_text out (int_dec port @ ''/udp'')
          then check_ok (([CHR 0xE9, CHR 0x98, CHR 0xB2, CHR 0xE7, CHR 0x81, CHR 0xAB, CHR 0xE7, CHR 0x89,
        CHR 0x86, CHR 0xEF, CHR 0xBC, CHR 0x88] @ ''ufw'' @ [CHR 0xEF, CHR 0xBC, CHR 0x89, CHR 0xE5,
        CHR 0xB7, CHR 0xB2, CHR 0xE5, CHR 0x85, CHR 0x81, CHR 0xE8, CHR 0xA8, CHR 0xB1] @ '' UDP '') @ int_dec port) p
          else check_fail ([CHR 0xE9, CHR 0x98, CHR 0xB2, CHR 0xE7, CHR 0x81, CHR 0xAB, CHR 0xE7, CHR 0x89,
        CHR 0x86, CHR 0xE8, CHR 0xA6, CHR 0x8F, CHR 0xE5, CHR 0x89, CHR 0x87, CHR 0xE4, CHR 0xB8, CHR 0x8D,
        CHR 0xE5, CHR 0xAD, CHR 0x98, CHR 0xE5, CHR 0x9C, CHR 0xA8]) [([CHR 0xE5, CHR 0xBB, CHR 0xBA,
        CHR 0xE8, CHR 0xAD, CHR 0xB0, CHR 0xEF, CHR 0xBC, CHR 0x9A, CHR 0xE4, CHR 0xBB,
        CHR 0xA5] @ '' root '' @ [CHR 0xE5, CHR 0x9F, CHR 0xB7, CHR 0xE8, CHR 0xA1,
        CHR 0x8C]), ''ufw allow '' @ int_dec port @ ''/udp''] p)"

text \<open>\<open>checkWritable\<close>: a file is created and removed.\<close>

definition check_writable :: "string option \<Rightarrow> string option \<Rightarrow> string option" where
  "check_writable create_error remove_error = (case create_error of Some e \<Rightarrow> Some e | None \<Rightarrow> remove_error)"

section \<open>The connection\<close>

text \<open>A host that is connected to, as \<open>net/url\<close> shows it.\<close>

record target =
  tg_hostname :: string
  tg_port :: string
  tg_scheme :: string
  tg_redacted :: string

text \<open>The types that \<open>errors.As\<close> finds in an error.\<close>

datatype error_type = CertificateVerification | UnknownAuthority | HostnameMismatch | CertificateInvalid | OtherType

definition is_cert_error :: "error_type list \<Rightarrow> bool" where
  "is_cert_error ts \<longleftrightarrow>
     CertificateVerification \<in> set ts \<or> UnknownAuthority \<in> set ts \<or> HostnameMismatch \<in> set ts
     \<or> CertificateInvalid \<in> set ts"

record network =
  nw_endpoint :: target
  nw_proxy :: "string + target option"
  nw_lookup :: "string \<Rightarrow> string + string list"
  nw_dial :: "string \<Rightarrow> string \<Rightarrow> string option"
  nw_request :: "http_request \<Rightarrow> reply"
  nw_error_types :: "string \<Rightarrow> error_type list"
  nw_now :: gtime

definition default_port :: "target \<Rightarrow> string" where
  "default_port t =
     (if tg_port t \<noteq> [] then tg_port t else if tg_scheme t = ''http'' then ''80'' else ''443'')"

text \<open>
  \<open>Seconds()\<close> as float64, in units of \<open>2 ^ -141\<close>: the whole seconds and the rounded fraction, added
  and rounded.
\<close>

definition float_unit :: int where "float_unit = 2 ^ 141"

definition float_seconds :: "duration \<Rightarrow> int" where
  "float_seconds d =
     (let s = (\<lambda>d. round53 ((d div second) * float_unit + float_ratio (d mod second) second))
      in if d < 0 then - s (- d) else s d)"

text \<open>The time of the server in the answer of \<open>/healthz\<close>.\<close>

definition server_time :: "bytes \<Rightarrow> gtime option" where
  "server_time body =
     (case unmarshal (store_struct [''server_time''] (\<lambda>f. store_string)) body [] of
        None \<Rightarrow> None | Some s \<Rightarrow> time_parse rfc3339_layout s)"

definition check_skew :: "gtime \<Rightarrow> bytes \<Rightarrow> check_printer \<Rightarrow> check_printer" where
  "check_skew now body p =
     (case server_time body of
        None \<Rightarrow> check_fail ([CHR 0xE7, CHR 0x84, CHR 0xA1, CHR 0xE6, CHR 0xB3, CHR 0x95,
        CHR 0xE5, CHR 0xBE, CHR 0x9E] @ '' /healthz '' @ [CHR 0xE5, CHR 0x8F, CHR 0x96, CHR 0xE5, CHR 0xBE,
        CHR 0x97, CHR 0xE4, CHR 0xBC, CHR 0xBA, CHR 0xE6, CHR 0x9C, CHR 0x8D, CHR 0xE5, CHR 0x99, CHR 0xA8,
        CHR 0xE6, CHR 0x99, CHR 0x82, CHR 0xE9, CHR 0x96, CHR 0x93]) [] p
      | Some t \<Rightarrow>
          let skew = float_seconds (time_sub now t); text = format_tenths skew float_unit
          in if 300 * float_unit < skew \<or> skew < - (300 * float_unit)
             then check_fail (([CHR 0xE6, CHR 0x99, CHR 0x82, CHR 0xE9, CHR 0x96, CHR 0x93, CHR 0xE5,
        CHR 0x81, CHR 0x8F, CHR 0xE5, CHR 0xB7, CHR 0xAE] @ '' '') @ text @ ('' '' @ [CHR 0xE7, CHR 0xA7,
        CHR 0x92, CHR 0xEF, CHR 0xBC, CHR 0x88, CHR 0xE8, CHR 0xB6, CHR 0x85, CHR 0xE9, CHR 0x81,
        CHR 0x8E] @ '' 5 '' @ [CHR 0xE5, CHR 0x88, CHR 0x86, CHR 0xE9, CHR 0x90, CHR 0x98, CHR 0xEF,
        CHR 0xBC, CHR 0x89]))
                    [([CHR 0xE5, CHR 0xBB, CHR 0xBA, CHR 0xE8, CHR 0xAD, CHR 0xB0, CHR 0xEF, CHR 0xBC,
        CHR 0x9A, CHR 0xE6, CHR 0xA0, CHR 0xA1, CHR 0xE6, CHR 0xAD, CHR 0xA3, CHR 0xE7, CHR 0xB3, CHR 0xBB,
        CHR 0xE7, CHR 0xB5, CHR 0xB1, CHR 0xE6, CHR 0x99, CHR 0x82, CHR 0xE9, CHR 0x96, CHR 0x93, CHR 0xEF,
        CHR 0xBC, CHR 0x88] @ ''Windows'' @ [CHR 0xEF, CHR 0xBC, CHR 0x9A] @ ''w32tm /resync'' @ [CHR 0xEF,
        CHR 0xBC, CHR 0x9B] @ ''Linux'' @ [CHR 0xEF, CHR 0xBC, CHR 0x9A] @ ''timedatectl'' @ [CHR 0xEF,
        CHR 0xBC, CHR 0x89])] p
             else check_ok (([CHR 0xE6, CHR 0x99, CHR 0x82, CHR 0xE9, CHR 0x96, CHR 0x93, CHR 0xE5,
        CHR 0x81, CHR 0x8F, CHR 0xE5, CHR 0xB7, CHR 0xAE] @ '' '') @ text @ ('' '' @ [CHR 0xE7, CHR 0xA7,
        CHR 0x92])) p)"

definition check_reply :: "agent_config \<Rightarrow> network \<Rightarrow> check_printer \<Rightarrow> check_printer" where
  "check_reply c nw p =
     (case get c (nw_request nw) ''/healthz'' of
        Inl e \<Rightarrow>
          if is_cert_error (nw_error_types nw e)
          then check_fail ((''TLS '' @ [CHR 0xE6, CHR 0x86, CHR 0x91, CHR 0xE8, CHR 0xAD, CHR 0x89,
        CHR 0xE9, CHR 0x8C, CHR 0xAF, CHR 0xE8, CHR 0xAA, CHR 0xA4, CHR 0xEF, CHR 0xBC, CHR 0x9A]) @ e)
                 [([CHR 0xE5, CHR 0xBB, CHR 0xBA, CHR 0xE8, CHR 0xAD, CHR 0xB0, CHR 0xEF, CHR 0xBC,
        CHR 0x9A, CHR 0xE7, CHR 0xA2, CHR 0xBA, CHR 0xE8, CHR 0xAA, CHR 0x8D, CHR 0xE7, CHR 0xB3, CHR 0xBB,
        CHR 0xE7, CHR 0xB5, CHR 0xB1, CHR 0xE6, CHR 0x99, CHR 0x82, CHR 0xE9, CHR 0x96, CHR 0x93, CHR 0xE6,
        CHR 0xAD, CHR 0xA3, CHR 0xE7, CHR 0xA2, CHR 0xBA, CHR 0xE3, CHR 0x80, CHR 0x81, CHR 0xE7, CHR 0xB6,
        CHR 0xB2, CHR 0xE8, CHR 0xB7, CHR 0xAF, CHR 0xE4, CHR 0xB8, CHR 0xAD, CHR 0xE6, CHR 0xB2, CHR 0x92,
        CHR 0xE6, CHR 0x9C, CHR 0x89] @ '' SSL '' @ [CHR 0xE6, CHR 0xAA, CHR 0xA2, CHR 0xE6, CHR 0xB8,
        CHR 0xAC, CHR 0xE8, CHR 0xA8, CHR 0xAD, CHR 0xE5, CHR 0x82, CHR 0x99, CHR 0xE6, CHR 0x9B, CHR 0xBF,
        CHR 0xE6, CHR 0x8F, CHR 0x9B, CHR 0xE6, CHR 0x86, CHR 0x91, CHR 0xE8, CHR 0xAD, CHR 0x89, CHR 0xE3,
        CHR 0x80, CHR 0x81, CHR 0xE7, CHR 0xAB, CHR 0xAF, CHR 0xE9, CHR 0xBB, CHR 0x9E, CHR 0xE6, CHR 0x86,
        CHR 0x91, CHR 0xE8, CHR 0xAD, CHR 0x89, CHR 0xE6, CHR 0x9C, CHR 0xAA, CHR 0xE9, CHR 0x81, CHR 0x8E,
        CHR 0xE6, CHR 0x9C, CHR 0x9F, CHR 0xE4, CHR 0xB8, CHR 0x94, CHR 0xE4, CHR 0xB8, CHR 0xBB, CHR 0xE6,
        CHR 0xA9, CHR 0x9F, CHR 0xE5, CHR 0x90, CHR 0x8D, CHR 0xE7, CHR 0xA8, CHR 0xB1, CHR 0xE7, CHR 0x9B,
        CHR 0xB8, CHR 0xE7, CHR 0xAC, CHR 0xA6])] p
          else check_fail ((''HTTPS '' @ [CHR 0xE9, CHR 0x80, CHR 0xA3, CHR 0xE7, CHR 0xB7, CHR 0x9A,
        CHR 0xE5, CHR 0xA4, CHR 0xB1, CHR 0xE6, CHR 0x95, CHR 0x97, CHR 0xEF, CHR 0xBC, CHR 0x9A]) @ e)
                 [([CHR 0xE5, CHR 0xBB, CHR 0xBA, CHR 0xE8, CHR 0xAD, CHR 0xB0, CHR 0xEF, CHR 0xBC,
        CHR 0x9A, CHR 0xE7, CHR 0xA2, CHR 0xBA, CHR 0xE8, CHR 0xAA, CHR 0x8D, CHR 0xE7, CHR 0xAB, CHR 0xAF,
        CHR 0xE9, CHR 0xBB, CHR 0x9E, CHR 0xE7, CHR 0xB6, CHR 0xB2, CHR 0xE5, CHR 0x9D, CHR 0x80, CHR 0xE8,
        CHR 0x88, CHR 0x87, CHR 0xE5, CHR 0x9F, CHR 0xA0, CHR 0xE8, CHR 0x99, CHR 0x9F, CHR 0xE6, CHR 0xAD,
        CHR 0xA3, CHR 0xE7, CHR 0xA2, CHR 0xBA, CHR 0xEF, CHR 0xBC, CHR 0x9B, CHR 0xE8, CHR 0x8B, CHR 0xA5,
        CHR 0xE7, CHR 0xB6, CHR 0x93, CHR 0xE7, CHR 0x94, CHR 0xB1] @ '' proxy'' @ [CHR 0xEF, CHR 0xBC,
        CHR 0x8C, CHR 0xE7, CHR 0xA2, CHR 0xBA, CHR 0xE8, CHR 0xAA, CHR 0x8D] @ '' proxy '' @ [CHR 0xE5,
        CHR 0x85, CHR 0x81, CHR 0xE8, CHR 0xA8, CHR 0xB1] @ '' CONNECT '' @ [CHR 0xE5, CHR 0x88, CHR 0xB0,
        CHR 0xE7, CHR 0xAB, CHR 0xAF, CHR 0xE9, CHR 0xBB, CHR 0x9E])] p
      | Inr r \<Rightarrow>
          let p = check_ok (''TLS '' @ [CHR 0xE9, CHR 0x80, CHR 0xA3, CHR 0xE7, CHR 0xB7, CHR 0x9A,
        CHR 0xE5, CHR 0xBB, CHR 0xBA, CHR 0xE7, CHR 0xAB, CHR 0x8B, CHR 0xE6, CHR 0x88, CHR 0x90, CHR 0xE5,
        CHR 0x8A, CHR 0x9F, CHR 0xEF, CHR 0xBC, CHR 0x8C, CHR 0xE6, CHR 0x86, CHR 0x91, CHR 0xE8, CHR 0xAD,
        CHR 0x89, CHR 0xE6, CHR 0x9C, CHR 0x89, CHR 0xE6, CHR 0x95, CHR 0x88]) p
          in if rs_status r = 401
             then check_fail (''Token '' @ [CHR 0xE9, CHR 0xA9, CHR 0x97, CHR 0xE8, CHR 0xAD, CHR 0x89,
        CHR 0xE5, CHR 0xA4, CHR 0xB1, CHR 0xE6, CHR 0x95, CHR 0x97, CHR 0xEF, CHR 0xBC,
        CHR 0x88] @ ''HTTP 401'' @ [CHR 0xEF, CHR 0xBC, CHR 0x89]) [([CHR 0xE5, CHR 0xBB, CHR 0xBA,
        CHR 0xE8, CHR 0xAD, CHR 0xB0, CHR 0xEF, CHR 0xBC, CHR 0x9A, CHR 0xE7, CHR 0xA2, CHR 0xBA, CHR 0xE8,
        CHR 0xAA, CHR 0x8D] @ '' token '' @ [CHR 0xE6, CHR 0xAD, CHR 0xA3, CHR 0xE7, CHR 0xA2, CHR 0xBA,
        CHR 0xEF, CHR 0xBC, CHR 0x8C, CHR 0xE6, CHR 0x88, CHR 0x96, CHR 0xE5, CHR 0x90, CHR 0x91, CHR 0xE6,
        CHR 0x8E, CHR 0xA5, CHR 0xE6, CHR 0x94, CHR 0xB6, CHR 0xE7, CHR 0xAB, CHR 0xAF, CHR 0xE7, CHR 0xAE,
        CHR 0xA1, CHR 0xE7, CHR 0x90, CHR 0x86, CHR 0xE8, CHR 0x80, CHR 0x85, CHR 0xE7, CHR 0xA2, CHR 0xBA,
        CHR 0xE8, CHR 0xAA, CHR 0x8D] @ '' token '' @ [CHR 0xE6, CHR 0x9C, CHR 0xAA, CHR 0xE8, CHR 0xA2,
        CHR 0xAB, CHR 0xE6, CHR 0x92, CHR 0xA4, CHR 0xE9, CHR 0x8A, CHR 0xB7])] p
             else if rs_status r < 200 \<or> 300 \<le> rs_status r
             then check_fail (([CHR 0xE7, CHR 0xAB, CHR 0xAF, CHR 0xE9, CHR 0xBB, CHR 0x9E, CHR 0xE5,
        CHR 0x9B, CHR 0x9E, CHR 0xE6, CHR 0x87,
        CHR 0x89] @ '' HTTP '') @ int_dec (rs_status r) @ ([CHR 0xEF, CHR 0xBC,
        CHR 0x9A]) @ summarize_body (rs_body r))
                    [([CHR 0xE5, CHR 0xBB, CHR 0xBA, CHR 0xE8, CHR 0xAD, CHR 0xB0, CHR 0xEF, CHR 0xBC,
        CHR 0x9A, CHR 0xE7, CHR 0xA2, CHR 0xBA, CHR 0xE8, CHR 0xAA, CHR 0x8D] @ '' endpoint '' @ [CHR 0xE7,
        CHR 0x82, CHR 0xBA, CHR 0xE6, CHR 0x8E, CHR 0xA5, CHR 0xE6, CHR 0x94, CHR 0xB6, CHR 0xE7, CHR 0xAB,
        CHR 0xAF, CHR 0xE7, CHR 0x9A, CHR 0x84, CHR 0xE6, CHR 0xA0, CHR 0xB9, CHR 0xE7, CHR 0xB6, CHR 0xB2,
        CHR 0xE5, CHR 0x9D, CHR 0x80, CHR 0xEF, CHR 0xBC, CHR 0x88, CHR 0xE4, CHR 0xB8, CHR 0x8D, CHR 0xE5,
        CHR 0x90, CHR 0xAB] @ '' /events'' @ [CHR 0xEF, CHR 0xBC, CHR 0x89])] p
             else check_skew (nw_now nw) (rs_body r) (check_ok (''Token '' @ [CHR 0xE9, CHR 0xA9, CHR 0x97,
        CHR 0xE8, CHR 0xAD, CHR 0x89, CHR 0xE9, CHR 0x80, CHR 0x9A, CHR 0xE9, CHR 0x81, CHR 0x8E]) p))"

definition check_target :: "agent_config \<Rightarrow> network \<Rightarrow> target \<Rightarrow> string \<Rightarrow> check_printer \<Rightarrow> check_printer" where
  "check_target c nw t label p =
     (let host = tg_hostname t; port = default_port t
      in case nw_lookup nw host of
           Inl e \<Rightarrow>
             check_fail (label @ ('' DNS '' @ [CHR 0xE8, CHR 0xA7, CHR 0xA3, CHR 0xE6, CHR 0x9E, CHR 0x90,
        CHR 0xE5, CHR 0xA4, CHR 0xB1, CHR 0xE6, CHR 0x95, CHR 0x97, CHR 0xEF, CHR 0xBC,
        CHR 0x88]) @ host @ ([CHR 0xEF, CHR 0xBC, CHR 0x89, CHR 0xEF, CHR 0xBC, CHR 0x9A]) @ e)
               [([CHR 0xE5, CHR 0xBB, CHR 0xBA, CHR 0xE8, CHR 0xAD, CHR 0xB0, CHR 0xEF, CHR 0xBC, CHR 0x9A,
        CHR 0xE7, CHR 0xA2, CHR 0xBA, CHR 0xE8, CHR 0xAA, CHR 0x8D, CHR 0xE7, CHR 0xB6, CHR 0xB2, CHR 0xE5,
        CHR 0x9D, CHR 0x80, CHR 0xE6, CHR 0x8B, CHR 0xBC, CHR 0xE5, CHR 0xAD, CHR 0x97, CHR 0xE6, CHR 0xAD,
        CHR 0xA3, CHR 0xE7, CHR 0xA2, CHR 0xBA, CHR 0xEF, CHR 0xBC, CHR 0x8C, CHR 0xE4, CHR 0xB8, CHR 0xA6,
        CHR 0xE7, CHR 0xA2, CHR 0xBA, CHR 0xE8, CHR 0xAA, CHR 0x8D, CHR 0xE6, CHR 0xAD, CHR 0xA4, CHR 0xE4,
        CHR 0xB8, CHR 0xBB, CHR 0xE6, CHR 0xA9, CHR 0x9F, CHR 0xE7, CHR 0x9A,
        CHR 0x84] @ '' DNS '' @ [CHR 0xE8, CHR 0xA8, CHR 0xAD, CHR 0xE5, CHR 0xAE, CHR 0x9A, CHR 0xE5,
        CHR 0x8F, CHR 0xAF, CHR 0xE7, CHR 0x94, CHR 0xA8, CHR 0xEF, CHR 0xBC,
        CHR 0x88] @ ''nslookup '') @ host @ ([CHR 0xEF, CHR 0xBC, CHR 0x89])] p
         | Inr addrs \<Rightarrow>
             let p = check_ok (label @ ('' DNS '' @ [CHR 0xE8, CHR 0xA7, CHR 0xA3, CHR 0xE6, CHR 0x9E,
        CHR 0x90, CHR 0xE6, CHR 0x88, CHR 0x90, CHR 0xE5, CHR 0x8A,
        CHR 0x9F] @ '' ('') @ host @ ('' '' @ [CHR 0xE2, CHR 0x86, CHR 0x92] @ '' '') @ join addrs '', '' @ '')'') p
             in case nw_dial nw host port of
                  Some e \<Rightarrow>
                    check_fail (label @ ('' TCP '' @ [CHR 0xE9, CHR 0x80, CHR 0xA3, CHR 0xE7, CHR 0xB7,
        CHR 0x9A, CHR 0xE5, CHR 0xA4, CHR 0xB1, CHR 0xE6, CHR 0x95, CHR 0x97, CHR 0xEF, CHR 0xBC,
        CHR 0x88]) @ host @ '':'' @ port @ ([CHR 0xEF, CHR 0xBC, CHR 0x89, CHR 0xEF, CHR 0xBC, CHR 0x9A]) @ e)
                      [([CHR 0xE5, CHR 0xBB, CHR 0xBA, CHR 0xE8, CHR 0xAD, CHR 0xB0, CHR 0xEF, CHR 0xBC,
        CHR 0x9A, CHR 0xE7, CHR 0xA2, CHR 0xBA, CHR 0xE8, CHR 0xAA, CHR 0x8D, CHR 0xE5, CHR 0xB0, CHR 0x8D,
        CHR 0xE5, CHR 0xA4, CHR 0x96, CHR 0xE9, CHR 0x98, CHR 0xB2, CHR 0xE7, CHR 0x81, CHR 0xAB, CHR 0xE7,
        CHR 0x89, CHR 0x86, CHR 0xE5, CHR 0x85, CHR 0x81, CHR 0xE8, CHR 0xA8, CHR 0xB1, CHR 0xE9, CHR 0x80,
        CHR 0xA3, CHR 0xE7, CHR 0xB7, CHR 0x9A, CHR 0xE5, CHR 0x88, CHR 0xB0, CHR 0xE6, CHR 0xAD, CHR 0xA4,
        CHR 0xE5, CHR 0x9F, CHR 0xA0, CHR 0xEF, CHR 0xBC, CHR 0x8C, CHR 0xE4, CHR 0xB8, CHR 0x94, CHR 0xE6,
        CHR 0x9C, CHR 0x8D, CHR 0xE5, CHR 0x8B, CHR 0x99, CHR 0xE6, CHR 0xAD, CHR 0xA3, CHR 0xE5, CHR 0x9C,
        CHR 0xA8, CHR 0xE5, CHR 0x9F, CHR 0xB7, CHR 0xE8, CHR 0xA1, CHR 0x8C])] p
                | None \<Rightarrow>
                    check_reply c nw (check_ok (label @ ('' TCP '' @ [CHR 0xE9, CHR 0x80, CHR 0xA3,
        CHR 0xE7, CHR 0xB7, CHR 0x9A, CHR 0xE6, CHR 0x88, CHR 0x90, CHR 0xE5, CHR 0x8A,
        CHR 0x9F] @ '' ('') @ host @ '':'' @ port @ '')'') p))"

definition check_connectivity :: "agent_config \<Rightarrow> network \<Rightarrow> check_printer \<Rightarrow> check_printer" where
  "check_connectivity c nw p =
     (case nw_proxy nw of
        Inl e \<Rightarrow> check_fail ((''proxy '' @ [CHR 0xE8, CHR 0xA8, CHR 0xAD, CHR 0xE5, CHR 0xAE,
        CHR 0x9A, CHR 0xE9, CHR 0x8C, CHR 0xAF, CHR 0xE8, CHR 0xAA, CHR 0xA4, CHR 0xEF, CHR 0xBC, CHR 0x9A]) @ e) [] p
      | Inr (Some proxy) \<Rightarrow>
          check_target c nw proxy ''Proxy''
            (check_ok (([CHR 0xE7, CHR 0xB6, CHR 0x93, CHR 0xE7, CHR 0x94,
        CHR 0xB1] @ '' proxy '' @ [CHR 0xE9, CHR 0x80, CHR 0xA3, CHR 0xE7, CHR 0xB7, CHR 0x9A, CHR 0xEF,
        CHR 0xBC, CHR 0x9A]) @ tg_redacted proxy @ ([CHR 0xEF, CHR 0xBC, CHR 0x88, CHR 0xE4, CHR 0xBE,
        CHR 0x86, CHR 0xE6, CHR 0xBA, CHR 0x90, CHR 0xEF, CHR 0xBC, CHR 0x9A])
               @ (if cf_proxy_url c = [] then ([CHR 0xE7, CHR 0x92, CHR 0xB0, CHR 0xE5, CHR 0xA2, CHR 0x83,
        CHR 0xE8, CHR 0xAE, CHR 0x8A, CHR 0xE6, CHR 0x95, CHR 0xB8]) else ([CHR 0xE8, CHR 0xA8, CHR 0xAD,
        CHR 0xE5, CHR 0xAE, CHR 0x9A, CHR 0xE6, CHR 0xAA, CHR 0x94])) @ ([CHR 0xEF, CHR 0xBC, CHR 0x89])) p)
      | Inr None \<Rightarrow>
          check_target c nw (nw_endpoint nw) ([CHR 0xE7, CHR 0xAB, CHR 0xAF, CHR 0xE9, CHR 0xBB,
        CHR 0x9E]) (check_ok ([CHR 0xE7, CHR 0x9B, CHR 0xB4, CHR 0xE6, CHR 0x8E, CHR 0xA5, CHR 0xE9,
        CHR 0x80, CHR 0xA3, CHR 0xE7, CHR 0xB7, CHR 0x9A, CHR 0xEF, CHR 0xBC, CHR 0x88, CHR 0xE6, CHR 0x9C,
        CHR 0xAA, CHR 0xE4, CHR 0xBD, CHR 0xBF, CHR 0xE7, CHR 0x94, CHR 0xA8] @ '' proxy'' @ [CHR 0xEF,
        CHR 0xBC, CHR 0x89]) p))"

section \<open>All checks\<close>

text \<open>What the checks meet on the host.\<close>

record survey =
  sv_mode :: "string + nat"
  sv_create :: "string option"
  sv_remove :: "string option"
  sv_disk :: "string + int \<times> int"
  sv_bind :: "string option"
  sv_status :: status_read
  sv_client :: "string option"
  sv_network :: network
  sv_ufw :: "(string \<times> bool) option"

definition check_config_permission :: "string \<Rightarrow> survey \<Rightarrow> check_printer \<Rightarrow> check_printer" where
  "check_config_permission path sv p =
     (case config_permission (sv_mode sv) of
        Inl e \<Rightarrow> check_fail (([CHR 0xE7, CHR 0x84, CHR 0xA1, CHR 0xE6, CHR 0xB3, CHR 0x95,
        CHR 0xE6, CHR 0xAA, CHR 0xA2, CHR 0xE6, CHR 0x9F, CHR 0xA5, CHR 0xE8, CHR 0xA8, CHR 0xAD, CHR 0xE5,
        CHR 0xAE, CHR 0x9A, CHR 0xE6, CHR 0xAA, CHR 0x94, CHR 0xE6, CHR 0xAC, CHR 0x8A, CHR 0xE9, CHR 0x99,
        CHR 0x90, CHR 0xEF, CHR 0xBC, CHR 0x9A]) @ e) [] p
      | Inr (True, detail) \<Rightarrow> check_fail (([CHR 0xE8, CHR 0xA8, CHR 0xAD, CHR 0xE5, CHR 0xAE,
        CHR 0x9A, CHR 0xE6, CHR 0xAA, CHR 0x94, CHR 0xE6, CHR 0xAC, CHR 0x8A, CHR 0xE9, CHR 0x99, CHR 0x90,
        CHR 0xE9, CHR 0x81, CHR 0x8E, CHR 0xE5, CHR 0xAF, CHR 0xAC, CHR 0xEF, CHR 0xBC,
        CHR 0x9A]) @ detail) (permission_advice path) p
      | Inr (False, detail) \<Rightarrow> check_ok ([CHR 0xE8, CHR 0xA8, CHR 0xAD, CHR 0xE5, CHR 0xAE,
        CHR 0x9A, CHR 0xE6, CHR 0xAA, CHR 0x94, CHR 0xE6, CHR 0xAC, CHR 0x8A, CHR 0xE9, CHR 0x99, CHR 0x90,
        CHR 0xE5, CHR 0xAE, CHR 0x89, CHR 0xE5, CHR 0x85, CHR 0xA8]) p)"

definition check_spool :: "agent_config \<Rightarrow> survey \<Rightarrow> check_printer \<Rightarrow> check_printer" where
  "check_spool c sv p =
     (case check_writable (sv_create sv) (sv_remove sv) of
        Some e \<Rightarrow>
          check_fail ((''Spool '' @ [CHR 0xE7, CHR 0x9B, CHR 0xAE, CHR 0xE9, CHR 0x8C, CHR 0x84, CHR 0xE7,
        CHR 0x84, CHR 0xA1, CHR 0xE6, CHR 0xB3, CHR 0x95, CHR 0xE5, CHR 0xAF, CHR 0xAB, CHR 0xE5, CHR 0x85,
        CHR 0xA5, CHR 0xEF, CHR 0xBC, CHR 0x9A]) @ e)
            [([CHR 0xE5, CHR 0xBB, CHR 0xBA, CHR 0xE8, CHR 0xAD, CHR 0xB0, CHR 0xEF, CHR 0xBC, CHR 0x9A,
        CHR 0xE7, CHR 0xA2, CHR 0xBA, CHR 0xE8, CHR 0xAA, CHR 0x8D, CHR 0xE7, CHR 0x9B, CHR 0xAE, CHR 0xE9,
        CHR 0x8C, CHR 0x84, CHR 0xE5, CHR 0xAD, CHR 0x98, CHR 0xE5, CHR 0x9C, CHR 0xA8, CHR 0xE4, CHR 0xB8,
        CHR 0x94, CHR 0xE6, CHR 0x9C, CHR 0x8D, CHR 0xE5, CHR 0x8B, CHR 0x99, CHR 0xE5, CHR 0xB8, CHR 0xB3,
        CHR 0xE8, CHR 0x99, CHR 0x9F, CHR 0xE5, CHR 0x85, CHR 0xB7, CHR 0xE5, CHR 0xAF, CHR 0xAB, CHR 0xE5,
        CHR 0x85, CHR 0xA5, CHR 0xE6, CHR 0xAC, CHR 0x8A, CHR 0xE9, CHR 0x99, CHR 0x90, CHR 0xEF, CHR 0xBC,
        CHR 0x88, CHR 0xE9, CHR 0x87, CHR 0x8D, CHR 0xE6, CHR 0x96, CHR 0xB0, CHR 0xE5, CHR 0x9F, CHR 0xB7,
        CHR 0xE8, CHR 0xA1, CHR 0x8C, CHR 0xE5, CHR 0xAE, CHR 0x89, CHR 0xE8, CHR 0xA3, CHR 0x9D, CHR 0xE8,
        CHR 0x85, CHR 0xB3, CHR 0xE6, CHR 0x9C, CHR 0xAC, CHR 0xE6, CHR 0x9C, CHR 0x83, CHR 0xE8, CHR 0x87,
        CHR 0xAA, CHR 0xE5, CHR 0x8B, CHR 0x95, CHR 0xE5, CHR 0xBB, CHR 0xBA, CHR 0xE7, CHR 0xAB, CHR 0x8B,
        CHR 0xEF, CHR 0xBC, CHR 0x89])] p
      | None \<Rightarrow> check_ok ((''Spool '' @ [CHR 0xE7, CHR 0x9B, CHR 0xAE, CHR 0xE9, CHR 0x8C,
        CHR 0x84, CHR 0xE5, CHR 0x8F, CHR 0xAF, CHR 0xE5, CHR 0xAF, CHR 0xAB, CHR 0xE5, CHR 0x85, CHR 0xA5,
        CHR 0xEF, CHR 0xBC, CHR 0x88]) @ cf_spool_dir c @ ([CHR 0xEF, CHR 0xBC, CHR 0x89])) p)"

definition check_disk :: "survey \<Rightarrow> check_printer \<Rightarrow> check_printer" where
  "check_disk sv p =
     (case disk_free (sv_disk sv) of
        Inl e \<Rightarrow> check_fail (([CHR 0xE7, CHR 0x84, CHR 0xA1, CHR 0xE6, CHR 0xB3, CHR 0x95,
        CHR 0xE5, CHR 0x8F, CHR 0x96, CHR 0xE5, CHR 0xBE, CHR 0x97, CHR 0xE7, CHR 0xA3, CHR 0x81, CHR 0xE7,
        CHR 0xA2, CHR 0x9F, CHR 0xE5, CHR 0x8F, CHR 0xAF, CHR 0xE7, CHR 0x94, CHR 0xA8, CHR 0xE7, CHR 0xA9,
        CHR 0xBA, CHR 0xE9, CHR 0x96, CHR 0x93, CHR 0xEF, CHR 0xBC, CHR 0x9A]) @ e) [] p
      | Inr free \<Rightarrow>
          if free < low_disk_bytes
          then check_fail (([CHR 0xE7, CHR 0xA3, CHR 0x81, CHR 0xE7, CHR 0xA2, CHR 0x9F, CHR 0xE5, CHR 0x8F,
        CHR 0xAF, CHR 0xE7, CHR 0x94, CHR 0xA8, CHR 0xE7, CHR 0xA9, CHR 0xBA, CHR 0xE9, CHR 0x96, CHR 0x93,
        CHR 0xE4, CHR 0xB8, CHR 0x8D, CHR 0xE8, CHR 0xB6, CHR 0xB3] @ '' 1GB'' @ [CHR 0xEF, CHR 0xBC,
        CHR 0x88]) @ format_bytes free @ ([CHR 0xEF, CHR 0xBC, CHR 0x89])) [([CHR 0xE5, CHR 0xBB, CHR 0xBA,
        CHR 0xE8, CHR 0xAD, CHR 0xB0, CHR 0xEF, CHR 0xBC, CHR 0x9A, CHR 0xE6, CHR 0xB8, CHR 0x85, CHR 0xE7,
        CHR 0x90, CHR 0x86, CHR 0xE7, CHR 0xA3, CHR 0x81, CHR 0xE7, CHR 0xA2, CHR 0x9F, CHR 0xE6, CHR 0x88,
        CHR 0x96, CHR 0xE5, CHR 0xB0, CHR 0x87] @ '' spool.dir '' @ [CHR 0xE7, CHR 0xA7, CHR 0xBB, CHR 0xE5,
        CHR 0x88, CHR 0xB0, CHR 0xE7, CHR 0xA9, CHR 0xBA, CHR 0xE9, CHR 0x96, CHR 0x93, CHR 0xE8, CHR 0xBC,
        CHR 0x83, CHR 0xE5, CHR 0xA4, CHR 0xA7, CHR 0xE7, CHR 0x9A, CHR 0x84, CHR 0xE7, CHR 0xA3, CHR 0x81,
        CHR 0xE7, CHR 0xA2, CHR 0x9F])] p
          else check_ok (([CHR 0xE7, CHR 0xA3, CHR 0x81, CHR 0xE7, CHR 0xA2, CHR 0x9F, CHR 0xE5, CHR 0x8F,
        CHR 0xAF, CHR 0xE7, CHR 0x94, CHR 0xA8, CHR 0xE7, CHR 0xA9, CHR 0xBA, CHR 0xE9, CHR 0x96,
        CHR 0x93] @ '' '') @ format_bytes free) p)"

definition check_listener :: "agent_config \<Rightarrow> survey \<Rightarrow> check_printer \<Rightarrow> check_printer" where
  "check_listener c sv p =
     (let port = int_dec (cf_port c)
      in case sv_bind sv of
           None \<Rightarrow> check_ok (''UDP '' @ port @ ('' '' @ [CHR 0xE5, CHR 0x8F, CHR 0xAF, CHR 0xE7,
        CHR 0xB6, CHR 0x81, CHR 0xE5, CHR 0xAE, CHR 0x9A])) p
         | Some e \<Rightarrow>
             if (case sv_status sv of
                   Good_Status st \<Rightarrow> status_age (nw_now (sv_network sv)) st < stale_status | _ \<Rightarrow> False)
             then check_ok (''UDP '' @ port @ ('' '' @ [CHR 0xE5, CHR 0xB7, CHR 0xB2, CHR 0xE7, CHR 0x94,
        CHR 0xB1, CHR 0xE5, CHR 0x9F, CHR 0xB7, CHR 0xE8, CHR 0xA1, CHR 0x8C, CHR 0xE4, CHR 0xB8, CHR 0xAD,
        CHR 0xE7, CHR 0x9A, CHR 0x84, CHR 0xE6, CHR 0x9C, CHR 0x8D, CHR 0xE5, CHR 0x8B, CHR 0x99, CHR 0xE4,
        CHR 0xBD, CHR 0xBF, CHR 0xE7, CHR 0x94, CHR 0xA8])) p
             else check_fail (''UDP '' @ port @ ('' '' @ [CHR 0xE7, CHR 0x84, CHR 0xA1, CHR 0xE6, CHR 0xB3,
        CHR 0x95, CHR 0xE7, CHR 0xB6, CHR 0x81, CHR 0xE5, CHR 0xAE, CHR 0x9A, CHR 0xEF, CHR 0xBC, CHR 0x9A]) @ e)
                    [([CHR 0xE5, CHR 0xBB, CHR 0xBA, CHR 0xE8, CHR 0xAD, CHR 0xB0, CHR 0xEF, CHR 0xBC,
        CHR 0x9A, CHR 0xE7, CHR 0xA2, CHR 0xBA, CHR 0xE8, CHR 0xAA, CHR 0x8D, CHR 0xE6, CHR 0xB2, CHR 0x92,
        CHR 0xE6, CHR 0x9C, CHR 0x89, CHR 0xE5, CHR 0x85, CHR 0xB6, CHR 0xE4, CHR 0xBB, CHR 0x96, CHR 0xE7,
        CHR 0xA8, CHR 0x8B, CHR 0xE5, CHR 0xBC, CHR 0x8F, CHR 0xE4, CHR 0xBD, CHR 0x94, CHR 0xE7, CHR 0x94,
        CHR 0xA8, CHR 0xE6, CHR 0xAD, CHR 0xA4, CHR 0xE5, CHR 0x9F, CHR 0xA0, CHR 0xEF, CHR 0xBC,
        CHR 0x88] @ ''netstat -ano | findstr :'') @ port @ ([CHR 0xEF, CHR 0xBC, CHR 0x89])] p)"

definition check_client :: "agent_config \<Rightarrow> survey \<Rightarrow> check_printer \<Rightarrow> check_printer" where
  "check_client c sv p =
     (case sv_client sv of
        Some e \<Rightarrow> check_fail (([CHR 0xE5, CHR 0xBB, CHR 0xBA, CHR 0xE7, CHR 0xAB,
        CHR 0x8B] @ '' HTTPS '' @ [CHR 0xE7, CHR 0x94, CHR 0xA8, CHR 0xE6, CHR 0x88, CHR 0xB6, CHR 0xE7,
        CHR 0xAB, CHR 0xAF, CHR 0xE5, CHR 0xA4, CHR 0xB1, CHR 0xE6, CHR 0x95, CHR 0x97, CHR 0xEF, CHR 0xBC,
        CHR 0x9A]) @ e) [] p
      | None \<Rightarrow> check_connectivity c (sv_network sv) p)"

text \<open>\<open>SelfTest\<close>: what is printed and the exit code.\<close>

definition self_test ::
  "(load_error \<Rightarrow> string) \<Rightarrow> (string \<Rightarrow> load_error + agent_config) \<Rightarrow> string \<Rightarrow> survey \<Rightarrow> bytes \<times> int" where
  "self_test error_text load path sv =
     (let p = \<lparr>cp_out = [], cp_failed = 0\<rparr>
      in case load path of
           Inl e \<Rightarrow> (cp_out (check_fail ([CHR 0xE8, CHR 0xA8, CHR 0xAD, CHR 0xE5, CHR 0xAE,
        CHR 0x9A, CHR 0xE6, CHR 0xAA, CHR 0x94, CHR 0xE7, CHR 0x84, CHR 0xA1, CHR 0xE6, CHR 0xB3, CHR 0x95,
        CHR 0xE8, CHR 0xBC, CHR 0x89, CHR 0xE5, CHR 0x85, CHR 0xA5]) (split_byte nl (error_text e)) p), 1)
         | Inr c \<Rightarrow>
             let p = check_ok (([CHR 0xE8, CHR 0xA8, CHR 0xAD, CHR 0xE5, CHR 0xAE, CHR 0x9A, CHR 0xE6,
        CHR 0xAA, CHR 0x94, CHR 0xE5, CHR 0xAD, CHR 0x98, CHR 0xE5, CHR 0x9C, CHR 0xA8, CHR 0xE4, CHR 0xB8,
        CHR 0x94, CHR 0xE6, CHR 0xA0, CHR 0xBC, CHR 0xE5, CHR 0xBC, CHR 0x8F, CHR 0xE6, CHR 0xAD, CHR 0xA3,
        CHR 0xE7, CHR 0xA2, CHR 0xBA, CHR 0xEF, CHR 0xBC, CHR 0x88]) @ path @ ([CHR 0xEF, CHR 0xBC, CHR 0x89])) p;
                 p = check_config_permission path sv p;
                 p = check_spool c sv p;
                 p = check_disk sv p;
                 p = check_listener c sv p;
                 p = check_client c sv p;
                 p = check_firewall (sv_ufw sv) (cf_port c) p
             in if 0 < cp_failed p
                then (cp_out p @ [nl] @ ([CHR 0xE5, CHR 0x85,
        CHR 0xB1] @ '' '') @ int_dec (cp_failed p) @ ('' '' @ [CHR 0xE9, CHR 0xA0, CHR 0x85, CHR 0xE6,
        CHR 0xAA, CHR 0xA2, CHR 0xE6, CHR 0x9F, CHR 0xA5, CHR 0xE6, CHR 0x9C, CHR 0xAA, CHR 0xE9, CHR 0x80,
        CHR 0x9A, CHR 0xE9, CHR 0x81, CHR 0x8E]) @ [nl], 1)
                else (cp_out p @ [nl] @ ([CHR 0xE6, CHR 0x89, CHR 0x80, CHR 0xE6, CHR 0x9C, CHR 0x89,
        CHR 0xE6, CHR 0xAA, CHR 0xA2, CHR 0xE6, CHR 0x9F, CHR 0xA5, CHR 0xE7, CHR 0x9A, CHR 0x86, CHR 0xE9,
        CHR 0x80, CHR 0x9A, CHR 0xE9, CHR 0x81, CHR 0x8E]) @ [nl], 0))"

end
