(* ===== verification/Cli_Facts.thy ===== *)
theory Cli_Facts
  imports Cli_Test
begin

text \<open>
  The verdict of \<open>agent test\<close>: what each check asks of the host, as the number of failures it adds,
  and that the command succeeds exactly when every check does. The clock skew is compared in floating
  point by the code; the lemmas show that the comparison is exact.
\<close>

section \<open>The skew is exact\<close>

lemma round53_nonneg: "0 \<le> m \<Longrightarrow> 0 \<le> round53 m"
  using round53_error [of m] by simp

lemma float_ratio_bounds:
  assumes "0 \<le> p" "p < second"
  shows "0 \<le> float_ratio p second" and "1 \<le> p \<Longrightarrow> 2 ^ 141 \<le> float_ratio p second * (2 * second)"
    and "float_ratio p second * (2 * second) \<le> 2 ^ 141 * (2 * second - 1)"
proof -
  define a where "a = p * 2 ^ 140 div second"
  define m where "m = 2 * a + (if p * 2 ^ 140 mod second = 0 then 0 else 1)"
  have r: "float_ratio p second = round53 m" by (simp add: float_ratio_def m_def a_def)
  have s: "second = 1000000000" by (simp add: second_def)
  have a: "a * second \<le> p * 2 ^ 140" "p * 2 ^ 140 < a * second + second"
    using div_mult_mod_eq [of "p * 2 ^ 140" second] pos_mod_bound [of second "p * 2 ^ 140"] pos_mod_sign [of second "p * 2 ^ 140"]
    by (simp_all add: a_def s)
  have m: "2 * a \<le> m" "m \<le> 2 * a + 1" by (simp_all add: m_def)
  have a0: "0 \<le> a" using assms by (simp add: a_def s)
  have e: "(round53 m - m) * 2 ^ 53 \<le> m" "(m - round53 m) * 2 ^ 53 \<le> m" using round53_error [of m] m a0 by simp_all
  show "0 \<le> float_ratio p second" using round53_nonneg [of m] m a0 by (simp add: r)
  show "2 ^ 141 \<le> float_ratio p second * (2 * second)" if "1 \<le> p"
    using a e m that unfolding r unfolding s by simp
  show "float_ratio p second * (2 * second) \<le> 2 ^ 141 * (2 * second - 1)"
    using a e m assms(2) unfolding r unfolding s by simp
qed

lemma round53_300: "round53 (300 * 2 ^ 141) = 300 * 2 ^ 141" "round53 0 = 0"
  by code_simp+

lemma float_seconds_above: "0 \<le> d \<Longrightarrow> 300 * float_unit < float_seconds d \<longleftrightarrow> 300 * second < d"
proof -
  assume d: "0 \<le> d"
  define n where "n = d div second"
  define p where "p = d mod second"
  have s: "second = 1000000000" by (simp add: second_def)
  have dp: "d = n * second + p" "0 \<le> p" "p < second" "0 \<le> n"
    using d by (simp_all add: n_def p_def s)
  define S where "S = n * 2 ^ 141 + float_ratio p second"
  have f: "float_seconds d = round53 S" using d by (simp add: float_seconds_def float_unit_def S_def n_def p_def)
  note b = float_ratio_bounds [OF dp(2,3)]
  have S0: "0 \<le> S" using b(1) dp(4) by (simp add: S_def)
  have e: "(round53 S - S) * 2 ^ 53 \<le> S" "(S - round53 S) * 2 ^ 53 \<le> S" using round53_error [OF S0] by simp_all
  consider "d = 300 * second" | "300 * second < d" | "d < 300 * second" by linarith
  then show ?thesis
  proof cases
    case 1
    then have "n = 300" "p = 0" using s by (simp_all add: n_def p_def)
    then have "S = 300 * 2 ^ 141" using round53_300(2) by (simp add: S_def float_ratio_def)
    then have "float_seconds d = 300 * 2 ^ 141" using round53_300(1) f by simp
    with 1 show ?thesis by (simp add: float_unit_def)
  next
    case 2
    have "600000000001 * 2 ^ 141 \<le> S * 2000000000"
    proof (cases "301 \<le> n")
      case True
      then show ?thesis using b(1) by (simp add: S_def)
    next
      case False
      with 2 dp have "n = 300" "1 \<le> p" by (simp_all add: s)
      with b(2) show ?thesis by (simp add: S_def s)
    qed
    with e have "300 * 2 ^ 141 < round53 S" by simp
    with 2 show ?thesis by (simp add: f float_unit_def)
  next
    case 3
    then have n: "n \<le> 299" using dp by (simp add: s)
    have "S * 2000000000 \<le> 599999999999 * 2 ^ 141" using b(3) n by (simp add: S_def s)
    with e have "round53 S \<le> 300 * 2 ^ 141" by simp
    with 3 show ?thesis by (simp add: f float_unit_def)
  qed
qed

lemma skew_exact:
  "(300 * float_unit < float_seconds d \<or> float_seconds d < - (300 * float_unit)) \<longleftrightarrow> 300 * second < \<bar>d\<bar>"
proof (cases "0 \<le> d")
  case True
  have "0 \<le> float_seconds d"
    using True float_ratio_bounds(1) [of "d mod second"]
    by (auto simp: float_seconds_def second_def float_unit_def intro!: round53_nonneg)
  moreover have "(0::int) < 300 * float_unit" by (simp add: float_unit_def)
  ultimately show ?thesis using True float_seconds_above [OF True] by simp
next
  case False
  then have n: "0 \<le> - d" by simp
  have m: "float_seconds d = - float_seconds (- d)" using False by (simp add: float_seconds_def)
  have "0 \<le> float_seconds (- d)"
    using n float_ratio_bounds(1) [of "(- d) mod second"] False
    by (auto simp: float_seconds_def second_def float_unit_def intro!: round53_nonneg)
  moreover have "(0::int) < 300 * float_unit" by (simp add: float_unit_def)
  ultimately show ?thesis using False float_seconds_above [OF n] by (simp add: m)
qed


section \<open>What each check asks\<close>

lemma ok_failed [simp]: "cp_failed (check_ok m p) = cp_failed p" by (simp add: check_ok_def)

lemma fail_failed [simp]: "cp_failed (check_fail m a p) = cp_failed p + 1" by (simp add: check_fail_def)

definition permission_passes :: "survey \<Rightarrow> bool" where
  "permission_passes sv = (case sv_mode sv of Inl e \<Rightarrow> False | Inr m \<Rightarrow> m mod 64 = 0)"

definition spool_passes :: "survey \<Rightarrow> bool" where
  "spool_passes sv \<longleftrightarrow> sv_create sv = None \<and> sv_remove sv = None"

definition disk_passes :: "survey \<Rightarrow> bool" where
  "disk_passes sv = (case disk_free (sv_disk sv) of Inl e \<Rightarrow> False | Inr n \<Rightarrow> 2 ^ 30 \<le> n)"

definition listener_passes :: "survey \<Rightarrow> bool" where
  "listener_passes sv \<longleftrightarrow>
     sv_bind sv = None
     \<or> (\<exists>st. sv_status sv = Good_Status st \<and> status_age (nw_now (sv_network sv)) st < 60 * second)"

definition firewall_passes :: "(string \<times> bool) option \<Rightarrow> int \<Rightarrow> bool" where
  "firewall_passes ufw port =
     (case ufw of
        None \<Rightarrow> True
      | Some (out, err) \<Rightarrow>
          \<not> err \<and> (if contains_text out ''Status: active'' then contains_text out (int_dec port @ ''/udp'') else True))"

text \<open>The peer that is looked up and dialled, which is the proxy when there is one, and the reply.\<close>

definition peer :: "network \<Rightarrow> string + target" where
  "peer nw =
     (case nw_proxy nw of Inl e \<Rightarrow> Inl e | Inr None \<Rightarrow> Inr (nw_endpoint nw) | Inr (Some t) \<Rightarrow> Inr t)"

definition reply_passes :: "agent_config \<Rightarrow> network \<Rightarrow> bool" where
  "reply_passes c nw \<longleftrightarrow>
     (\<exists>r ts.
        get c (nw_request nw) ''/healthz'' = Inr r \<and> 200 \<le> rs_status r \<and> rs_status r < 300
        \<and> server_time (rs_body r) = Some ts \<and> \<bar>time_sub (nw_now nw) ts\<bar> \<le> 300 * second)"

definition connection_passes :: "agent_config \<Rightarrow> network \<Rightarrow> bool" where
  "connection_passes c nw \<longleftrightarrow>
     (\<exists>t addrs.
        peer nw = Inr t \<and> nw_lookup nw (tg_hostname t) = Inr addrs
        \<and> nw_dial nw (tg_hostname t) (default_port t) = None)
     \<and> reply_passes c nw"

lemma permission_failed:
  "cp_failed (check_config_permission path sv p) = cp_failed p + (if permission_passes sv then 0 else 1)"
proof (cases "sv_mode sv")
  case (Inr m)
  have "m mod 512 mod 64 = m mod 64" by (rule mod_mod_cancel) simp
  then show ?thesis using Inr
    by (simp add: check_config_permission_def config_permission_def permission_passes_def Let_def)
qed (simp add: check_config_permission_def config_permission_def permission_passes_def)

lemma spool_failed: "cp_failed (check_spool c sv p) = cp_failed p + (if spool_passes sv then 0 else 1)"
  by (simp add: check_spool_def check_writable_def spool_passes_def split: option.split)

lemma disk_failed: "cp_failed (check_disk sv p) = cp_failed p + (if disk_passes sv then 0 else 1)"
  by (simp add: check_disk_def disk_passes_def low_disk_bytes_def not_le split: sum.split)

lemma listener_failed:
  "cp_failed (check_listener c sv p) = cp_failed p + (if listener_passes sv then 0 else 1)"
  by (simp add: check_listener_def listener_passes_def stale_status_def Let_def split: option.split status_read.split)

lemma firewall_failed:
  "cp_failed (check_firewall ufw port p) = cp_failed p + (if firewall_passes ufw port then 0 else 1)"
  by (simp add: check_firewall_def firewall_passes_def split: option.split prod.split)

lemma skew_failed:
  "cp_failed (check_skew now body p) = cp_failed p
     + (if \<exists>ts. server_time body = Some ts \<and> \<bar>time_sub now ts\<bar> \<le> 300 * second then 0 else 1)"
proof (cases "server_time body")
  case (Some ts)
  define d where "d = time_sub now ts"
  have "(300 * float_unit < float_seconds d \<or> float_seconds d < - (300 * float_unit)) = (\<not> \<bar>d\<bar> \<le> 300 * second)"
    by (simp only: skew_exact not_le)
  then show ?thesis using Some unfolding check_skew_def Let_def d_def [symmetric] by (simp add: d_def)
qed (simp add: check_skew_def)

lemma reply_failed:
  "cp_failed (check_reply c nw p) = cp_failed p + (if reply_passes c nw then 0 else 1)"
proof (cases "get c (nw_request nw) ''/healthz''")
  case (Inr r)
  then show ?thesis by (auto simp: check_reply_def reply_passes_def skew_failed Let_def)
qed (simp add: check_reply_def reply_passes_def)

lemma target_failed:
  "cp_failed (check_target c nw t label p) = cp_failed p
     + (if (\<exists>addrs. nw_lookup nw (tg_hostname t) = Inr addrs)
            \<and> nw_dial nw (tg_hostname t) (default_port t) = None \<and> reply_passes c nw then 0 else 1)"
  by (cases "nw_lookup nw (tg_hostname t)"; cases "nw_dial nw (tg_hostname t) (default_port t)")
    (simp_all add: check_target_def Let_def reply_failed)

lemma connectivity_failed:
  "cp_failed (check_connectivity c nw p) = cp_failed p + (if connection_passes c nw then 0 else 1)"
  by (simp add: check_connectivity_def connection_passes_def peer_def target_failed split: sum.split option.split)

lemma client_failed:
  "cp_failed (check_client c sv p) = cp_failed p
     + (if sv_client sv = None \<and> connection_passes c (sv_network sv) then 0 else 1)"
  by (simp add: check_client_def connectivity_failed split: option.split)

lemmas failed_counts =
  permission_failed spool_failed disk_failed listener_failed client_failed firewall_failed

section \<open>The verdict\<close>

text \<open>
  C38: \<open>agent test\<close> exits with 0 exactly when the configuration loads, only the owner has rights on its
  file, the spool directory takes a file, at least 1 GiB is free, the UDP port can be bound or a status
  file less than a minute old shows that the service holds it, the client can be built, the endpoint or
  the proxy is found, dialled and answers \<open>/healthz\<close> with a 2xx and a time at most five minutes away,
  and \<open>ufw\<close>, where it is active, names the port.
\<close>

theorem self_test_passes:
  "snd (self_test error_text load path sv) = 0 \<longleftrightarrow>
     (\<exists>c. load path = Inr c \<and> permission_passes sv \<and> spool_passes sv \<and> disk_passes sv \<and> listener_passes sv
        \<and> sv_client sv = None \<and> connection_passes c (sv_network sv) \<and> firewall_passes (sv_ufw sv) (cf_port c))"
proof (cases "load path")
  case (Inr c)
  then show ?thesis by (simp add: self_test_def failed_counts Let_def)
qed (simp add: self_test_def)

end
