(* ===== verification/Cli_Tail.thy ===== *)
theory Cli_Tail
  imports Agent_System Collector_Store
begin

text \<open>
  \<open>agent tail\<close> of \<open>internal/agent/cli.go\<close>: following the newest spool file and showing each event
  in a line. The local zone and the text of a JSON number (\<open>None\<close> where it does not fit
  float64) are parameters.
\<close>

section \<open>Text\<close>

text \<open>\<open>strings.Fields\<close>: the pieces between runs of white space.\<close>

function word_end :: "string \<Rightarrow> nat" where
  "word_end s =
     (if s = [] \<or> find (has_prefix s) space_seqs \<noteq> None then 0 else Suc (word_end (tl s)))"
  by pat_completeness auto
termination
  by (relation "measure length") auto

declare word_end.simps [simp del]

lemma trim_left_space_shorter: "length (trim_left_space s) \<le> length s"
  by (induction s rule: trim_left_space.induct)
     (subst trim_left_space.simps, auto split: option.split intro: le_trans)

function space_fields :: "string \<Rightarrow> string list" where
  "space_fields s =
     (let t = trim_left_space s
      in if t = [] \<or> word_end t = 0 then [] else take (word_end t) t # space_fields (drop (word_end t) t))"
  by pat_completeness auto
termination
  by (relation "measure length") (auto intro: order.strict_trans2 [OF _ trim_left_space_shorter])

declare space_fields.simps [simp del]

text \<open>\<open>utf8.RuneCountInString\<close>: an invalid byte counts as one.\<close>

function rune_count :: "string \<Rightarrow> nat" where
  "rune_count s =
     (if s = [] then 0
      else case rune_size s of None \<Rightarrow> Suc (rune_count (tl s)) | Some n \<Rightarrow> Suc (rune_count (drop n s)))"
  by pat_completeness auto
termination
  by (relation "measure length") (auto dest: rune_size_bounds)

declare rune_count.simps [simp del]

text \<open>The verb \<open>%-15s\<close>.\<close>

definition pad_right :: "nat \<Rightarrow> string \<Rightarrow> string" where
  "pad_right w s = s @ replicate (w - rune_count s) CHR '' ''"

section \<open>A line\<close>

record tail_record =
  tl_received_at :: string
  tl_source_ip :: string
  tl_raw :: string
  tl_parsed :: "(string \<times> (string \<times> json) list) option"
  tl_parse_error :: "string option"

definition zero_tail_record :: tail_record where
  "zero_tail_record =
     \<lparr>tl_received_at = [], tl_source_ip = [], tl_raw = [], tl_parsed = None, tl_parse_error = None\<rparr>"

text \<open>A map keeps the members that are there; the last value of a key counts.\<close>

definition store_map ::
  "(bytes \<Rightarrow> string option) \<Rightarrow> json \<Rightarrow> (string \<times> json) list \<Rightarrow> (string \<times> json) list \<times> bool" where
  "store_map num v old =
     (case v of
        JObj ms \<Rightarrow> (foldl (\<lambda>m (k, w). AList.update k w m) old ms, \<exists>(k, w)\<in>set ms. sprint num w = None)
      | JNull \<Rightarrow> ([], False)
      | _ \<Rightarrow> (old, True))"

definition store_tail_parsed ::
  "(bytes \<Rightarrow> string option) \<Rightarrow> json \<Rightarrow> (string \<times> (string \<times> json) list) option
   \<Rightarrow> (string \<times> (string \<times> json) list) option \<times> bool" where
  "store_tail_parsed num v old =
     (if v = JNull then (None, False)
      else case store_struct [''program'', ''payload'']
                  (\<lambda>f w x. if f = ''program'' then at_field (store_string w) fst apfst x
                           else at_field (store_map num w) snd apsnd x)
                  v (case old of None \<Rightarrow> ([], []) | Some p \<Rightarrow> p) of
             (p, err) \<Rightarrow> (Some p, err))"

definition store_tail_record :: "(bytes \<Rightarrow> string option) \<Rightarrow> json \<Rightarrow> tail_record \<Rightarrow> tail_record \<times> bool" where
  "store_tail_record num =
     store_struct [''received_at'', ''source_ip'', ''raw'', ''parsed'', ''parse_error'']
       (\<lambda>f v x.
          if f = ''received_at'' then at_field (store_string v) tl_received_at tl_received_at_update x
          else if f = ''source_ip'' then at_field (store_string v) tl_source_ip tl_source_ip_update x
          else if f = ''raw'' then at_field (store_string v) tl_raw tl_raw_update x
          else if f = ''parsed'' then at_field (store_tail_parsed num v) tl_parsed tl_parsed_update x
          else at_field (store_opt_string v) tl_parse_error tl_parse_error_update x)"

text \<open>\<open>str\<close>: a member of the payload as text, empty where it is missing or null.\<close>

definition payload_text :: "(bytes \<Rightarrow> string option) \<Rightarrow> (string \<times> json) list \<Rightarrow> string \<Rightarrow> string" where
  "payload_text num pl k =
     (case map_of pl k of
        None \<Rightarrow> []
      | Some v \<Rightarrow> if v = JNull then [] else (case sprint num v of None \<Rightarrow> [] | Some s \<Rightarrow> s))"

definition payload_summary :: "(bytes \<Rightarrow> string option) \<Rightarrow> (string \<times> json) list \<Rightarrow> string" where
  "payload_summary num pl =
     (if map_of pl ''module'' \<noteq> None then
        let shown = join (filter (\<lambda>s. s \<noteq> []) (map (payload_text num pl) [''module'', ''action'', ''severity'', ''domain''])) '' / '';
            i = payload_text num pl ''event_id''; msg = payload_text num pl ''msg'';
            shown = (if i \<noteq> [] then shown @ ''  #'' @ i else shown)
        in if msg \<noteq> [] then shown @ ''  '' @ msg else shown
      else
        join (map (\<lambda>k. k @ ''='' @ payload_text num pl k)
          (filter (\<lambda>k. payload_text num pl k \<noteq> []) [''user'', ''src'', ''msg''])) '' '')"

text \<open>\<open>t.Local().Format("2006-01-02 15:04:05.000")\<close>; the zone gives the seconds east of UTC.\<close>

definition format_local :: "(gtime \<Rightarrow> int) \<Rightarrow> gtime \<Rightarrow> string" where
  "format_local zone t =
     (let u = t + zone t * second
      in format_date u @ '' '' @ format_clock u @ ''.'' @ pad_nat 3 (nat (u mod second div 1000000)))"

definition error_summary :: "string \<Rightarrow> string \<Rightarrow> string \<Rightarrow> string" where
  "error_summary shown err raw =
     (let words = join (space_fields raw) '' '';
          cut_words = (if 120 < length words then take 120 words @ ([CHR 0xE2, CHR 0x80, CHR 0xA6]) else words)
      in trim_space (shown @ ''  [parse_error] '' @ err @ ([CHR 0xEF, CHR 0xBC, CHR 0x9A]) @ cut_words))"

definition format_tail_line :: "(gtime \<Rightarrow> int) \<Rightarrow> (bytes \<Rightarrow> string option) \<Rightarrow> bytes \<Rightarrow> string" where
  "format_tail_line zone num line =
     (case unmarshal (store_tail_record num) line zero_tail_record of
        None \<Rightarrow> ([CHR 0xEF, CHR 0xBC, CHR 0x88, CHR 0xE7, CHR 0x84, CHR 0xA1, CHR 0xE6, CHR 0xB3,
        CHR 0x95, CHR 0xE8, CHR 0xA7, CHR 0xA3, CHR 0xE6, CHR 0x9E, CHR 0x90, CHR 0xE7, CHR 0x9A,
        CHR 0x84] @ '' spool '' @ [CHR 0xE8, CHR 0xA1, CHR 0x8C, CHR 0xEF, CHR 0xBC, CHR 0x89])
      | Some r \<Rightarrow>
          let ts = (case time_parse rfc3339_layout (tl_received_at r) of
                      None \<Rightarrow> tl_received_at r | Some t \<Rightarrow> format_local zone t);
              (program, shown) =
                (case tl_parsed r of None \<Rightarrow> (''-'', []) | Some (p, pl) \<Rightarrow> (p, payload_summary num pl));
              shown =
                (case tl_parse_error r of None \<Rightarrow> shown | Some e \<Rightarrow> error_summary shown e (tl_raw r))
          in ts @ ''  '' @ pad_right 15 (tl_source_ip r) @ ''  '' @ pad_right 10 program @ ''  '' @ shown)"

section \<open>Following the files\<close>

definition latest_spool :: "faults \<Rightarrow> dir \<Rightarrow> string" where
  "latest_spool io d =
     foldl (\<lambda>l f. if \<not> sf_gz f \<and> l < sf_name f then sf_name f else l) [] (list_spool_files io d)"

text \<open>The loop of \<open>tailRead\<close>; a line without its newline is left for the next time.\<close>

function tail_lines :: "faults \<Rightarrow> string \<Rightarrow> (bytes \<Rightarrow> string) \<Rightarrow> bytes \<Rightarrow> int \<Rightarrow> bytes \<Rightarrow> int \<times> bytes" where
  "tail_lines io n fmt rest off shown =
     (if io (ReadFile n off) \<noteq> None then (off, shown)
      else case cut_line rest of
        None \<Rightarrow> (off, shown)
      | Some (line, rest') \<Rightarrow> tail_lines io n fmt rest' (off + int (length line)) (shown @ fmt line @ [nl]))"
  by pat_completeness auto
termination
  by (relation "measure (\<lambda>(io, n, fmt, rest, off, shown). length rest)") (auto dest: cut_line_length)

declare tail_lines.simps [simp del]

definition tail_read :: "(bytes \<Rightarrow> string) \<Rightarrow> faults \<Rightarrow> dir \<Rightarrow> string \<Rightarrow> int \<Rightarrow> int \<times> bytes" where
  "tail_read fmt io d n off =
     (case open_read io d n of
        None \<Rightarrow> (off, [])
      | Some b \<Rightarrow>
          let off = (if io (StatFile n) = None \<and> int (length b) < off then 0 else off)
          in tail_lines io n fmt (drop_int off b) off [])"

text \<open>
  The directory as each of the calls of a round meets it, and whether the context ends while the
  round waits.
\<close>

record tail_round =
  ta_read :: "faults \<times> dir"
  ta_list :: "faults \<times> dir"
  ta_again :: "faults \<times> dir"
  ta_ended :: bool

definition tail_start :: "faults \<Rightarrow> dir option \<Rightarrow> (string \<times> int) option" where
  "tail_start io found =
     (case found of
        None \<Rightarrow> None
      | Some d \<Rightarrow>
          let cur = latest_spool io d
          in Some (cur, if cur \<noteq> [] \<and> io (StatFile cur) = None then file_size d cur else 0))"

text \<open>One round: the file and the offset, what is shown, and whether the command returns.\<close>

definition tail_step :: "(bytes \<Rightarrow> string) \<Rightarrow> tail_round \<Rightarrow> string \<times> int \<Rightarrow> (string \<times> int) \<times> bytes \<times> bool" where
  "tail_step fmt r st =
     (case st of (cur, off) \<Rightarrow>
        let (off, shown) = (if cur \<noteq> [] then tail_read fmt (fst (ta_read r)) (snd (ta_read r)) cur off else (off, []));
            latest = latest_spool (fst (ta_list r)) (snd (ta_list r))
        in if cur < latest then
             let (off, more_shown) =
                   (if cur \<noteq> [] then tail_read fmt (fst (ta_again r)) (snd (ta_again r)) cur off else (off, []))
             in ((latest, 0), shown @ more_shown, False)
           else ((cur, off), shown, ta_ended r))"

fun tail_run :: "(bytes \<Rightarrow> string) \<Rightarrow> tail_round list \<Rightarrow> string \<times> int \<Rightarrow> (string \<times> int) \<times> bytes" where
  "tail_run fmt [] st = (st, [])"
| "tail_run fmt (r # rs) st =
     (case tail_step fmt r st of
        (st, shown, True) \<Rightarrow> (st, shown)
      | (st, shown, False) \<Rightarrow> (case tail_run fmt rs st of (st, later) \<Rightarrow> (st, shown @ later)))"

section \<open>What is shown\<close>

text \<open>The lines of a text, as they are shown.\<close>

definition shown_lines :: "(bytes \<Rightarrow> string) \<Rightarrow> bytes \<Rightarrow> bytes" where
  "shown_lines fmt b = concat (map (\<lambda>l. fmt l @ [nl]) (lines_of b))"

definition lines_size :: "bytes \<Rightarrow> int" where
  "lines_size b = int (length (concat (lines_of b)))"

lemma tail_lines_result:
  "\<forall>k. io (ReadFile n k) = None \<Longrightarrow>
   tail_lines io n fmt rest off shown = (off + lines_size rest, shown @ shown_lines fmt rest)"
proof (induction io n fmt rest off shown rule: tail_lines.induct)
  case (1 io n fmt rest off shown)
  show ?case
  proof (cases "cut_line rest")
    case None
    then show ?thesis
      using "1.prems" by (subst tail_lines.simps) (simp add: lines_size_def shown_lines_def lines_of_None)
  next
    case (Some p)
    obtain l r where p: "p = (l, r)" by (cases p)
    have c: "cut_line rest = Some (l, r)" using Some p by simp
    have "\<not> io (ReadFile n off) \<noteq> None" using "1.prems" by simp
    from "1.IH" [OF this c refl "1.prems"] "1.prems" show ?thesis
      by (subst tail_lines.simps) (simp add: c lines_size_def shown_lines_def lines_of_Some [OF c])
  qed
qed

lemma tail_read_result:
  assumes "open_read io d n = Some b" and "\<forall>k. io (ReadFile n k) = None" and "off \<le> int (length b)"
  shows "tail_read fmt io d n off = (off + lines_size (drop (nat off) b), shown_lines fmt (drop (nat off) b))"
  using assms by (simp add: tail_read_def Let_def tail_lines_result)

text \<open>What was read is a run of whole lines, so that the next reading goes on where it ended.\<close>

lemma lines_split: "\<exists>r. b = concat (lines_of b) @ r \<and> complete (concat (lines_of b)) \<and> nl \<notin> set r"
proof (induction b rule: measure_induct_rule [where f = length])
  case (less b)
  show ?case
  proof (cases "cut_line b")
    case None
    then show ?thesis by (simp add: lines_of_None cut_line_None_iff)
  next
    case (Some p)
    obtain l t where p: "p = (l, t)" by (cases p)
    have c: "cut_line b = Some (l, t)" using Some p by simp
    then have "length t < length b" using cut_line_length [OF c] by simp
    from less [OF this] obtain r where "t = concat (lines_of t) @ r" "complete (concat (lines_of t))" "nl \<notin> set r" by blast
    moreover have "b = l @ t" "complete l" using cut_line_split [OF c] by (auto simp: complete_def)
    moreover have "concat (lines_of b) = l @ concat (lines_of t)" by (simp add: lines_of_Some [OF c])
    ultimately show ?thesis by (intro exI [of _ r]) (metis append.assoc complete_append)
  qed
qed

lemma lines_of_complete: "complete p \<Longrightarrow> concat (lines_of p) = p"
proof -
  assume p: "complete p"
  obtain r where r: "p = concat (lines_of p) @ r" "nl \<notin> set r" using lines_split by blast
  have "r = []"
  proof (rule ccontr)
    assume "r \<noteq> []"
    then have "last p = last r" "p \<noteq> []" using r(1) by (metis last_appendR, metis append_is_Nil_conv)
    with p r(2) \<open>r \<noteq> []\<close> show False by (metis complete_def last_in_set)
  qed
  with r(1) show ?thesis by simp
qed

lemma shown_lines_resume:
  "shown_lines fmt (b @ x) = shown_lines fmt b @ shown_lines fmt (drop (nat (lines_size b)) (b @ x))"
  "lines_size (b @ x) = lines_size b + lines_size (drop (nat (lines_size b)) (b @ x))"
proof -
  obtain r where r: "b = concat (lines_of b) @ r" "complete (concat (lines_of b))" "nl \<notin> set r" using lines_split by blast
  let ?p = "concat (lines_of b)"
  have d: "drop (nat (lines_size b)) (b @ x) = r @ x"
    unfolding lines_size_def using r(1) by (metis append.assoc append_eq_conv_conj nat_int)
  have "lines_of r = []" using r(3) by (simp add: lines_of_None cut_line_None_iff)
  then have "lines_of b = lines_of ?p" using lines_of_append [OF r(2), of r] r(1) by simp
  moreover have "lines_of (b @ x) = lines_of ?p @ lines_of (r @ x)"
    using lines_of_append [OF r(2), of "r @ x"] r(1) by (metis append.assoc)
  ultimately show "shown_lines fmt (b @ x) = shown_lines fmt b @ shown_lines fmt (drop (nat (lines_size b)) (b @ x))"
    "lines_size (b @ x) = lines_size b + lines_size (drop (nat (lines_size b)) (b @ x))"
    unfolding d by (simp_all add: shown_lines_def) (simp add: lines_size_def)
qed

lemma lines_size_bound: "0 \<le> lines_size b" "lines_size b \<le> int (length b)"
proof -
  obtain r where "b = concat (lines_of b) @ r" using lines_split by blast
  then have "length b = length (concat (lines_of b)) + length r" by (metis length_append)
  then show "0 \<le> lines_size b" "lines_size b \<le> int (length b)" by (simp_all add: lines_size_def)
qed

text \<open>Rounds in which the file is read without an error and no newer file is there.\<close>

definition quiet_round :: "string \<Rightarrow> bytes \<Rightarrow> tail_round \<Rightarrow> bool" where
  "quiet_round cur b r \<longleftrightarrow>
     cur \<noteq> [] \<and> open_read (fst (ta_read r)) (snd (ta_read r)) cur = Some b
     \<and> (\<forall>k. fst (ta_read r) (ReadFile cur k) = None)
     \<and> \<not> cur < latest_spool (fst (ta_list r)) (snd (ta_list r)) \<and> \<not> ta_ended r"

inductive growing :: "string \<Rightarrow> tail_round list \<Rightarrow> bytes \<Rightarrow> bytes \<Rightarrow> bool" where
  growing_once: "quiet_round cur b r \<Longrightarrow> growing cur [r] b b"
| growing_more: "quiet_round cur b r \<Longrightarrow> growing cur rs (b @ x) c \<Longrightarrow> growing cur (r # rs) b c"

lemma quiet_step:
  "quiet_round cur b r \<Longrightarrow> off \<le> int (length b) \<Longrightarrow>
   tail_step fmt r (cur, off) = ((cur, off + lines_size (drop (nat off) b)), shown_lines fmt (drop (nat off) b), False)"
  by (simp add: quiet_round_def tail_step_def tail_read_result)

lemma growing_prefix: "growing cur rs b c \<Longrightarrow> \<exists>y. c = b @ y"
  by (induction rule: growing.induct) auto

lemma tail_run_growing:
  "growing cur rs b c \<Longrightarrow> 0 \<le> off \<Longrightarrow> off \<le> int (length b) \<Longrightarrow>
   tail_run fmt rs (cur, off) = ((cur, off + lines_size (drop (nat off) c)), shown_lines fmt (drop (nat off) c))"
proof (induction arbitrary: off rule: growing.induct)
  case (growing_once cur b r)
  then show ?case by (simp add: quiet_step)
next
  case (growing_more cur b r rs x c)
  let ?o = "off + lines_size (drop (nat off) b)"
  obtain y where y: "c = (b @ x) @ y" using growing_prefix [OF growing_more.hyps(2)] by blast
  have o: "0 \<le> ?o" "?o \<le> int (length (b @ x))"
    using growing_more.prems lines_size_bound [of "drop (nat off) b"] by simp_all
  have d: "drop (nat ?o) c = drop (nat (lines_size (drop (nat off) b))) (drop (nat off) b @ x @ y)"
  proof -
    have "nat ?o = nat (lines_size (drop (nat off) b)) + nat off"
      using growing_more.prems(1) lines_size_bound(1) [of "drop (nat off) b"] by simp
    moreover have "drop (nat off) c = drop (nat off) b @ x @ y" using growing_more.prems(2) by (simp add: y)
    ultimately show ?thesis by (metis drop_drop)
  qed
  have c: "drop (nat off) c = drop (nat off) b @ x @ y" using growing_more.prems(2) by (simp add: y)
  define w where "w = drop (nat off) b"
  note sr = shown_lines_resume(1) [of fmt w "x @ y"] and sl = shown_lines_resume(2) [of w "x @ y"]
  have run: "tail_run fmt rs (cur, off + lines_size w) =
      ((cur, off + lines_size w + lines_size (drop (nat (lines_size w)) (w @ x @ y))), shown_lines fmt (drop (nat (lines_size w)) (w @ x @ y)))"
    using growing_more.IH [OF o] by (simp only: d [folded w_def] flip: w_def)
  note step = quiet_step [OF growing_more.hyps(1) growing_more.prems(2), of fmt, folded w_def]
  show ?case
    unfolding c [folded w_def] sr sl by (simp only: tail_run.simps step prod.case bool.case run add.assoc if_False)
qed

text \<open>A round in which a newer file is there: the old one is read again before it is left.\<close>

definition rolled_round :: "string \<Rightarrow> bytes \<Rightarrow> bytes \<Rightarrow> string \<Rightarrow> tail_round \<Rightarrow> bool" where
  "rolled_round cur b c n r \<longleftrightarrow>
     cur \<noteq> [] \<and> open_read (fst (ta_read r)) (snd (ta_read r)) cur = Some b
     \<and> (\<forall>k. fst (ta_read r) (ReadFile cur k) = None)
     \<and> cur < n \<and> latest_spool (fst (ta_list r)) (snd (ta_list r)) = n
     \<and> open_read (fst (ta_again r)) (snd (ta_again r)) cur = Some c
     \<and> (\<forall>k. fst (ta_again r) (ReadFile cur k) = None)"

lemma shown_further:
  assumes "0 \<le> off" "off \<le> int (length b)"
  defines "m \<equiv> off + lines_size (drop (nat off) b)"
  shows "m \<le> int (length (b @ x))"
    and "shown_lines fmt (drop (nat off) (b @ x)) = shown_lines fmt (drop (nat off) b) @ shown_lines fmt (drop (nat m) (b @ x))"
proof -
  let ?w = "drop (nat off) b"
  show "m \<le> int (length (b @ x))" using assms(1,2) lines_size_bound [of ?w] by (simp add: m_def)
  have n: "nat m = nat (lines_size ?w) + nat off"
    using assms(1) lines_size_bound(1) [of ?w] by (simp add: m_def)
  have e: "drop (nat off) (b @ x) = ?w @ x" using assms(2) by simp
  have "drop (nat m) (b @ x) = drop (nat (lines_size ?w)) (?w @ x)" by (metis n e drop_drop)
  then show "shown_lines fmt (drop (nat off) (b @ x)) = shown_lines fmt ?w @ shown_lines fmt (drop (nat m) (b @ x))"
    using shown_lines_resume(1) [of fmt ?w x] by (simp only: e)
qed

lemma growing_append:
  "growing cur rs b c \<Longrightarrow> 0 \<le> off \<Longrightarrow> off \<le> int (length b) \<Longrightarrow>
   tail_run fmt (rs @ rs') (cur, off) =
     (case tail_run fmt rs (cur, off) of (st, shown) \<Rightarrow> case tail_run fmt rs' st of (st', later) \<Rightarrow> (st', shown @ later))"
proof (induction arbitrary: off rule: growing.induct)
  case (growing_once cur b r)
  then show ?case by (simp add: quiet_step split: prod.split)
next
  case (growing_more cur b r rs x c)
  have o: "0 \<le> off + lines_size (drop (nat off) b)" "off + lines_size (drop (nat off) b) \<le> int (length (b @ x))"
    using growing_more.prems lines_size_bound [of "drop (nat off) b"] by simp_all
  show ?case
    by (simp add: quiet_step [OF growing_more.hyps(1) growing_more.prems(2)] growing_more.IH [OF o] split: prod.split)
qed

lemma rolled_step:
  assumes "rolled_round cur (c @ x) (c @ x @ y) n r" "0 \<le> off" "off \<le> int (length c)"
  shows "tail_step fmt r (cur, off) = ((n, 0), shown_lines fmt (drop (nat off) (c @ x @ y)), False)"
proof -
  have o: "off \<le> int (length (c @ x))" using assms(3) by simp
  define m where "m = off + lines_size (drop (nat off) (c @ x))"
  have f: "m \<le> int (length (c @ x @ y))" "shown_lines fmt (drop (nat off) (c @ x @ y))
      = shown_lines fmt (drop (nat off) (c @ x)) @ shown_lines fmt (drop (nat m) (c @ x @ y))"
    using shown_further(1) [OF assms(2) o, of y] shown_further(2) [OF assms(2) o, of fmt y]
    unfolding m_def append.assoc by blast+
  have 1: "tail_read fmt (fst (ta_read r)) (snd (ta_read r)) cur off = (m, shown_lines fmt (drop (nat off) (c @ x)))"
    using tail_read_result [OF _ _ o] assms(1) by (simp add: rolled_round_def m_def)
  obtain e where 2: "tail_read fmt (fst (ta_again r)) (snd (ta_again r)) cur m = (e, shown_lines fmt (drop (nat m) (c @ x @ y)))"
    using tail_read_result [OF _ _ f(1)] assms(1) by (simp add: rolled_round_def)
  show ?thesis
    using assms(1) unfolding tail_step_def prod.case Let_def f(2) rolled_round_def
    by (simp only: 1 2 prod.case if_True simp_thms)
qed

text \<open>
  C37: Following a spool file while it grows, \<open>agent tail\<close> shows each of its lines exactly once,
  however the growth is spread over the readings; and when the file of a new day appears, what has been
  written to the old one since is shown before it goes on to the new one.
\<close>

theorem tail_follows:
  assumes "growing cur rs b c" and "0 \<le> off" and "off \<le> int (length b)"
    and "rolled_round cur (c @ x) (c @ x @ y) n r"
  shows "tail_run fmt rs (cur, off) = ((cur, off + lines_size (drop (nat off) c)), shown_lines fmt (drop (nat off) c))
    \<and> tail_run fmt (rs @ [r]) (cur, off) = ((n, 0), shown_lines fmt (drop (nat off) (c @ x @ y)))"
proof -
  note run = tail_run_growing [OF assms(1-3), of fmt]
  obtain z where z: "c = b @ z" using growing_prefix [OF assms(1)] by blast
  have o: "off \<le> int (length c)" using assms(3) by (simp add: z)
  define m where "m = off + lines_size (drop (nat off) c)"
  have m: "0 \<le> m" "m \<le> int (length c)"
    using assms(2) o lines_size_bound [of "drop (nat off) c"] by (simp_all add: m_def)
  have "shown_lines fmt (drop (nat off) (c @ x @ y))
      = shown_lines fmt (drop (nat off) c) @ shown_lines fmt (drop (nat m) (c @ x @ y))"
    using shown_further(2) [OF assms(2) o, of fmt "x @ y"] by (simp add: m_def)
  then show ?thesis
    using run rolled_step [OF assms(4) m, of fmt]
    by (simp only: growing_append [OF assms(1-3)] prod.case m_def [symmetric] tail_run.simps bool.case append_Nil2 simp_thms)
qed

theorem tail_follows_witness:
  "tail_run (\<lambda>l. l)
     [\<lparr>ta_read = (no_faults, example_dir), ta_list = (no_faults, example_dir), ta_again = (no_faults, []), ta_ended = False\<rparr>,
      \<lparr>ta_read = (no_faults, example_dir),
       ta_list = (no_faults, put example_dir ''spool-2024-03-01.jsonl'' (Reg [])), ta_again = (no_faults, example_dir),
       ta_ended = False\<rparr>]
     (''spool-2024-02-29.jsonl'', 4)
   = ((''spool-2024-03-01.jsonl'', 0), ''[2]'' @ [nl] @ [nl])"
proof -
  let ?b = "''[1]'' @ [nl] @ ''[2]'' @ [nl]"
  let ?q = "\<lparr>ta_read = (no_faults, example_dir), ta_list = (no_faults, example_dir), ta_again = (no_faults, []), ta_ended = False\<rparr>"
  let ?r = "\<lparr>ta_read = (no_faults, example_dir),
       ta_list = (no_faults, put example_dir ''spool-2024-03-01.jsonl'' (Reg [])), ta_again = (no_faults, example_dir),
       ta_ended = False\<rparr>"
  have r: "open_read no_faults example_dir ''spool-2024-02-29.jsonl'' = Some ?b"
    and l: "latest_spool no_faults example_dir = ''spool-2024-02-29.jsonl''"
      "latest_spool no_faults (put example_dir ''spool-2024-03-01.jsonl'' (Reg [])) = ''spool-2024-03-01.jsonl''"
      "''spool-2024-02-29.jsonl'' < ''spool-2024-03-01.jsonl''" by code_simp+
  have "quiet_round ''spool-2024-02-29.jsonl'' ?b ?q" using r l by (simp add: quiet_round_def)
  then have g: "growing ''spool-2024-02-29.jsonl'' [?q] ?b ?b" by (rule growing_once)
  have "rolled_round ''spool-2024-02-29.jsonl'' (?b @ []) (?b @ [] @ []) ''spool-2024-03-01.jsonl'' ?r"
    using r l by (simp add: rolled_round_def)
  from tail_follows [OF g _ _ this, of 4 "\<lambda>l. l"]
  have "tail_run (\<lambda>l. l) ([?q] @ [?r]) (''spool-2024-02-29.jsonl'', 4)
      = ((''spool-2024-03-01.jsonl'', 0), shown_lines (\<lambda>l. l) (drop (nat 4) (?b @ [] @ [])))" by simp
  moreover have "shown_lines (\<lambda>l. l) (drop (nat 4) (?b @ [] @ [])) = ''[2]'' @ [nl] @ [nl]" by code_simp
  ultimately show ?thesis by simp
qed

end
