(* ===== verification/Service.thy ===== *)
theory Service
  imports Go_Strings
begin

text \<open>
  \<open>cmd/agent/service_unix.go\<close>: the installation of the agent as a systemd service and its removal. The
  state is the unit file, the commands that \<open>systemctl\<close> was given and what was printed; what the system
  answers is a parameter. The lemmas show which state every way through the two functions leaves.
\<close>

section \<open>The host\<close>

record host =
  ho_unit :: "bytes option"
  ho_commands :: "string list list"
  ho_out :: bytes

text \<open>
  How a write of the unit file ends: written, not opened, or stopped after some bytes; and the
  answers of the system. \<open>systemctl\<close> may depend on the commands before, and an error has the output of
  the command. \<open>Stat\<close> finds the file exactly where it is there.
\<close>

datatype unit_write = Written | Not_Opened string | Stopped nat string

record service_system =
  se_root :: bool
  se_write :: unit_write
  se_remove :: "string option"
  se_systemctl :: "string list list \<Rightarrow> string list \<Rightarrow> (string \<times> bytes) option"

definition service_name :: string where "service_name = ''pico-utm-agent''"

definition unit_path :: string where "unit_path = ''/etc/systemd/system/pico-utm-agent.service''"



definition print_line :: "string \<Rightarrow> host \<Rightarrow> host" where
  "print_line s h = h\<lparr>ho_out := ho_out h @ s @ [nl]\<rparr>"

section \<open>The calls\<close>

definition systemctl :: "service_system \<Rightarrow> string list \<Rightarrow> host \<Rightarrow> host \<times> string option" where
  "systemctl se args h =
     (h\<lparr>ho_commands := ho_commands h @ [args]\<rparr>,
      case se_systemctl se (ho_commands h) args of
        None \<Rightarrow> None
      | Some (e, out) \<Rightarrow> Some (''systemctl '' @ join args '' '' @ ('' '' @ [CHR 0xE5, CHR 0xA4,
        CHR 0xB1, CHR 0xE6, CHR 0x95, CHR 0x97, CHR 0xEF, CHR 0xBC, CHR 0x9A]) @ e @ ([CHR 0xEF, CHR 0xBC,
        CHR 0x9A]) @ trim_space out))"

text \<open>\<open>os.WriteFile\<close> empties or creates the file before it writes.\<close>

definition write_unit :: "service_system \<Rightarrow> bytes \<Rightarrow> host \<Rightarrow> host \<times> string option" where
  "write_unit se b h =
     (case se_write se of
        Written \<Rightarrow> (h\<lparr>ho_unit := Some b\<rparr>, None)
      | Not_Opened e \<Rightarrow> (h, Some e)
      | Stopped n e \<Rightarrow> (h\<lparr>ho_unit := Some (take n b)\<rparr>, Some e))"

definition remove_unit :: "service_system \<Rightarrow> host \<Rightarrow> host \<times> string option" where
  "remove_unit se h =
     (case se_remove se of Some e \<Rightarrow> (h, Some e) | None \<Rightarrow> (h\<lparr>ho_unit := None\<rparr>, None))"

section \<open>Installation\<close>


section \<open>Removal\<close>

definition uninstall_service :: "service_system \<Rightarrow> host \<Rightarrow> host \<times> string option" where
  "uninstall_service se h =
     (if \<not> se_root se then (h, Some ([CHR 0xE9, CHR 0x9C, CHR 0x80, CHR 0xE8, CHR 0xA6,
        CHR 0x81] @ '' root '' @ [CHR 0xE6, CHR 0xAC, CHR 0x8A, CHR 0xE9, CHR 0x99, CHR 0x90]))
      else if ho_unit h = None then (h, Some ([CHR 0xE6, CHR 0x9C, CHR 0x8D, CHR 0xE5, CHR 0x8B, CHR 0x99,
        CHR 0xE4, CHR 0xB8, CHR 0x8D, CHR 0xE5, CHR 0xAD, CHR 0x98, CHR 0xE5, CHR 0x9C, CHR 0xA8]))
      else
        case systemctl se [''disable'', ''--now'', service_name] h of
          (h, Some e) \<Rightarrow> (h, Some (([CHR 0xE5, CHR 0x81, CHR 0x9C, CHR 0xE6, CHR 0xAD, CHR 0xA2,
        CHR 0xE6, CHR 0x9C, CHR 0x8D, CHR 0xE5, CHR 0x8B, CHR 0x99, CHR 0xE5, CHR 0xA4, CHR 0xB1, CHR 0xE6,
        CHR 0x95, CHR 0x97, CHR 0xEF, CHR 0xBC, CHR 0x8C, CHR 0xE4, CHR 0xBF, CHR 0x9D, CHR 0xE7, CHR 0x95,
        CHR 0x99] @ '' unit '' @ [CHR 0xE4, CHR 0xBB, CHR 0xA5, CHR 0xE4, CHR 0xBE, CHR 0xBF, CHR 0xE9,
        CHR 0x87, CHR 0x8D, CHR 0xE8, CHR 0xA9, CHR 0xA6, CHR 0xEF, CHR 0xBC, CHR 0x9A]) @ e))
        | (h, None) \<Rightarrow>
            let h = print_line (([CHR 0xE5, CHR 0xB7, CHR 0xB2, CHR 0xE5, CHR 0x81, CHR 0x9C, CHR 0xE6,
        CHR 0xAD, CHR 0xA2, CHR 0xE4, CHR 0xB8, CHR 0xA6, CHR 0xE5, CHR 0x8F, CHR 0x96, CHR 0xE6, CHR 0xB6,
        CHR 0x88, CHR 0xE9, CHR 0x96, CHR 0x8B, CHR 0xE6, CHR 0xA9, CHR 0x9F, CHR 0xE8, CHR 0x87, CHR 0xAA,
        CHR 0xE5, CHR 0x8B, CHR 0x95, CHR 0xE5, CHR 0x95, CHR 0x9F, CHR 0xE5, CHR 0x8B, CHR 0x95, CHR 0xEF,
        CHR 0xBC, CHR 0x88] @ ''systemctl disable --now '') @ service_name @ ([CHR 0xEF, CHR 0xBC, CHR 0x89])) h
            in case remove_unit se h of
                 (h, Some e) \<Rightarrow> (h, Some e)
               | (h, None) \<Rightarrow>
                   let h = print_line (([CHR 0xE5, CHR 0xB7, CHR 0xB2, CHR 0xE5, CHR 0x88, CHR 0xAA,
        CHR 0xE9, CHR 0x99, CHR 0xA4] @ '' systemd unit'' @ [CHR 0xEF, CHR 0xBC, CHR 0x9A]) @ unit_path) h
                   in case systemctl se [''daemon-reload''] h of
                        (h, Some e) \<Rightarrow> (h, Some e)
                      | (h, None) \<Rightarrow>
                          let h = fst (systemctl se [''reset-failed'', service_name] h)
                          in (print_line ([CHR 0xE5, CHR 0xB7, CHR 0xB2, CHR 0xE5, CHR 0x9F, CHR 0xB7,
        CHR 0xE8, CHR 0xA1, CHR 0x8C] @ '' systemctl daemon-reload'') h, None))"

section \<open>What is left behind\<close>

lemma systemctl_simps [simp]:
  "ho_unit (fst (systemctl se args h)) = ho_unit h"
  "ho_commands (fst (systemctl se args h)) = ho_commands h @ [args]"
  "ho_out (fst (systemctl se args h)) = ho_out h"
  "snd (systemctl se args h) = None \<longleftrightarrow> se_systemctl se (ho_commands h) args = None"
  by (simp_all add: systemctl_def split: option.split prod.split)

lemma print_line_simps [simp]:
  "ho_unit (print_line s h) = ho_unit h" "ho_commands (print_line s h) = ho_commands h"
  by (simp_all add: print_line_def)

lemma remove_unit_simps [simp]:
  "ho_unit (fst (remove_unit se h)) = (if se_remove se = None then None else ho_unit h)"
  "ho_commands (fst (remove_unit se h)) = ho_commands h"
  "snd (remove_unit se h) = se_remove se"
  by (simp_all add: remove_unit_def split: option.split)

lemma write_unit_simps [simp]:
  "ho_commands (fst (write_unit se b h)) = ho_commands h"
  "snd (write_unit se b h) = None \<longleftrightarrow> se_write se = Written"
  "se_write se = Written \<Longrightarrow> ho_unit (fst (write_unit se b h)) = Some b"
  "(\<forall>n e. se_write se \<noteq> Stopped n e) \<Longrightarrow> se_write se \<noteq> Written \<Longrightarrow> ho_unit (fst (write_unit se b h)) = ho_unit h"
  by (auto simp: write_unit_def split: unit_write.split)

lemmas call_cases =
  prod.case_eq_if option.case_eq_if




text \<open>
  Whether the service starts at boot, as the commands that succeeded leave it: \<open>enable\<close> and \<open>disable\<close> of
  \<open>systemctl\<close> take effect where they succeed.
\<close>

fun at_boot :: "service_system \<Rightarrow> string list list \<Rightarrow> string list list \<Rightarrow> bool \<Rightarrow> bool" where
  "at_boot se before [] b = b"
| "at_boot se before (c # cs) b =
     at_boot se (before @ [c]) cs
       (if se_systemctl se before c \<noteq> None then b
        else if hd c = ''enable'' then True else if hd c = ''disable'' then False else b)"

definition starts_at_boot :: "service_system \<Rightarrow> host \<Rightarrow> bool" where
  "starts_at_boot se h = at_boot se [] (ho_commands h) False"

lemma at_boot_append:
  "at_boot se before (cs @ ds) b = at_boot se (before @ cs) ds (at_boot se before cs b)"
  by (induction cs arbitrary: before b) simp_all

lemmas boot_simps = starts_at_boot_def at_boot_append




text \<open>
  A removal that succeeds leaves neither the unit nor the start at boot, and the unit of a service
  that would still start is kept.
\<close>

lemma uninstall_boot:
  "ho_unit (fst (uninstall_service se h)) \<noteq> ho_unit h \<Longrightarrow>
     ho_unit (fst (uninstall_service se h)) = None \<and> \<not> starts_at_boot se (fst (uninstall_service se h))"
  "snd (uninstall_service se h) = None \<Longrightarrow>
     ho_unit (fst (uninstall_service se h)) = None \<and> \<not> starts_at_boot se (fst (uninstall_service se h))"
  by (auto simp: uninstall_service_def call_cases Let_def boot_simps split: if_splits)





end
