(* ===== verification/Command.thy ===== *)
theory Command
  imports Cli_Facts Cli_Tail Service
begin

text \<open>
  \<open>cmd/agent/main.go\<close>: the command line of the agent. The options are parsed as the package \<open>flag\<close>
  parses them; each command loads what it needs, runs the model of its function and ends with its
  exit code. What the system answers is a record of parameters; the state is the host of
  \<open>Service\<close>, whose output is the standard output of the process.
\<close>

section \<open>Options\<close>












section \<open>The outside\<close>



definition print_text :: "bytes \<Rightarrow> host \<Rightarrow> host" where
  "print_text s h = h\<lparr>ho_out := ho_out h @ s\<rparr>"





section \<open>The commands\<close>














section \<open>What a command line does\<close>





lemma print_text_simps [simp]:
  "ho_unit (print_text s h) = ho_unit h" "ho_commands (print_text s h) = ho_commands h"
  by (simp_all add: print_text_def)





























end
