(* ===== verification/Service_Windows.thy ===== *)
theory Service_Windows
  imports Cli_Test "HOL-Library.Word"
begin

unbundle bit_operations_syntax

text \<open>
  \<open>cmd/agent/service_windows.go\<close> and \<open>internal/agent/platform_windows.go\<close>: the service as the service
  manager of Windows runs, installs and removes it, and the checks of \<open>agent test\<close> there. What the
  manager, the clock and the file system answer are parameters; the state is the registered service
  and what was printed.
\<close>

section \<open>Running as a service\<close>

datatype control = Interrogate | Stop_Service | Shutdown_Service | Other_Control

datatype service_state = Start_Pending | Running | Stop_Pending | Stopped_State

text \<open>What \<open>Execute\<close> waits for: the end of the agent, with its error, or a request with the state it has.\<close>

datatype service_event = Agent_Ended "string option" | Requested control service_state

text \<open>The loop of \<open>Execute\<close>: the states that are reported, and the exit once there is one.\<close>

fun execute_loop :: "service_event list \<Rightarrow> service_state list \<times> (bool \<times> int) option" where
  "execute_loop [] = ([], None)"
| "execute_loop (Agent_Ended e # es) = ([], Some (if e \<noteq> None then (True, 1) else (False, 0)))"
| "execute_loop (Requested c st # es) =
     (if c = Interrogate then (case execute_loop es of (sts, r) \<Rightarrow> (st # sts, r))
      else if c = Stop_Service \<or> c = Shutdown_Service then
        ([Stop_Pending], if \<exists>e\<in>set es. (case e of Agent_Ended x \<Rightarrow> True | _ \<Rightarrow> False) then Some (False, 0) else None)
      else execute_loop es)"

definition execute_service :: "service_event list \<Rightarrow> service_state list \<times> (bool \<times> int) option" where
  "execute_service es = (case execute_loop es of (sts, r) \<Rightarrow> (Start_Pending # Running # sts, r))"

section \<open>The service manager\<close>

record win_service =
  ws_display :: string
  ws_description :: string
  ws_automatic :: bool
  ws_command :: "string list"
  ws_restarts :: "duration list" \<comment> \<open>the delays of the restarts after failures\<close>
  ws_reset :: int \<comment> \<open>the seconds after which failures are counted anew\<close>
  ws_non_crash :: bool \<comment> \<open>also after an exit with an error\<close>

record win_host =
  wh_service :: "win_service option"
  wh_out :: bytes

datatype stop_error = Not_Active | Stop_Failed string

datatype delete_error = Marked_For_Delete | Delete_Failed string

text \<open>
  The answers of the manager. \<open>OpenService\<close> succeeds where the service is registered; \<open>wi_stopping\<close> and
  \<open>wi_removing\<close> are what a loop that waits sees, with the time after each look.
\<close>

record win_system =
  wi_connect :: "string option"
  wi_create :: "string option"
  wi_recovery :: "string option"
  wi_non_crash :: "string option"
  wi_rollback :: "string option"
  wi_state :: "string + service_state"
  wi_stop :: "stop_error option"
  wi_stopping :: "gtime \<times> (bool \<times> gtime) list"
  wi_delete :: "delete_error option"
  wi_removing :: "gtime \<times> (bool \<times> gtime) list"

definition win_service_name :: string where "win_service_name = ''pico-utm-agent''"

definition win_display_name :: string where "win_display_name = ''Pico-UTM Syslog Agent''"

definition dq :: string where "dq = [CHR 0x22]"

definition win_line :: "string \<Rightarrow> win_host \<Rightarrow> win_host" where
  "win_line s h = h\<lparr>wh_out := wh_out h @ s @ [nl]\<rparr>"

definition connect_failed_text :: "string \<Rightarrow> string" where
  "connect_failed_text e = ([CHR 0xE7, CHR 0x84, CHR 0xA1, CHR 0xE6, CHR 0xB3, CHR 0x95, CHR 0xE9, CHR 0x80,
        CHR 0xA3, CHR 0xE7, CHR 0xB7, CHR 0x9A, CHR 0xE5, CHR 0x88, CHR 0xB0, CHR 0xE6, CHR 0x9C, CHR 0x8D,
        CHR 0xE5, CHR 0x8B, CHR 0x99, CHR 0xE7, CHR 0xAE, CHR 0xA1, CHR 0xE7, CHR 0x90, CHR 0x86, CHR 0xE5,
        CHR 0x93, CHR 0xA1, CHR 0xEF, CHR 0xBC, CHR 0x88, CHR 0xE9, CHR 0x9C, CHR 0x80, CHR 0xE8, CHR 0xA6,
        CHR 0x81, CHR 0xE7, CHR 0xB3, CHR 0xBB, CHR 0xE7, CHR 0xB5, CHR 0xB1, CHR 0xE7, CHR 0xAE, CHR 0xA1,
        CHR 0xE7, CHR 0x90, CHR 0x86, CHR 0xE5, CHR 0x93, CHR 0xA1, CHR 0xE6, CHR 0xAC, CHR 0x8A, CHR 0xE9,
        CHR 0x99, CHR 0x90, CHR 0xEF, CHR 0xBC, CHR 0x89, CHR 0xEF, CHR 0xBC, CHR 0x9A]) @ e"

definition recovery_failed_text :: "string \<Rightarrow> string" where
  "recovery_failed_text e = ([CHR 0xE8, CHR 0xA8, CHR 0xAD, CHR 0xE5, CHR 0xAE, CHR 0x9A, CHR 0xE5,
        CHR 0xA4, CHR 0xB1, CHR 0xE6, CHR 0x95, CHR 0x97, CHR 0xE8, CHR 0x87, CHR 0xAA, CHR 0xE5, CHR 0x8B,
        CHR 0x95, CHR 0xE9, CHR 0x87, CHR 0x8D, CHR 0xE5, CHR 0x95, CHR 0x9F, CHR 0xE5, CHR 0xA4, CHR 0xB1,
        CHR 0xE6, CHR 0x95, CHR 0x97, CHR 0xEF, CHR 0xBC, CHR 0x9A]) @ e"

text \<open>\<open>Delete\<close> on the way back, whose error is ignored.\<close>

definition win_rollback :: "win_system \<Rightarrow> win_host \<Rightarrow> win_host" where
  "win_rollback wi h = (if wi_rollback wi = None then h\<lparr>wh_service := None\<rparr> else h)"

definition new_win_service :: "string \<Rightarrow> string \<Rightarrow> win_service" where
  "new_win_service exe config_path =
     \<lparr>ws_display = win_display_name, ws_description = ([CHR 0xE6, CHR 0x8E, CHR 0xA5, CHR 0xE6,
        CHR 0x94, CHR 0xB6] @ '' Pico-UTM Syslog '' @ [CHR 0xE4, CHR 0xBA, CHR 0x8B, CHR 0xE4, CHR 0xBB,
        CHR 0xB6, CHR 0xE4, CHR 0xB8, CHR 0xA6, CHR 0xE8, CHR 0xBD, CHR 0x89, CHR 0xE9, CHR 0x80, CHR 0x81,
        CHR 0xE8, CHR 0x87, CHR 0xB3, CHR 0xE9, CHR 0x81, CHR 0xA0, CHR 0xE7, CHR 0xAB, CHR 0xAF, CHR 0xE6,
        CHR 0x8E, CHR 0xA5, CHR 0xE6, CHR 0x94, CHR 0xB6, CHR 0xE7, CHR 0xAB, CHR 0xAF]), ws_automatic = True,
      ws_command = [exe, ''run'', ''--config'', config_path], ws_restarts = [], ws_reset = 0, ws_non_crash = False\<rparr>"

definition restart_delay :: duration where "restart_delay = 60 * second"

definition win_install ::
  "win_system \<Rightarrow> string \<Rightarrow> string \<Rightarrow> win_host \<Rightarrow> win_host \<times> string option" where
  "win_install wi exe config_path h =
     (case wi_connect wi of
        Some e \<Rightarrow> (h, Some (connect_failed_text e))
      | None \<Rightarrow>
          if wh_service h \<noteq> None then (h, Some ([CHR 0xE6, CHR 0x9C, CHR 0x8D, CHR 0xE5, CHR 0x8B,
        CHR 0x99, CHR 0xE5, CHR 0xB7, CHR 0xB2, CHR 0xE5, CHR 0xAD, CHR 0x98, CHR 0xE5, CHR 0x9C, CHR 0xA8,
        CHR 0xEF, CHR 0xBC, CHR 0x8C, CHR 0xE8, CHR 0xAB, CHR 0x8B, CHR 0xE5, CHR 0x85, CHR 0x88, CHR 0xE5,
        CHR 0x9F, CHR 0xB7, CHR 0xE8, CHR 0xA1, CHR 0x8C] @ '' agent uninstall''))
          else
            case wi_create wi of
              Some e \<Rightarrow> (h, Some (([CHR 0xE5, CHR 0xBB, CHR 0xBA, CHR 0xE7, CHR 0xAB, CHR 0x8B,
        CHR 0xE6, CHR 0x9C, CHR 0x8D, CHR 0xE5, CHR 0x8B, CHR 0x99, CHR 0xE5, CHR 0xA4, CHR 0xB1, CHR 0xE6,
        CHR 0x95, CHR 0x97, CHR 0xEF, CHR 0xBC, CHR 0x9A]) @ e))
            | None \<Rightarrow>
                let s = new_win_service exe config_path;
                    h = h\<lparr>wh_service := Some s\<rparr>
                in case wi_recovery wi of
                     Some e \<Rightarrow> (win_rollback wi h, Some (recovery_failed_text e))
                   | None \<Rightarrow>
                       let s = s\<lparr>ws_restarts := replicate 3 restart_delay, ws_reset := 86400\<rparr>; h = h\<lparr>wh_service := Some s\<rparr>
                       in case wi_non_crash wi of
                            Some e \<Rightarrow> (win_rollback wi h, Some (recovery_failed_text e))
                          | None \<Rightarrow>
                              let h = h\<lparr>wh_service := Some (s\<lparr>ws_non_crash := True\<rparr>)\<rparr>;
                                  h = win_line (([CHR 0xE5, CHR 0xB7, CHR 0xB2, CHR 0xE5, CHR 0xBB,
        CHR 0xBA, CHR 0xE7, CHR 0xAB, CHR 0x8B] @ '' Windows '' @ [CHR 0xE6, CHR 0x9C, CHR 0x8D, CHR 0xE5,
        CHR 0x8B, CHR 0x99, CHR 0xEF, CHR 0xBC, CHR 0x9A]) @ win_service_name @ ([CHR 0xEF, CHR 0xBC,
        CHR 0x88, CHR 0xE9, CHR 0xA1, CHR 0xAF, CHR 0xE7, CHR 0xA4, CHR 0xBA, CHR 0xE5, CHR 0x90, CHR 0x8D,
        CHR 0xE7, CHR 0xA8, CHR 0xB1, CHR 0xEF, CHR 0xBC, CHR 0x9A]) @ win_display_name @ ([CHR 0xEF,
        CHR 0xBC, CHR 0x89])) h;
                                  h = win_line (([CHR 0xE5, CHR 0x9F, CHR 0xB7, CHR 0xE8, CHR 0xA1,
        CHR 0x8C, CHR 0xE5, CHR 0x91, CHR 0xBD, CHR 0xE4, CHR 0xBB, CHR 0xA4, CHR 0xEF, CHR 0xBC,
        CHR 0x9A]) @ dq @ exe @ dq @ '' run --config '' @ dq @ config_path @ dq) h;
                                  h = win_line ([CHR 0xE5, CHR 0x9F, CHR 0xB7, CHR 0xE8, CHR 0xA1, CHR 0x8C,
        CHR 0xE5, CHR 0xB8, CHR 0xB3, CHR 0xE8, CHR 0x99, CHR 0x9F, CHR 0xEF, CHR 0xBC,
        CHR 0x9A] @ ''LocalSystem'') h;
                                  h = win_line ([CHR 0xE5, CHR 0x95, CHR 0x9F, CHR 0xE5, CHR 0x8B, CHR 0x95,
        CHR 0xE9, CHR 0xA1, CHR 0x9E, CHR 0xE5, CHR 0x9E, CHR 0x8B, CHR 0xEF, CHR 0xBC, CHR 0x9A, CHR 0xE8,
        CHR 0x87, CHR 0xAA, CHR 0xE5, CHR 0x8B, CHR 0x95, CHR 0xEF, CHR 0xBC, CHR 0x88, CHR 0xE9, CHR 0x96,
        CHR 0x8B, CHR 0xE6, CHR 0xA9, CHR 0x9F, CHR 0xE5, CHR 0x95, CHR 0x9F, CHR 0xE5, CHR 0x8B, CHR 0x95,
        CHR 0xEF, CHR 0xBC, CHR 0x89]) h;
                                  h = win_line ([CHR 0xE5, CHR 0xA4, CHR 0xB1, CHR 0xE6, CHR 0x95, CHR 0x97,
        CHR 0xE8, CHR 0x99, CHR 0x95, CHR 0xE7, CHR 0x90, CHR 0x86, CHR 0xEF, CHR 0xBC,
        CHR 0x9A] @ ''60 '' @ [CHR 0xE7, CHR 0xA7, CHR 0x92, CHR 0xE5, CHR 0xBE, CHR 0x8C, CHR 0xE8,
        CHR 0x87, CHR 0xAA, CHR 0xE5, CHR 0x8B, CHR 0x95, CHR 0xE9, CHR 0x87, CHR 0x8D, CHR 0xE5, CHR 0x95,
        CHR 0x9F]) h
                              in (h, None))"

text \<open>\<open>waitUntil\<close>: \<open>None\<close> where the looks that are given do not end the wait.\<close>

fun wait_until :: "gtime \<Rightarrow> (bool \<times> gtime) list \<Rightarrow> bool option" where
  "wait_until deadline [] = None"
| "wait_until deadline ((c, now) # looks) =
     (if c then Some True else if deadline < now then Some False else wait_until deadline looks)"

definition wait_limit :: duration where "wait_limit = 30 * second"

definition waited :: "gtime \<times> (bool \<times> gtime) list \<Rightarrow> bool option" where
  "waited w = wait_until (fst w + wait_limit) (snd w)"

text \<open>
  The stop before the removal: whether the service has stopped, or an error. \<open>None\<close> is a wait that has
  not ended.
\<close>

definition win_stop :: "win_system \<Rightarrow> win_host \<Rightarrow> (win_host \<times> string option) option" where
  "win_stop wi h =
     (case wi_state wi of
        Inl e \<Rightarrow> Some (h, None)
      | Inr st \<Rightarrow>
          if st = Stopped_State then Some (h, None)
          else
            let h = win_line ([CHR 0xE5, CHR 0x81, CHR 0x9C, CHR 0xE6, CHR 0xAD, CHR 0xA2, CHR 0xE6,
        CHR 0x9C, CHR 0x8D, CHR 0xE5, CHR 0x8B, CHR 0x99, CHR 0xE2, CHR 0x80, CHR 0xA6]) h
            in case wi_stop wi of
                 Some (Stop_Failed e) \<Rightarrow> Some (h, Some (([CHR 0xE5, CHR 0x81, CHR 0x9C, CHR 0xE6,
        CHR 0xAD, CHR 0xA2, CHR 0xE6, CHR 0x9C, CHR 0x8D, CHR 0xE5, CHR 0x8B, CHR 0x99, CHR 0xE5, CHR 0xA4,
        CHR 0xB1, CHR 0xE6, CHR 0x95, CHR 0x97, CHR 0xEF, CHR 0xBC, CHR 0x9A]) @ e))
               | _ \<Rightarrow>
                   (case waited (wi_stopping wi) of
                      None \<Rightarrow> None
                    | Some False \<Rightarrow> Some (h, Some ([CHR 0xE6, CHR 0x9C, CHR 0x8D, CHR 0xE5,
        CHR 0x8B, CHR 0x99, CHR 0xE6, CHR 0x9C, CHR 0xAA, CHR 0xE8, CHR 0x83, CHR 0xBD, CHR 0xE5, CHR 0x9C,
        CHR 0xA8] @ '' 30 '' @ [CHR 0xE7, CHR 0xA7, CHR 0x92, CHR 0xE5, CHR 0x85, CHR 0xA7, CHR 0xE5,
        CHR 0x81, CHR 0x9C, CHR 0xE6, CHR 0xAD, CHR 0xA2]))
                    | Some True \<Rightarrow> Some (win_line ([CHR 0xE6, CHR 0x9C, CHR 0x8D, CHR 0xE5,
        CHR 0x8B, CHR 0x99, CHR 0xE5, CHR 0xB7, CHR 0xB2, CHR 0xE5, CHR 0x81, CHR 0x9C, CHR 0xE6, CHR 0xAD,
        CHR 0xA2]) h, None)))"

text \<open>
  A deleted service is gone once nobody holds a handle on it, which the second wait looks for; until
  then it is marked.
\<close>

definition win_uninstall :: "win_system \<Rightarrow> win_host \<Rightarrow> (win_host \<times> string option) option" where
  "win_uninstall wi h =
     (case wi_connect wi of
        Some e \<Rightarrow> Some (h, Some (connect_failed_text e))
      | None \<Rightarrow>
          if wh_service h = None then Some (h, Some ([CHR 0xE6, CHR 0x9C, CHR 0x8D, CHR 0xE5, CHR 0x8B,
        CHR 0x99, CHR 0xE4, CHR 0xB8, CHR 0x8D, CHR 0xE5, CHR 0xAD, CHR 0x98, CHR 0xE5, CHR 0x9C, CHR 0xA8]))
          else
            case win_stop wi h of
              None \<Rightarrow> None
            | Some (h, Some e) \<Rightarrow> Some (h, Some e)
            | Some (h, None) \<Rightarrow>
                (case wi_delete wi of
                   Some (Delete_Failed e) \<Rightarrow> Some (h, Some (([CHR 0xE5, CHR 0x88, CHR 0xAA,
        CHR 0xE9, CHR 0x99, CHR 0xA4, CHR 0xE6, CHR 0x9C, CHR 0x8D, CHR 0xE5, CHR 0x8B, CHR 0x99, CHR 0xE5,
        CHR 0xA4, CHR 0xB1, CHR 0xE6, CHR 0x95, CHR 0x97, CHR 0xEF, CHR 0xBC, CHR 0x9A]) @ e))
                 | _ \<Rightarrow>
                     (case waited (wi_removing wi) of
                        None \<Rightarrow> None
                      | Some False \<Rightarrow>
                          Some (h, Some ([CHR 0xE6, CHR 0x9C, CHR 0x8D, CHR 0xE5, CHR 0x8B, CHR 0x99,
        CHR 0xE5, CHR 0xB7, CHR 0xB2, CHR 0xE6, CHR 0xA8, CHR 0x99, CHR 0xE8, CHR 0xA8, CHR 0x98, CHR 0xE7,
        CHR 0x82, CHR 0xBA, CHR 0xE5, CHR 0xBE, CHR 0x85, CHR 0xE5, CHR 0x88, CHR 0xAA, CHR 0xE9, CHR 0x99,
        CHR 0xA4, CHR 0xEF, CHR 0xBC, CHR 0x8C, CHR 0xE4, CHR 0xBD, CHR 0x86] @ '' 30 '' @ [CHR 0xE7,
        CHR 0xA7, CHR 0x92, CHR 0xE5, CHR 0x85, CHR 0xA7, CHR 0xE6, CHR 0x9C, CHR 0xAA, CHR 0xE5, CHR 0xAE,
        CHR 0x8C, CHR 0xE6, CHR 0x88, CHR 0x90, CHR 0xE7, CHR 0xA7, CHR 0xBB, CHR 0xE9, CHR 0x99, CHR 0xA4,
        CHR 0xEF, CHR 0xBC, CHR 0x9B, CHR 0xE8, CHR 0xAB, CHR 0x8B, CHR 0xE9, CHR 0x97, CHR 0x9C, CHR 0xE9,
        CHR 0x96, CHR 0x89, CHR 0xE3, CHR 0x80, CHR 0x8C, CHR 0xE6, CHR 0x9C, CHR 0x8D, CHR 0xE5, CHR 0x8B,
        CHR 0x99, CHR 0xE3, CHR 0x80, CHR 0x8D, CHR 0xE7, CHR 0xAE, CHR 0xA1, CHR 0xE7, CHR 0x90, CHR 0x86,
        CHR 0xE8, CHR 0xA6, CHR 0x96, CHR 0xE7, CHR 0xAA, CHR 0x97, CHR 0xEF, CHR 0xBC,
        CHR 0x88] @ ''services.msc'' @ [CHR 0xEF, CHR 0xBC, CHR 0x89, CHR 0xE5, CHR 0xBE, CHR 0x8C,
        CHR 0xE5, CHR 0x86, CHR 0x8D, CHR 0xE8, CHR 0xA9, CHR 0xA6]))
                      | Some True \<Rightarrow>
                          Some (win_line (([CHR 0xE5, CHR 0xB7, CHR 0xB2, CHR 0xE5, CHR 0x88, CHR 0xAA,
        CHR 0xE9, CHR 0x99, CHR 0xA4, CHR 0xE6, CHR 0x9C, CHR 0x8D, CHR 0xE5, CHR 0x8B, CHR 0x99, CHR 0xE8,
        CHR 0xA8, CHR 0xBB, CHR 0xE5, CHR 0x86, CHR 0x8A, CHR 0xEF, CHR 0xBC,
        CHR 0x9A]) @ win_service_name) (h\<lparr>wh_service := None\<rparr>), None))))"

section \<open>The checks\<close>

text \<open>\<open>DiskFree\<close>: an unsigned number of bytes, read as a signed one.\<close>

definition win_disk_free :: "string + 64 word \<Rightarrow> string + int" where
  "win_disk_free r = (case r of Inl e \<Rightarrow> Inl e | Inr w \<Rightarrow> Inr (sint w))"

text \<open>An entry of an access control list; \<open>None\<close> in a list is an entry that cannot be read.\<close>

record acl_entry =
  ae_allowed :: bool
  ae_mask :: "32 word"
  ae_sid :: string

definition wide_sids :: "(string \<times> string) list" where
  "wide_sids = [(''S-1-1-0'', ''Everyone''), (''S-1-5-11'', ''Authenticated Users''), (''S-1-5-32-545'', ''Users'')]"

definition read_bits :: "32 word" where "read_bits = 0x1 OR 0x80000000 OR 0x10000000"

definition wide_names :: "acl_entry option list \<Rightarrow> string list" where
  "wide_names es =
     concat (map (\<lambda>e. case e of
                        None \<Rightarrow> []
                      | Some a \<Rightarrow>
                          if \<not> ae_allowed a \<or> ae_mask a AND read_bits = 0 then []
                          else (case map_of wide_sids (ae_sid a) of None \<Rightarrow> [] | Some n \<Rightarrow> [n])) es)"

definition win_config_permission :: "string + acl_entry option list option \<Rightarrow> string + bool \<times> string" where
  "win_config_permission r =
     (case r of
        Inl e \<Rightarrow> Inl e
      | Inr None \<Rightarrow> Inr (True, ([CHR 0xE6, CHR 0xAA, CHR 0x94, CHR 0xE6, CHR 0xA1, CHR 0x88,
        CHR 0xE6, CHR 0xB2, CHR 0x92, CHR 0xE6, CHR 0x9C, CHR 0x89] @ '' DACL'' @ [CHR 0xEF, CHR 0xBC,
        CHR 0x88, CHR 0xE4, CHR 0xBB, CHR 0xBB, CHR 0xE4, CHR 0xBD, CHR 0x95, CHR 0xE4, CHR 0xBA, CHR 0xBA,
        CHR 0xE7, CHR 0x9A, CHR 0x86, CHR 0xE5, CHR 0x8F, CHR 0xAF, CHR 0xE5, CHR 0xAD, CHR 0x98, CHR 0xE5,
        CHR 0x8F, CHR 0x96, CHR 0xEF, CHR 0xBC, CHR 0x89]))
      | Inr (Some es) \<Rightarrow>
          if wide_names es \<noteq> [] then Inr (True, join (wide_names es) ([CHR 0xE3, CHR 0x80,
        CHR 0x81]) @ ('' '' @ [CHR 0xE5, CHR 0x8F, CHR 0xAF, CHR 0xE8, CHR 0xAE, CHR 0x80, CHR 0xE5,
        CHR 0x8F, CHR 0x96])) else Inr (False, []))"

definition win_permission_advice :: "string \<Rightarrow> string list" where
  "win_permission_advice path =
     [([CHR 0xE5, CHR 0xBB, CHR 0xBA, CHR 0xE8, CHR 0xAD, CHR 0xB0, CHR 0xEF, CHR 0xBC, CHR 0x9A, CHR 0xE4,
        CHR 0xBB, CHR 0xA5, CHR 0xE7, CHR 0xB3, CHR 0xBB, CHR 0xE7, CHR 0xB5, CHR 0xB1, CHR 0xE7, CHR 0xAE,
        CHR 0xA1, CHR 0xE7, CHR 0x90, CHR 0x86, CHR 0xE5, CHR 0x93, CHR 0xA1, CHR 0xE5, CHR 0x9F, CHR 0xB7,
        CHR 0xE8, CHR 0xA1, CHR 0x8C]),
      ''icacls '' @ dq @ path @ dq @ '' /inheritance:r /grant:r *S-1-5-18:F *S-1-5-32-544:F'']"

definition firewall_rule :: string where "firewall_rule = ''Pico-UTM Syslog''"

definition win_check_firewall :: "bool \<Rightarrow> int \<Rightarrow> check_printer \<Rightarrow> check_printer" where
  "win_check_firewall found port p =
     (if found then check_ok (([CHR 0xE9, CHR 0x98, CHR 0xB2, CHR 0xE7, CHR 0x81, CHR 0xAB, CHR 0xE7,
        CHR 0x89, CHR 0x86, CHR 0xE8, CHR 0xA6, CHR 0x8F, CHR 0xE5, CHR 0x89, CHR 0x87, CHR 0xE3, CHR 0x80,
        CHR 0x8C]) @ firewall_rule @ ([CHR 0xE3, CHR 0x80, CHR 0x8D, CHR 0xE5, CHR 0xAD, CHR 0x98, CHR 0xE5,
        CHR 0x9C, CHR 0xA8])) p
      else check_fail ([CHR 0xE9, CHR 0x98, CHR 0xB2, CHR 0xE7, CHR 0x81, CHR 0xAB, CHR 0xE7, CHR 0x89,
        CHR 0x86, CHR 0xE8, CHR 0xA6, CHR 0x8F, CHR 0xE5, CHR 0x89, CHR 0x87, CHR 0xE4, CHR 0xB8, CHR 0x8D,
        CHR 0xE5, CHR 0xAD, CHR 0x98, CHR 0xE5, CHR 0x9C, CHR 0xA8])
             [([CHR 0xE5, CHR 0xBB, CHR 0xBA, CHR 0xE8, CHR 0xAD, CHR 0xB0, CHR 0xEF, CHR 0xBC, CHR 0x9A,
        CHR 0xE4, CHR 0xBB, CHR 0xA5, CHR 0xE7, CHR 0xB3, CHR 0xBB, CHR 0xE7, CHR 0xB5, CHR 0xB1, CHR 0xE7,
        CHR 0xAE, CHR 0xA1, CHR 0xE7, CHR 0x90, CHR 0x86, CHR 0xE5, CHR 0x93, CHR 0xA1, CHR 0xE5, CHR 0x9F,
        CHR 0xB7, CHR 0xE8, CHR 0xA1, CHR 0x8C]),
              ''netsh advfirewall firewall add rule name='' @ dq @ firewall_rule @ dq
                @ '' dir=in action=allow protocol=UDP localport='' @ int_dec port] p)"

section \<open>What they guarantee\<close>

text \<open>
  The service exits with an error, so that the manager restarts it, exactly when the agent ends with
  an error before anyone asks it to stop; a request to stop is always reported and ends without one.
\<close>

definition asks_stop :: "service_event \<Rightarrow> bool" where
  "asks_stop e = (case e of Requested c st \<Rightarrow> c = Stop_Service \<or> c = Shutdown_Service | _ \<Rightarrow> False)"

definition ended :: "service_event \<Rightarrow> bool" where
  "ended e = (case e of Agent_Ended x \<Rightarrow> True | _ \<Rightarrow> False)"

lemma execute_service_exit:
  "snd (execute_service es) = Some (True, 1) \<longleftrightarrow>
     (\<exists>as e bs. es = as @ Agent_Ended (Some e) # bs \<and> (\<forall>x\<in>set as. \<not> asks_stop x \<and> \<not> ended x))"
proof -
  have "snd (execute_loop es) = Some (True, 1) \<longleftrightarrow>
     (\<exists>as e bs. es = as @ Agent_Ended (Some e) # bs \<and> (\<forall>x\<in>set as. \<not> asks_stop x \<and> \<not> ended x))"
  proof (induction es)
    case (Cons x es)
    have step: "(\<exists>as e bs. x # es = as @ Agent_Ended (Some e) # bs \<and> (\<forall>y\<in>set as. \<not> asks_stop y \<and> \<not> ended y)) \<longleftrightarrow>
        (\<exists>e. x = Agent_Ended (Some e)) \<or>
        \<not> asks_stop x \<and> \<not> ended x \<and> (\<exists>as e bs. es = as @ Agent_Ended (Some e) # bs \<and> (\<forall>y\<in>set as. \<not> asks_stop y \<and> \<not> ended y))"
      (is "?l \<longleftrightarrow> ?r")
    proof
      assume ?l
      then obtain as e bs where as: "x # es = as @ Agent_Ended (Some e) # bs" "\<forall>y\<in>set as. \<not> asks_stop y \<and> \<not> ended y" by blast
      show ?r
      proof (cases as)
        case (Cons y ys)
        with as have "es = ys @ Agent_Ended (Some e) # bs" "\<forall>y\<in>set ys. \<not> asks_stop y \<and> \<not> ended y" "\<not> asks_stop x \<and> \<not> ended x" by auto
        then show ?thesis by blast
      qed (use as in simp)
    next
      assume ?r
      then show ?l
      proof
        assume "\<exists>e. x = Agent_Ended (Some e)"
        then obtain e where "x # es = [] @ Agent_Ended (Some e) # es" by auto
        then show ?l by (intro exI conjI) (assumption, simp)
      next
        assume "\<not> asks_stop x \<and> \<not> ended x \<and> (\<exists>as e bs. es = as @ Agent_Ended (Some e) # bs \<and> (\<forall>y\<in>set as. \<not> asks_stop y \<and> \<not> ended y))"
        then obtain as e bs where "x # es = (x # as) @ Agent_Ended (Some e) # bs" "\<forall>y\<in>set (x # as). \<not> asks_stop y \<and> \<not> ended y" by auto
        then show ?l by blast
      qed
    qed
    show ?case unfolding step
      by (cases x) (use Cons.IH in \<open>auto simp: asks_stop_def ended_def prod.case_eq_if split: option.split\<close>)
  qed simp
  then show ?thesis by (simp add: execute_service_def prod.case_eq_if)
qed

text \<open>An installation that fails leaves no service behind where its deletion succeeds.\<close>

lemma win_install_outcome:
  assumes "wi_rollback wi = None"
  shows "wh_service (fst (win_install wi exe path h)) =
    (if wh_service h \<noteq> None then wh_service h
     else if snd (win_install wi exe path h) = None
     then Some ((new_win_service exe path)\<lparr>ws_restarts := replicate 3 restart_delay, ws_reset := 86400, ws_non_crash := True\<rparr>)
     else None)"
  using assms by (simp add: win_install_def win_rollback_def win_line_def Let_def split: option.split)

text \<open>A wait ends once a look finds what it waits for or comes after the deadline.\<close>

lemma wait_until_ends: "(\<exists>x\<in>set looks. fst x \<or> deadline < snd x) \<Longrightarrow> wait_until deadline looks \<noteq> None"
  by (induction deadline looks rule: wait_until.induct) auto

text \<open>A removal that reports success has removed the service, and any other has kept it.\<close>

lemma win_uninstall_outcome:
  "win_uninstall wi h = Some (h', r) \<Longrightarrow> wh_service h' = (if r = None then None else wh_service h)"
  by (auto simp: win_uninstall_def win_stop_def win_line_def Let_def
      split: option.splits sum.splits if_splits bool.splits stop_error.splits delete_error.splits)

text \<open>A configuration is found safe exactly when no entry lets one of the three groups read it.\<close>

lemma win_config_permission_safe:
  "win_config_permission (Inr (Some es)) = Inr (False, []) \<longleftrightarrow>
     (\<forall>a. Some a \<in> set es \<longrightarrow> ae_allowed a \<longrightarrow> ae_sid a \<in> fst ` set wide_sids \<longrightarrow> ae_mask a AND read_bits = 0)"
proof -
  have m: "map_of wide_sids s = None \<longleftrightarrow> s \<notin> fst ` set wide_sids" for s by (rule map_of_eq_None_iff)
  have "wide_names es = [] \<longleftrightarrow>
     (\<forall>a. Some a \<in> set es \<longrightarrow> ae_allowed a \<longrightarrow> ae_sid a \<in> fst ` set wide_sids \<longrightarrow> ae_mask a AND read_bits = 0)"
    by (induction es) (auto simp: wide_names_def m [symmetric] split: option.split)
  then show ?thesis by (simp add: win_config_permission_def)
qed

end
