(* ===== verification/Startup.thy ===== *)
theory Startup
  imports Config_Load Collector
begin

text \<open>
  How the two programs come up: the HTTPS client of \<open>internal/agent/httpclient.go\<close> with its roots and its
  proxy, and \<open>cmd/collector/main.go\<close> with the connection and the migration of
  \<open>internal/collector/store.go\<close>. Certificates, URLs, the database driver and the listener are parameters.
\<close>

section \<open>The client\<close>

text \<open>
  What the client needs of the libraries: certificate pools of type \<open>'p\<close> and URLs of type \<open>'u\<close>. A
  request for the endpoint is made of the text of its URL.
\<close>

record ('p, 'u) client_library =
  cl_read :: "string \<Rightarrow> string + bytes"
  cl_system_pool :: "'p option"
  cl_empty_pool :: 'p
  cl_append :: "'p \<Rightarrow> bytes \<Rightarrow> 'p option" \<comment> \<open>\<open>None\<close> where no certificate is found\<close>
  cl_parse :: "string \<Rightarrow> 'u option"
  cl_request :: "string \<Rightarrow> string + 'u"
  cl_environment :: "'u \<Rightarrow> string + 'u option"

datatype 'u proxy_rule = From_Environment | Always 'u

record ('p, 'u) api_client =
  ap_endpoint :: string
  ap_token :: string
  ap_proxy :: "'u proxy_rule"
  ap_roots :: "'p option" \<comment> \<open>\<open>None\<close> for those of the system\<close>
  ap_dial_timeout :: duration
  ap_keep_alive :: duration
  ap_handshake_timeout :: duration
  ap_header_timeout :: duration
  ap_idle_timeout :: duration
  ap_total_timeout :: duration

definition no_pem_text :: string where "no_pem_text = (''ca_file '' @ [CHR 0xE4, CHR 0xB8, CHR 0xAD,
        CHR 0xE6, CHR 0xB2, CHR 0x92, CHR 0xE6, CHR 0x9C, CHR 0x89, CHR 0xE6, CHR 0x9C, CHR 0x89, CHR 0xE6,
        CHR 0x95, CHR 0x88, CHR 0xE7, CHR 0x9A, CHR 0x84] @ '' PEM '' @ [CHR 0xE6, CHR 0x86, CHR 0x91,
        CHR 0xE8, CHR 0xAD, CHR 0x89])"

text \<open>The roots, where a test may give its own.\<close>

definition client_roots :: "('p, 'u) client_library \<Rightarrow> agent_config \<Rightarrow> 'p option \<Rightarrow> string + 'p option" where
  "client_roots cl c given =
     (if given = None \<and> cf_ca_file c \<noteq> [] then
        (case cl_read cl (cf_ca_file c) of
           Inl e \<Rightarrow> Inl (([CHR 0xE8, CHR 0xAE, CHR 0x80, CHR 0xE5, CHR 0x8F,
        CHR 0x96] @ '' ca_file '' @ [CHR 0xE5, CHR 0xA4, CHR 0xB1, CHR 0xE6, CHR 0x95, CHR 0x97, CHR 0xEF,
        CHR 0xBC, CHR 0x9A]) @ e)
         | Inr pem \<Rightarrow>
             (case cl_append cl (case cl_system_pool cl of None \<Rightarrow> cl_empty_pool cl | Some p \<Rightarrow> p) pem of
                None \<Rightarrow> Inl no_pem_text
              | Some p \<Rightarrow> Inr (Some p)))
      else Inr given)"

definition client_proxy :: "('p, 'u) client_library \<Rightarrow> agent_config \<Rightarrow> string + 'u proxy_rule" where
  "client_proxy cl c =
     (if cf_proxy_url c \<noteq> [] then
        (case cl_parse cl (cf_proxy_url c) of None \<Rightarrow> Inl (''proxy.url '' @ [CHR 0xE4, CHR 0xB8,
        CHR 0x8D, CHR 0xE5, CHR 0x90, CHR 0x88, CHR 0xE6, CHR 0xB3, CHR 0x95]) | Some u \<Rightarrow> Inr (Always u))
      else Inr From_Environment)"

definition new_api_client ::
  "('p, 'u) client_library \<Rightarrow> agent_config \<Rightarrow> 'p option \<Rightarrow> string + ('p, 'u) api_client" where
  "new_api_client cl c given =
     (case client_roots cl c given of
        Inl e \<Rightarrow> Inl e
      | Inr roots \<Rightarrow>
          (case client_proxy cl c of
             Inl e \<Rightarrow> Inl e
           | Inr proxy \<Rightarrow>
               Inr \<lparr>ap_endpoint = endpoint_base c, ap_token = cf_token c, ap_proxy = proxy, ap_roots = roots,
                    ap_dial_timeout = 10 * second, ap_keep_alive = 30 * second,
                    ap_handshake_timeout = 10 * second, ap_header_timeout = 30 * second,
                    ap_idle_timeout = 90 * second, ap_total_timeout = 60 * second\<rparr>))"

text \<open>\<open>proxyFor\<close>: the proxy that a connection to the endpoint takes.\<close>

definition proxy_for :: "('p, 'u) client_library \<Rightarrow> ('p, 'u) api_client \<Rightarrow> string + 'u option" where
  "proxy_for cl ap =
     (case cl_request cl (ap_endpoint ap) of
        Inl e \<Rightarrow> Inl e
      | Inr u \<Rightarrow>
          (case ap_proxy ap of Always p \<Rightarrow> Inr (Some p) | From_Environment \<Rightarrow> cl_environment cl u))"

section \<open>The collector\<close>

record collector_world =
  cw_env :: "string \<Rightarrow> string"
  cw_connect :: "string \<Rightarrow> string option"
  cw_ping :: "string option"
  cw_migrate :: "string option"
  cw_served :: "(backend \<times> request) list"
  cw_stopped :: "string option" \<comment> \<open>how \<open>ListenAndServe\<close> ends, \<open>None\<close> after a shutdown\<close>

text \<open>\<open>OpenPostgres\<close>: a pool whose first ping succeeds.\<close>

definition open_postgres :: "collector_world \<Rightarrow> string \<Rightarrow> string option" where
  "open_postgres cw url = (case cw_connect cw url of Some e \<Rightarrow> Some e | None \<Rightarrow> cw_ping cw)"

definition env_error_text :: "env_error \<Rightarrow> string" where
  "env_error_text e =
     (case e of
        BadMaxBody \<Rightarrow> ''MAX_BODY_BYTES must be an integer >= 1024''
      | NoDatabaseUrl \<Rightarrow> ''DATABASE_URL is required''
      | NoTokens \<Rightarrow> ''COLLECTOR_TOKENS must contain at least one token'')"

record http_server =
  hs_addr :: string
  hs_handler :: server
  hs_header_timeout :: duration
  hs_read_timeout :: duration
  hs_write_timeout :: duration
  hs_idle_timeout :: duration

definition http_server_of :: "collector_config \<Rightarrow> http_server" where
  "http_server_of c =
     \<lparr>hs_addr = cc_listen_addr c, hs_handler = new_server c, hs_header_timeout = cc_read_timeout c,
      hs_read_timeout = cc_read_timeout c, hs_write_timeout = cc_write_timeout c,
      hs_idle_timeout = 60 * cc_read_timeout c\<rparr>"

text \<open>The requests that are served, one after the other on the tables.\<close>

fun serve_requests :: "server \<Rightarrow> (backend \<times> request) list \<Rightarrow> tables \<Rightarrow> tables \<times> response list" where
  "serve_requests sv [] s = (s, [])"
| "serve_requests sv ((bk, r) # rs) s =
     (case serve_http bk sv r s of
        (s, a) \<Rightarrow> (case serve_requests sv rs s of (s, as) \<Rightarrow> (s, a # as)))"

record collector_end =
  ce_log :: "(string \<times> string) list" \<comment> \<open>messages with their error or address\<close>
  ce_exit :: int
  ce_tables :: tables
  ce_responses :: "response list"

text \<open>
  \<open>main\<close> of the collector. The migration creates what is not there yet, so it leaves the tables of
  the model as they are.
\<close>

definition collector_main :: "collector_world \<Rightarrow> tables \<Rightarrow> collector_end" where
  "collector_main cw s =
     (let stop = (\<lambda>m e code. \<lparr>ce_log = [(m, e)], ce_exit = code, ce_tables = s, ce_responses = []\<rparr>)
      in case config_from_env (cw_env cw) of
           Inl e \<Rightarrow> stop ''invalid configuration'' (env_error_text e) 2
         | Inr c \<Rightarrow>
             (case open_postgres cw (cc_database_url c) of
                Some e \<Rightarrow> stop ''database connection failed'' e 1
              | None \<Rightarrow>
                  (case cw_migrate cw of
                     Some e \<Rightarrow> stop ''database migration failed'' e 1
                   | None \<Rightarrow>
                       let hs = http_server_of c
                       in case serve_requests (hs_handler hs) (cw_served cw) s of (s, rs) \<Rightarrow>
                            \<lparr>ce_log = (''collector listening'', hs_addr hs)
                                      # (case cw_stopped cw of None \<Rightarrow> [] | Some e \<Rightarrow> [(''server stopped'', e)]),
                             ce_exit = (if cw_stopped cw = None then 0 else 1), ce_tables = s, ce_responses = rs\<rparr>)))"

section \<open>What they guarantee\<close>

text \<open>
  A configuration that was accepted has a proxy that can be parsed, so only its file of certificates
  can still keep the client from being built; and a proxy of the configuration goes before one of the
  environment.
\<close>

lemma new_api_client_accepted:
  assumes "load_config decode parse_url file_exists path = Inr c" "\<And>s. cl_parse cl s = None \<longleftrightarrow> parse_url s = None"
  shows "(\<exists>e. new_api_client cl c given = Inl e) \<longleftrightarrow> (\<exists>e. client_roots cl c given = Inl e)"
proof -
  have "settings_ok parse_url file_exists c" using assms(1)
    by (auto simp: load_config_def validate_def Let_def config_errors_none split: sum.splits prod.splits if_splits)
  then have "client_proxy cl c \<noteq> Inl e" for e
    using assms(2) by (auto simp: client_proxy_def settings_ok_def proxy_ok_def split: option.split)
  then show ?thesis by (auto simp: new_api_client_def split: sum.splits)
qed

lemma proxy_for_configured:
  assumes "new_api_client cl c given = Inr ap" "cf_proxy_url c \<noteq> []" "cl_parse cl (cf_proxy_url c) = Some u"
  shows "proxy_for cl ap = Inr (Some u) \<or> (\<exists>e. proxy_for cl ap = Inl e)"
  using assms by (auto simp: new_api_client_def client_proxy_def proxy_for_def split: sum.splits)

text \<open>The collector serves nothing before its configuration, its database and the tables are there.\<close>

lemma collector_main_refused:
  "ce_exit (collector_main cw s) = 2 \<longleftrightarrow> (\<exists>e. config_from_env (cw_env cw) = Inl e)"
  "ce_responses (collector_main cw s) \<noteq> [] \<Longrightarrow>
     \<exists>c. config_from_env (cw_env cw) = Inr c \<and> open_postgres cw (cc_database_url c) = None \<and> cw_migrate cw = None"
  by (auto simp: collector_main_def Let_def split: sum.splits option.splits prod.splits)

end
