(* ===== verification/Syslog_Gen.thy ===== *)
theory Syslog_Gen
  imports Syslog_Facts Json_Accept
begin

text \<open>
  \<open>cmd/syslog-gen/main.go\<close>: the generator of test messages against the parser that reads them. The
  message of every number is what the parser of the agent takes apart again, so that a run of the
  generator exercises both an accepted payload and a rejected one.
\<close>

section \<open>The messages\<close>

text \<open>\<open>time.Stamp\<close> and the numbers with leading zeros.\<close>

definition format_stamp :: "gtime \<Rightarrow> string" where
  "format_stamp t =
     (case civil_of (day_of t) of (y, m, d) \<Rightarrow>
        short_months ! nat (m - 1) @ '' '' @ (if d < 10 then '' '' @ int_dec d else int_dec d) @ '' '' @ format_clock t)"

definition pad_int :: "nat \<Rightarrow> int \<Rightarrow> string" where
  "pad_int w i = (if i < 0 then ''-'' @ pad_nat (w - 1) (nat (- i)) else pad_nat w (nat i))"

definition unix :: "gtime \<Rightarrow> int" where "unix t = t div second"

datatype gen_kind = Dpi | Mixed

text \<open>The payloads, as the objects that the templates spell out; \<open>ts\<close> is the time in seconds.\<close>

definition user_act_payload :: "int \<Rightarrow> int \<Rightarrow> json" where
  "user_act_payload ts i =
     JObj [(''ts'', jint ts), (''user'', JStr ''syslog-gen''), (''src'', JStr ''192.168.1.200''),
           (''msg'', JStr (''Sign in (syslog-gen #'' @ int_dec (i + 1) @ '')''))]"

definition ips_payload :: "int \<Rightarrow> int \<Rightarrow> json" where
  "ips_payload ts i =
     JObj [(''action'', JStr ''Block''), (''aid'', jint 0), (''category'', JStr ''unauthorized_access''),
           (''dip'', JStr ''208.94.116.246''), (''domain'', JStr ''malware.wicar.org''), (''dport'', jint 80),
           (''event_id'', JStr (pad_int 15 i)), (''group_id'', jint 0), (''initial_from_wan'', jint 0),
           (''lan_wan_direction'', jint 1), (''mac'', JStr ''D8:BB:C1:D5:49:AD''), (''module'', JStr ''ips''),
           (''msg'', JStr ''syslog-gen test event''), (''osi4_proto'', JStr ''tcp''), (''osi7_proto'', JStr ''http''),
           (''path'', JStr ''/''), (''severity'', JStr ''Critical''), (''sid'', JStr ''8100496005''),
           (''sip'', JStr ''192.168.1.200''), (''sockfd'', jint 0), (''sport'', jint 59435),
           (''ts'', JStr (int_dec ts)), (''type'', JStr ''SIG''), (''wan_region'', JStr ''US'')]"

definition wg_payload :: "int \<Rightarrow> int \<Rightarrow> json" where
  "wg_payload ts i =
     JObj [(''action'', JStr ''Rdpage''), (''dip'', JStr ''89.238.73.97''), (''domain'', JStr ''secure.eicar.org''),
           (''dport'', jint 443), (''event_id'', JStr (pad_int 15 i)), (''group_id'', jint 0),
           (''hit_by'', JStr ''URL''), (''initial_from_wan'', jint 0), (''lan_wan_direction'', jint 1),
           (''mac'', JStr ''D8:BB:C1:D5:49:AD''), (''module'', JStr ''wg''), (''osi4_proto'', JStr ''tcp''),
           (''osi7_proto'', JStr ''https''), (''severity'', JStr ''Low''), (''sid'', JStr ''1100000000014''),
           (''sig_src'', JStr ''CLOUD''), (''sip'', JStr ''192.168.1.200''), (''sockfd'', jint 0),
           (''sport'', jint 62262), (''ts'', JStr (int_dec ts)), (''wan_region'', JStr ''DE''), (''web_cid'', jint 0),
           (''wg_cid'', jint 11)]"

definition rapid_text :: "int \<Rightarrow> string" where
  "rapid_text i =
     ''Abort 404 NotFoundError: from 127.0.0.1 [system] GET /apis/v1/cloud_scanned_devices/SYSLOGGEN''
     @ pad_int 6 (i + 1) @ [nl] @ ''Device not found''"

definition gen_variant :: "gen_kind \<Rightarrow> int \<Rightarrow> int" where
  "gen_variant k i = (if k = Mixed then i mod 4 else i mod 2 + 1)"

text \<open>The header of a message, with the program before the number of its process.\<close>

definition gen_line :: "int \<Rightarrow> string \<Rightarrow> string \<Rightarrow> string \<Rightarrow> string \<Rightarrow> bytes" where
  "gen_line pri stamp host program rest =
     ''<'' @ int_dec pri @ ''>'' @ stamp @ '' '' @ host @ '' '' @ program @ ''[2554]: '' @ rest"

definition message :: "gtime \<Rightarrow> gen_kind \<Rightarrow> int \<Rightarrow> int \<Rightarrow> string \<Rightarrow> bytes" where
  "message now k i eid host =
     (let stamp = format_stamp now; ts = unix now; v = gen_variant k i
      in if v = 0 then gen_line 14 stamp host ''user_act'' (print_json json_quote (user_act_payload ts i))
         else if v = 1 then gen_line 14 stamp host ''dpi_event'' (print_json json_quote (ips_payload ts eid))
         else if v = 2 then gen_line 14 stamp host ''dpi_event'' (print_json json_quote (wg_payload ts eid))
         else gen_line 11 stamp host ''rapid'' (rapid_text i))"

section \<open>A run\<close>

record gen_options =
  go_n :: int
  go_rate :: int
  go_start_id :: int
  go_type :: string
  go_host :: string

definition gen_kind_of :: "string \<Rightarrow> gen_kind option" where
  "gen_kind_of s = (if s = ''dpi'' then Some Dpi else if s = ''mixed'' then Some Mixed else None)"

text \<open>How long a run that started at \<open>start\<close> waits at \<open>now\<close> before the message of a number.\<close>

definition gen_pause :: "gen_options \<Rightarrow> gtime \<Rightarrow> int \<Rightarrow> gtime \<Rightarrow> duration" where
  "gen_pause go start i now =
     (if 0 < go_rate go then max 0 (start + i * second div go_rate go - now) else 0)"

text \<open>
  The loop over the messages from a number on; each has the time at which it is made and whether it could
  be written. The result is what was sent and whether all of it was.
\<close>

fun gen_loop :: "gen_kind \<Rightarrow> int \<Rightarrow> string \<Rightarrow> int \<Rightarrow> (gtime \<times> bool) list \<Rightarrow> bytes list \<times> bool" where
  "gen_loop k start host i [] = ([], True)"
| "gen_loop k start host i ((now, written) # ws) =
     (if \<not> written then ([], False)
      else case gen_loop k start host (i + 1) ws of
             (ms, r) \<Rightarrow> (message now k i (start + i) host # ms, r))"

text \<open>
  \<open>main\<close> after the parsing of its options: the exit code and the datagrams. The \<open>writes\<close> are those of
  the messages in turn.
\<close>

definition gen_main :: "gen_options \<Rightarrow> gtime \<Rightarrow> bool \<Rightarrow> (gtime \<times> bool) list \<Rightarrow> int \<times> bytes list" where
  "gen_main go now dialled writes =
     (case (if go_n go \<le> 0 \<or> go_rate go < 0 then None else gen_kind_of (go_type go)) of
        None \<Rightarrow> (2, [])
      | Some k \<Rightarrow>
          let start = (if go_start_id go = 0 then unix now * 100000 else go_start_id go)
          in if \<not> dialled then (1, [])
             else case gen_loop k start (go_host go) 0 (take (nat (go_n go)) writes) of
                    (ms, r) \<Rightarrow> (if r then 0 else 1, ms))"

section \<open>The stamp is valid\<close>

lemma short_month_table:
  "list_all (\<lambda>k. length (short_months ! k) = 3
     \<and> find (\<lambda>i. map to_lower (short_months ! k) = map to_lower (short_months ! i)) [0..<12] = Some k) [0..<12]"
  by code_simp

lemma short_month:
  assumes "1 \<le> m" "m \<le> 12"
  shows "length (short_months ! nat (m - 1)) = 3"
    and "lookup_month (short_months ! nat (m - 1) @ v) = Some (m, v)"
proof -
  define k where "k = nat (m - 1)"
  have "k \<in> set [0..<12]" "int k + 1 = m" using assms by (auto simp: k_def)
  with short_month_table have t: "length (short_months ! k) = 3"
    "find (\<lambda>i. map to_lower (short_months ! k) = map to_lower (short_months ! i)) [0..<12] = Some k"
    unfolding list_all_iff by blast+
  then show "length (short_months ! nat (m - 1)) = 3" by (simp add: k_def)
  have "take 3 (short_months ! k @ v) = short_months ! k" "drop 3 (short_months ! k @ v) = v" using t(1) by simp_all
  with t(2) \<open>int k + 1 = m\<close> have "lookup_month (short_months ! k @ v) = Some (m, v)"
    unfolding lookup_month_def by simp
  then show "lookup_month (short_months ! nat (m - 1) @ v) = Some (m, v)" by (simp only: k_def)
qed

definition day_text :: "int \<Rightarrow> string" where
  "day_text d = (if d < 10 then '' '' @ int_dec d else int_dec d)"

lemma day_text_table:
  "list_all (\<lambda>n. day_text (int n) = [CHR '' '', digit_char n]) [1..<10]"
  "list_all (\<lambda>n. day_text (int n) = pad_nat 2 n) [10..<32]"
  by code_simp+

lemma drop_blanks_digit: "is_digit a \<Longrightarrow> dropWhile (\<lambda>c. c = CHR '' '') (a # v) = a # v"
  by (auto simp: is_digit_of_char)

lemma pad_two:
  assumes "n < 100"
  obtains a b where "pad_nat 2 n = [a, b]" "is_digit a" "is_digit b"
proof -
  have "length (pad_nat 2 n) = 2" using assms by simp
  then obtain a b where "pad_nat 2 n = [a, b]" using two_chars by blast
  with pad_digits [of _ 2 n] that show thesis by auto
qed

lemma day_text_read:
  assumes "1 \<le> d" "d \<le> 31"
  shows "length (day_text d) = 2
    \<and> (\<exists>w. dropWhile (\<lambda>c. c = CHR '' '') (day_text d @ CHR '' '' # v) = w \<and> w \<noteq> [] \<and> hd w \<noteq> CHR '' ''
          \<and> getnum w False = Some (d, CHR '' '' # v))"
proof (cases "d < 10")
  case True
  define n where "n = nat d"
  have n: "n \<in> set [1..<10]" "int n = d" using assms True by (auto simp: n_def)
  with day_text_table(1) have t: "day_text d = [CHR '' '', digit_char n]" unfolding list_all_iff by blast
  have dg: "is_digit (digit_char n)" using n by (simp add: is_digit_of_char digit_char_def)
  have sp: "\<not> is_digit CHR '' ''" by (simp add: is_digit_of_char)
  have "digit_char n \<noteq> CHR '' ''" using dg sp by metis
  moreover have "getnum (digit_char n # CHR '' '' # v) False = Some (d, CHR '' '' # v)"
    using dg sp n by (simp add: getnum_def digit_at_def)
  ultimately show ?thesis unfolding t using drop_blanks_digit [OF dg] by simp
next
  case False
  define n where "n = nat d"
  have "10 \<le> n \<and> n < 32" using assms False by (auto simp: n_def nat_less_iff le_nat_iff)
  then have n: "n \<in> set [10..<32]" "n < 100" by (simp_all only: set_upt atLeastLessThan_iff) simp
  have "int n = d" using False by (simp add: n_def)
  with n(1) day_text_table(2) have t: "day_text d = pad_nat 2 n" unfolding list_all_iff by blast
  obtain a b where ab: "pad_nat 2 n = [a, b]" "is_digit a" "is_digit b" using pad_two [OF n(2)] by metis
  have "a \<noteq> CHR '' ''" using ab(2) by (auto simp: is_digit_of_char)
  with ab drop_blanks_digit [OF ab(2)] getnum_pad_loose [OF n(2), of "CHR '' '' # v"] \<open>int n = d\<close> show ?thesis
    unfolding t by simp
qed

lemma skip_blank: "skip v '' '' = (if v \<noteq> [] \<and> hd v \<noteq> CHR '' '' then None else Some (dropWhile (\<lambda>c. c = CHR '' '') v))"
  by (simp add: skip.simps [of v])

lemma drop_blanks_pad:
  assumes "n < 100"
  shows "dropWhile (\<lambda>c. c = CHR '' '') (pad_nat 2 n @ v) = pad_nat 2 n @ v"
proof -
  obtain a b where "pad_nat 2 n = [a, b]" "is_digit a" using pad_two [OF assms] by metis
  then show ?thesis using drop_blanks_digit [of a] by simp
qed

lemma parse_stamp_parts:
  assumes "1 \<le> m" "m \<le> 12" "1 \<le> d" "d \<le> 31" "h \<le> 23" "mi \<le> 59" "se \<le> 59"
  shows "parse_chunks stamp_layout ptime_init
      (short_months ! nat (m - 1) @ CHR '' '' # day_text d @ CHR '' '' # pad_nat 2 h @ CHR '':'' # pad_nat 2 mi @ CHR '':'' # pad_nat 2 se)
    = Some (ptime_init\<lparr>p_month := m, p_day := d, p_hour := int h, p_min := int mi, p_sec := int se\<rparr>)"
proof -
  let ?c = "pad_nat 2 h @ CHR '':'' # pad_nat 2 mi @ CHR '':'' # pad_nat 2 se"
  have b: "h < 100" "mi < 100" "se < 100" using assms by auto
  obtain w where w: "dropWhile (\<lambda>c. c = CHR '' '') (day_text d @ CHR '' '' # ?c) = w" "w \<noteq> []" "hd w \<noteq> CHR '' ''"
    "getnum w False = Some (d, CHR '' '' # ?c)"
    using day_text_read [OF assms(3,4), of ?c] by blast
  show ?thesis
    unfolding stamp_layout_def parse_chunks.simps parse_chunk.simps short_month(2) [OF assms(1,2)]
    using assms b w getnum_pad [OF b(3), of "[]"]
    by (simp add: num_field_def in_range_def ptime_init_def skip_blank drop_blanks_pad getnum_pad getnum_pad_loose
        is_frac_def)
qed

lemma days_in_leap: "days_in m y \<le> days_in m 0"
  by (simp add: days_in_def is_leap_def)

lemma format_stamp_valid: "length (format_stamp t) = 15 \<and> valid_stamp (format_stamp t)"
proof -
  obtain y m d where c: "civil_of (day_of t) = (y, m, d)" by (cases "civil_of (day_of t)")
  with valid_civil_of [of "day_of t"] have v: "1 \<le> m" "m \<le> 12" "1 \<le> d" "d \<le> days_in m y" by simp_all
  then have d: "d \<le> 31" "d \<le> days_in m 0" using days_in_bounds [of m y] days_in_leap [of m y] by simp_all
  define s where "s = t mod day_ns div second"
  have s: "0 \<le> s" "s < 86400"
    using pos_mod_bound [of day_ns t] pos_mod_sign [of day_ns t] by (simp_all add: s_def day_ns_def second_def)
  define h where "h = nat (s div 3600)"
  define mi where "mi = nat (s div 60 mod 60)"
  define se where "se = nat (s mod 60)"
  have b: "h \<le> 23" "mi \<le> 59" "se \<le> 59"
    using s pos_mod_bound [of 60 s] pos_mod_bound [of 60 "s div 60"] by (auto simp: h_def mi_def se_def nat_le_iff)
  have f: "format_stamp t = short_months ! nat (m - 1) @ CHR '' '' # day_text d @ CHR '' '' # pad_nat 2 h @ CHR '':''
      # pad_nat 2 mi @ CHR '':'' # pad_nat 2 se"
    by (simp add: format_stamp_def c day_text_def format_clock_def s_def [symmetric] h_def mi_def se_def)
  have "length (format_stamp t) = 15"
    unfolding f using short_month(1) [OF v(1,2)] day_text_read [OF v(3) d(1)] b by simp
  moreover have "valid_stamp (format_stamp t)"
    unfolding valid_stamp_def f time_parse_def parse_stamp_parts [OF v(1-3) d(1) b]
    using v(3) d(2) by (simp add: ptime_init_def)
  ultimately show ?thesis ..
qed

section \<open>The messages are read back\<close>

text \<open>A host that a header can carry.\<close>

definition host_ok :: "string \<Rightarrow> bool" where
  "host_ok h \<longleftrightarrow> h \<noteq> [] \<and> CHR '' '' \<notin> set h"

lemma utf8_valid_safe_Cons: "safe_byte c \<Longrightarrow> utf8_valid (c # s) = utf8_valid s"
  by (subst utf8_valid.simps) (simp add: rune_size_safe)

lemma safe_digit: "is_digit c \<Longrightarrow> safe_byte c"
  by (auto simp: is_digit_of_char safe_byte_def byte_in_def)

lemma safe_int_dec: "\<forall>c\<in>set (int_dec i). safe_byte c"
  by (auto simp: int_dec_def safe_byte_def byte_in_def dest!: nat_dec_digits safe_digit)

lemma safe_pad_int: "\<forall>c\<in>set (pad_int w i). safe_byte c"
  by (auto simp: pad_int_def safe_byte_def byte_in_def dest!: pad_digits safe_digit)

lemma printable_int: "printable (jint i)"
  by (simp add: exI [of _ i])

lemma number_valid: "utf8_valid (int_dec i)" "utf8_valid (pad_int w i)"
  by (rule utf8_valid_safe, rule safe_int_dec, rule utf8_valid_safe, rule safe_pad_int)

lemmas payload_simps =
  utf8_valid_safe_Cons number_valid utf8_valid_append [OF number_valid(1)] printable_int safe_byte_def byte_in_def

lemma payloads_printable:
  "printable (user_act_payload ts i)" "printable (ips_payload ts i)" "printable (wg_payload ts i)"
  "height (user_act_payload ts i) = 1" "height (ips_payload ts i) = 1" "height (wg_payload ts i) = 1"
  by (simp_all add: user_act_payload_def ips_payload_def wg_payload_def payload_simps del: printable.simps(3))

text \<open>The payload and the program of a message, as they are read back.\<close>

definition gen_payload :: "gtime \<Rightarrow> int \<Rightarrow> int \<Rightarrow> int \<Rightarrow> json" where
  "gen_payload now v i eid =
     (if v = 0 then user_act_payload (unix now) i else if v = 1 then ips_payload (unix now) eid
      else wg_payload (unix now) eid)"

lemma payload_is_object:
  "json_valid (print_json json_quote (gen_payload now v i eid))"
  "\<exists>b. print_json json_quote (gen_payload now v i eid) = CHR ''{'' # b @ ''}''"
proof -
  have "printable (gen_payload now v i eid)" "height (gen_payload now v i eid) \<le> max_nesting_depth"
    using payloads_printable [of "unix now" i] payloads_printable [of "unix now" eid]
    by (simp_all add: gen_payload_def max_nesting_depth_def)
  then show "json_valid (print_json json_quote (gen_payload now v i eid))" by (rule json_valid_print)
  have "\<exists>ms. gen_payload now v i eid = JObj ms"
    by (simp add: gen_payload_def user_act_payload_def ips_payload_def wg_payload_def)
  then show "\<exists>b. print_json json_quote (gen_payload now v i eid) = CHR ''{'' # b @ ''}''" by auto
qed

lemma gen_line_message: "gen_line pri stamp host program rest = syslog_message pri stamp host program (Some 2554) rest"
proof -
  have "int_dec 2554 = ''2554''" by code_simp
  then show ?thesis by (simp add: gen_line_def syslog_message_def syslog_tag_def)
qed

lemma gen_header_ok:
  assumes "host_ok host" "pri = 14 \<or> pri = 11" "program \<in> {''user_act'', ''dpi_event'', ''rapid''}"
  shows "header_ok pri (format_stamp now) host program (Some 2554)"
  using assms format_stamp_valid [of now] by (auto simp: header_ok_def host_ok_def)

lemma payload_body:
  "trim_space (CHR '' '' # print_json json_quote (gen_payload now v i eid)) = print_json json_quote (gen_payload now v i eid)"
  "has_prefix (print_json json_quote (gen_payload now v i eid)) ''{''"
proof -
  obtain b where b: "print_json json_quote (gen_payload now v i eid) = CHR ''{'' # b @ ''}''"
    using payload_is_object(2) by blast
  show "trim_space (CHR '' '' # print_json json_quote (gen_payload now v i eid)) = print_json json_quote (gen_payload now v i eid)"
    by (rule trim_payload [OF b])
  show "has_prefix (print_json json_quote (gen_payload now v i eid)) ''{''" by (simp add: b has_prefix_Cons)
qed

lemma trim_right_take: "\<exists>k. trim_right_space s = take k s"
proof (induction s rule: trim_right_space.induct)
  case (1 s)
  show ?case
  proof (cases "s = [] \<or> find (has_suffix s) space_seqs = None")
    case True
    then have "trim_right_space s = s" by (auto simp: trim_right_space.simps [of s])
    then show ?thesis by (intro exI [of _ "length s"]) simp
  next
    case False
    then obtain w where w: "s \<noteq> []" "find (has_suffix s) space_seqs = Some w" by auto
    with 1 [of w] obtain k where "trim_right_space (take (length s - length w) s) = take k (take (length s - length w) s)" by auto
    with w show ?thesis by (intro exI [of _ "min k (length s - length w)"]) (simp add: trim_right_space.simps [of s])
  qed
qed

lemma rapid_not_object: "\<not> has_prefix (trim_space (CHR '' '' # rapid_text i)) ''{''"
proof -
  have l: "trim_left_space (CHR '' '' # rapid_text i) = rapid_text i"
    by (subst trim_left_space.simps, subst trim_left_space.simps)
      (simp add: rapid_text_def space_seqs_def has_prefix_def)
  obtain k where "trim_right_space (rapid_text i) = take k (rapid_text i)" using trim_right_take by blast
  moreover have "hd (rapid_text i) = CHR ''A''" by (simp add: rapid_text_def)
  ultimately show ?thesis unfolding trim_space_def l by (cases k) (auto simp: rapid_text_def has_prefix_def)
qed

text \<open>
  Whatever the generator sends, the agent takes apart as it was put together: the messages with a
  JSON object give the program, the host, the process and the payload and no error, and every fourth
  message of a mixed run is the one that the agent has to keep as a parse error.
\<close>

lemma message_parsed:
  assumes "host_ok host"
  shows "parse_syslog (message now k i eid host) =
    (let v = gen_variant k i;
         program = (if v = 0 then ''user_act'' else if v = 1 \<or> v = 2 then ''dpi_event'' else ''rapid'');
         payload = print_json json_quote (gen_payload now v i eid);
         p = \<lparr>pa_program = program, pa_hostname = host, pa_pid = Some 2554,
              pa_priority = (if v \<in> {0, 1, 2} then 14 else 11), pa_payload = (if v \<in> {0, 1, 2} then Some payload else None)\<rparr>
     in (Some p, if v \<in> {0, 1, 2} then None else Some PayloadNotObject))"
proof -
  define v where "v = gen_variant k i"
  let ?pl = "print_json json_quote (gen_payload now v i eid)"
  have "parse_syslog (gen_line 14 (format_stamp now) host program ?pl) =
      (Some \<lparr>pa_program = program, pa_hostname = host, pa_pid = Some 2554, pa_priority = 14, pa_payload = Some ?pl\<rparr>, None)"
    if "program \<in> {''user_act'', ''dpi_event''}" for program
  proof -
    have "header_ok 14 (format_stamp now) host program (Some 2554)" by (rule gen_header_ok [OF assms]) (use that in auto)
    from parse_syslog_header [OF this, of ?pl] show ?thesis
      using payload_body [of now v i eid] payload_is_object(1) [of now v i eid] by (simp add: gen_line_message Let_def)
  qed
  note good = this
  have bad: "parse_syslog (gen_line 11 (format_stamp now) host ''rapid'' (rapid_text i)) =
      (Some \<lparr>pa_program = ''rapid'', pa_hostname = host, pa_pid = Some 2554, pa_priority = 11, pa_payload = None\<rparr>,
       Some PayloadNotObject)"
  proof -
    have "header_ok 11 (format_stamp now) host ''rapid'' (Some 2554)" by (rule gen_header_ok [OF assms]) auto
    from parse_syslog_header [OF this, of "rapid_text i"] show ?thesis
      using rapid_not_object [of i] by (simp add: gen_line_message Let_def)
  qed
  consider "v = 0" | "v = 1" | "v = 2" | "v \<notin> {0, 1, 2}" by auto
  then show ?thesis
  proof cases
    case 1
    then show ?thesis using good [of "''user_act''"] by (simp add: message_def v_def [symmetric] gen_payload_def Let_def)
  next
    case 2
    then show ?thesis using good [of "''dpi_event''"] by (simp add: message_def v_def [symmetric] gen_payload_def Let_def)
  next
    case 3
    then show ?thesis using good [of "''dpi_event''"] by (simp add: message_def v_def [symmetric] gen_payload_def Let_def)
  next
    case 4
    then show ?thesis using bad by (simp add: message_def v_def [symmetric] Let_def)
  qed
qed

lemma message_parsed_example:
  "snd (parse_syslog (message 1709164799000000000 Mixed 3 170916479900003 ''fw'')) = Some PayloadNotObject
   \<and> snd (parse_syslog (message 1709164799000000000 Mixed 5 170916479900005 ''fw'')) = None"
proof -
  have h: "host_ok ''fw''" by (simp add: host_ok_def)
  show ?thesis unfolding message_parsed [OF h] by (simp add: gen_variant_def Let_def)
qed

end
